theory Spec2Isabelle
  imports Complex_Main "HOL-Library.Word" "HOL-Library.Signed_Division"
begin

unbundle bit_operations_syntax

section \<open>Basic types\<close>

text \<open>
  \<open>CAmount\<close> is \<open>int64_t\<close>. Signed overflow is undefined in C++ and amounts are
  range-checked by consensus, so amounts are unbounded integers here; the one division
  (\<open>miner_reward / 5\<close>) truncates towards zero and is written \<open>sdiv\<close>.
  Hashes (\<open>uint256\<close>, \<open>uint160\<close>) are opaque and modelled by natural numbers.
\<close>

type_synonym CAmount = int
type_synonym uint256 = nat
type_synonym byte = "8 word"
type_synonym CScript = "byte list"

section \<open>Script serialisation\<close>

text \<open>
  Modelled from the spec: \<open>CScript::operator<<\<close> and \<open>CScriptNum::serialize\<close> live in
  \<open>script/script.h\<close>, which is not among the sources. The spec only says that the
  coinbase scriptSig "encodes height as a CScriptNum, then an extra-nonce CScriptNum, then
  COINBASE_FLAGS"; the encoding below is the usual one: a number is written as its
  little-endian magnitude with the sign in the top bit of the last byte, data is pushed
  with a length prefix, and the small integers \<open>-1, 1..16\<close> are pushed as single opcodes.
\<close>

definition OP_0 :: byte where "OP_0 = 0x00"
definition OP_PUSHDATA1 :: byte where "OP_PUSHDATA1 = 0x4c"
definition OP_PUSHDATA2 :: byte where "OP_PUSHDATA2 = 0x4d"
definition OP_PUSHDATA4 :: byte where "OP_PUSHDATA4 = 0x4e"
definition OP_1 :: byte where "OP_1 = 0x51"
definition OP_DUP :: byte where "OP_DUP = 0x76"
definition OP_EQUALVERIFY :: byte where "OP_EQUALVERIFY = 0x88"
definition OP_HASH160 :: byte where "OP_HASH160 = 0xa9"
definition OP_CHECKSIG :: byte where "OP_CHECKSIG = 0xac"

text \<open>The loop \<open>while (absvalue) { push_back(absvalue & 0xff); absvalue >>= 8; }\<close>.\<close>

fun le_bytes :: "nat \<Rightarrow> byte list" where
  "le_bytes n = (if n = 0 then [] else of_nat (n mod 256) # le_bytes (n div 256))"

declare le_bytes.simps [simp del]

definition serialize :: "int \<Rightarrow> byte list" where
  "serialize v =
     (if v = 0 then []
      else let neg = (v < 0); result = le_bytes (nat \<bar>v\<bar>)
           in if last result AND 0x80 \<noteq> 0 then result @ [if neg then 0x80 else 0]
              else if neg then butlast result @ [last result OR 0x80]
              else result)"

text \<open>\<open>operator<<(const std::vector<unsigned char>&)\<close>: the length prefix, then the data.\<close>

definition push_data :: "CScript \<Rightarrow> byte list \<Rightarrow> CScript" where
  "push_data s b =
     (if length b < unat OP_PUSHDATA1 then s @ [of_nat (length b)] @ b
      else if length b \<le> 0xff then s @ [OP_PUSHDATA1, of_nat (length b)] @ b
      else if length b \<le> 0xffff then
        s @ [OP_PUSHDATA2, of_nat (length b mod 256), of_nat (length b div 256)] @ b
      else s @ [OP_PUSHDATA4, of_nat (length b mod 256), of_nat (length b div 256 mod 256),
                of_nat (length b div 65536 mod 256), of_nat (length b div 16777216 mod 256)] @ b)"

text \<open>\<open>operator<<(int64_t)\<close>, that is \<open>push_int64\<close>.\<close>

definition push_int64 :: "CScript \<Rightarrow> int \<Rightarrow> CScript" where
  "push_int64 s n =
     (if n = -1 \<or> (1 \<le> n \<and> n \<le> 16) then s @ [of_int (n + (uint OP_1 - 1))]
      else if n = 0 then s @ [OP_0]
      else push_data s (serialize n))"


definition push_opcode :: "CScript \<Rightarrow> byte \<Rightarrow> CScript" where
  "push_opcode s opc = s @ [opc]"

section \<open>Miner addresses\<close>

text \<open>
  \<open>MinerAddress\<close> is a \<open>std::variant\<close> of a reserve script, a Sapling payment address and
  an Orchard raw address; the address payloads are opaque. A decoded payment address is a
  transparent key id, a script id, a Sprout or Sapling address, or a Unified Address, and
  the receivers of a Unified Address are key ids, script ids, Sapling and Orchard addresses.
\<close>

type_synonym CKeyID = "byte list"
type_synonym CScriptID = "byte list"
type_synonym SproutPaymentAddress = nat
type_synonym SaplingPaymentAddress = nat
type_synonym OrchardRawAddress = nat
type_synonym UnifiedAddress = nat

datatype MinerAddress =
    ReserveScript CScript
  | SaplingMiner SaplingPaymentAddress
  | OrchardMiner OrchardRawAddress

datatype RecipientAddress =
    RecipientKeyID CKeyID
  | RecipientScriptID CScriptID
  | RecipientSapling SaplingPaymentAddress
  | RecipientOrchard OrchardRawAddress

datatype PaymentAddress =
    PayKeyID CKeyID
  | PayScriptID CScriptID
  | PaySprout SproutPaymentAddress
  | PaySapling SaplingPaymentAddress
  | PayUnified UnifiedAddress

definition IsShieldedMinerAddress :: "MinerAddress \<Rightarrow> bool" where
  "IsShieldedMinerAddress minerAddr = (case minerAddr of ReserveScript _ \<Rightarrow> False | _ \<Rightarrow> True)"

text \<open>\<open>ExtractMinerAddress::operator()(const CKeyID&)\<close>: the pay-to-public-key-hash script.\<close>

definition ExtractMinerAddress_keyID :: "CKeyID \<Rightarrow> MinerAddress option" where
  "ExtractMinerAddress_keyID keyID =
     Some (ReserveScript
       (push_opcode (push_opcode (push_data (push_opcode (push_opcode [] OP_DUP) OP_HASH160) keyID)
          OP_EQUALVERIFY) OP_CHECKSIG))"

text \<open>
  The visitor \<open>ExtractMinerAddress\<close>. \<open>UnifiedAddress::GetPreferredRecipientAddress\<close> is
  not among the sources and is taken as the parameter \<open>preferred\<close> (already applied to
  the consensus parameters and the height held by the visitor).
\<close>

fun ExtractMinerAddress :: "(UnifiedAddress \<Rightarrow> RecipientAddress option) \<Rightarrow> PaymentAddress \<Rightarrow> MinerAddress option" where
  "ExtractMinerAddress preferred (PayKeyID keyID) = ExtractMinerAddress_keyID keyID"
| "ExtractMinerAddress preferred (PayScriptID addr) = None"
| "ExtractMinerAddress preferred (PaySprout addr) = None"
| "ExtractMinerAddress preferred (PaySapling addr) = Some (SaplingMiner addr)"
| "ExtractMinerAddress preferred (PayUnified addr) =
     (case preferred addr of
        Some r \<Rightarrow>
          (case r of
             RecipientOrchard a \<Rightarrow> Some (OrchardMiner a)
           | RecipientSapling a \<Rightarrow> Some (SaplingMiner a)
           | RecipientKeyID keyID \<Rightarrow> ExtractMinerAddress_keyID keyID
           | _ \<Rightarrow> None)
      | None \<Rightarrow> None)"

text \<open>The pay-to-public-key-hash script: \<open>OP_DUP OP_HASH160 <keyID> OP_EQUALVERIFY OP_CHECKSIG\<close>.\<close>

definition p2pkh_script :: "CKeyID \<Rightarrow> CScript" where
  "p2pkh_script keyID = push_data [OP_DUP, OP_HASH160] keyID @ [OP_EQUALVERIFY, OP_CHECKSIG]"

section \<open>Transactions\<close>

text \<open>
  Modelled from the spec: the transaction types are declared in
  \<open>primitives/transaction.h\<close>, which is not among the sources. The spec lists their
  attributes ("a transparent input vector (each referencing a prior output by txid and
  index), a transparent output vector (amount + locking script), a shielded-Sapling bundle
  with an integer valueBalanceSapling and vectors of spend/output descriptions, an Orchard
  bundle with its own value balance, a joinsplit (Sprout) vector with vpub_old/vpub_new
  scalars, a lock-time and expiry-height"); only the fields that the miner reads or writes
  are kept. A null outpoint has a zero hash and index \<open>(uint32_t) -1\<close>; a
  default-constructed \<open>CTxOut\<close> is null, with value \<open>-1\<close> and an empty script. A Sapling
  output description is opaque (proof and ciphertexts); the model keeps the key and the note
  it was built from.
\<close>

record COutPoint =
  prevout_hash :: uint256
  prevout_n :: "32 word"

definition COutPoint_Null :: COutPoint where
  "COutPoint_Null = \<lparr>prevout_hash = 0, prevout_n = - 1\<rparr>"

definition IsNull :: "COutPoint \<Rightarrow> bool" where
  "IsNull p = (prevout_hash p = 0 \<and> prevout_n p = - 1)"

record CTxIn =
  prevout :: COutPoint
  scriptSig :: CScript
  nSequence :: "32 word"

definition CTxIn_default :: CTxIn where
  "CTxIn_default = \<lparr>prevout = COutPoint_Null, scriptSig = [], nSequence = - 1\<rparr>"

record CTxOut =
  nValue :: CAmount
  scriptPubKey :: CScript

definition CTxOut_default :: CTxOut where
  "CTxOut_default = \<lparr>nValue = - 1, scriptPubKey = []\<rparr>"

datatype Zip212Enabled = BeforeZip212 | AfterZip212

record SaplingNote =
  note_address :: SaplingPaymentAddress
  note_value :: CAmount
  note_zip212 :: Zip212Enabled

record OutputDescription =
  od_ovk :: uint256
  od_note :: SaplingNote

record JSDescription =
  vpub_old :: CAmount
  vpub_new :: CAmount

type_synonym OrchardOutput = "uint256 \<times> OrchardRawAddress \<times> CAmount"

record OrchardBundle =
  orchard_outputs :: "OrchardOutput list"
  orchard_valueBalance :: CAmount

record CMutableTransaction =
  vin :: "CTxIn list"
  vout :: "CTxOut list"
  nExpiryHeight :: "32 word"
  valueBalanceSapling :: CAmount
  vShieldedOutput :: "OutputDescription list"
  vJoinSplit :: "JSDescription list"
  orchardBundle :: "OrchardBundle option"
  bindingSig :: nat

text \<open>
  Modelled from the spec: the Orchard bundle and its builder (\<open>orchard::Builder\<close>,
  \<open>UnauthorizedBundle::ProveAndSign\<close>, \<open>OrchardBundle::GetValueBalance\<close>) are not among
  the sources. A bundle is kept as the outputs given to its builder together with "its own
  value balance"; an absent bundle has balance 0; the bundle built for a coinbase has no
  spends ("one Orchard action paying the miner ..., plus one mandatory dummy zero-value
  output"), so its value balance is minus the sum of its outputs.
\<close>

definition GetValueBalance :: "OrchardBundle option \<Rightarrow> CAmount" where
  "GetValueBalance b = (case b of None \<Rightarrow> 0 | Some bundle \<Rightarrow> orchard_valueBalance bundle)"

definition authorized_bundle :: "OrchardOutput list \<Rightarrow> OrchardBundle" where
  "authorized_bundle outs =
     \<lparr>orchard_outputs = outs, orchard_valueBalance = - sum_list (map (\<lambda>(ovk, to, v). v) outs)\<rparr>"

text \<open>\<open>std::vector::resize\<close>: cut, or fill with default-constructed elements.\<close>

definition resize :: "nat \<Rightarrow> 'a \<Rightarrow> 'a list \<Rightarrow> 'a list" where
  "resize k d xs = take k xs @ replicate (k - length xs) d"

section \<open>Consensus parameters and the proving library\<close>

text \<open>
  The consensus parameter queries (\<open>chainparams.h\<close>, \<open>consensus/params.h\<close>,
  \<open>consensus/funding.h\<close>, \<open>main.h\<close>) are not among the sources; the miner only calls
  them, so they are the fields of a parameter record. \<open>ContextualExpiryHeight\<close> is the
  expiry height that \<open>CreateNewContextualCMutableTransaction\<close> gives a new transaction.
\<close>

datatype UpgradeIndex = UPGRADE_HEARTWOOD | UPGRADE_CANOPY | UPGRADE_NU5

datatype FundingStreamAddress = FundingSapling SaplingPaymentAddress | FundingScript CScript

type_synonym FundingStreamElement = "FundingStreamAddress \<times> CAmount"

record CChainParams =
  GetBlockSubsidy :: "int \<Rightarrow> CAmount"
  NetworkUpgradeActive :: "int \<Rightarrow> UpgradeIndex \<Rightarrow> bool"
  IsActivationHeight :: "int \<Rightarrow> UpgradeIndex \<Rightarrow> bool"
  GetActiveFundingStreamElements :: "int \<Rightarrow> CAmount \<Rightarrow> FundingStreamElement list"
  GetLastFoundersRewardBlockHeight :: "int \<Rightarrow> int"
  GetFoundersRewardScriptAtHeight :: "int \<Rightarrow> CScript"
  CurrentEpochBranchId :: "int \<Rightarrow> 32 word"
  ZIP209Enabled :: bool
  ContextualExpiryHeight :: "int \<Rightarrow> 32 word"

text \<open>
  Exceptions. The builder itself throws \<open>std::runtime_error\<close> with a message; the
  signature hashes throw \<open>std::logic_error\<close> (the one type that \<open>ComputeBindingSig\<close>
  catches, together with the types derived from it) or an exception of any other type,
  such as \<open>std::bad_alloc\<close>.
\<close>

datatype exn = runtime_error string | logic_error | other_exception string

text \<open>
  The proving library and the signature hashes are external. Each call that the miner
  tests for failure is a field saying whether (or with what) it succeeds:
  \<open>OutputDescriptionInfo::Build\<close>, \<open>orchard::Builder::Build\<close>,
  \<open>UnauthorizedBundle::ProveAndSign\<close> and \<open>librustzcash_sapling_binding_sig\<close>. The two
  signature hashes, \<open>ProduceZip244SignatureHash\<close> and \<open>SignatureHash\<close> (with the
  construction of \<open>PrecomputedTransactionData\<close> that precedes it inside the \<open>try\<close>
  block), return the hash or throw. \<open>dummy_address\<close> is the random Orchard address of the
  dummy output.
\<close>

record crypto =
  output_Build :: "CMutableTransaction \<Rightarrow> uint256 \<Rightarrow> SaplingNote \<Rightarrow> bool"
  builder_Build :: "OrchardOutput list \<Rightarrow> bool"
  ProduceZip244SignatureHash :: "CMutableTransaction \<Rightarrow> OrchardOutput list \<Rightarrow> exn + uint256"
  SignatureHash :: "CMutableTransaction \<Rightarrow> 32 word \<Rightarrow> exn + uint256"
  ProveAndSign :: "OrchardOutput list \<Rightarrow> uint256 \<Rightarrow> bool"
  sapling_binding_sig :: "CAmount \<Rightarrow> uint256 \<Rightarrow> nat option"
  dummy_address :: OrchardRawAddress

section \<open>The coinbase builder\<close>

text \<open>
  The builder mutates \<open>mtx\<close> through a reference and owns one Sapling proving context.
  The state is the transaction together with the number of calls of
  \<open>librustzcash_sapling_proving_ctx_init\<close> and \<open>librustzcash_sapling_proving_ctx_free\<close>;
  a thrown exception is a left result, and the state at the throw is returned with it.
\<close>

record cb_state =
  mtx :: CMutableTransaction
  ctx_inits :: nat
  ctx_frees :: nat

definition ctx_init :: "cb_state \<Rightarrow> cb_state" where
  "ctx_init s = s\<lparr>ctx_inits := Suc (ctx_inits s)\<rparr>"

definition ctx_free :: "cb_state \<Rightarrow> cb_state" where
  "ctx_free s = s\<lparr>ctx_frees := Suc (ctx_frees s)\<rparr>"

fun AddFundingStreamValueToTx ::
  "crypto \<Rightarrow> CAmount \<Rightarrow> Zip212Enabled \<Rightarrow> FundingStreamAddress \<Rightarrow> CMutableTransaction
     \<Rightarrow> bool \<times> CMutableTransaction" where
  "AddFundingStreamValueToTx C fundingStreamValue zip212Enabled (FundingSapling pa) m =
     (let ovk = 0;
          note = \<lparr>note_address = pa, note_value = fundingStreamValue, note_zip212 = zip212Enabled\<rparr>
      in if output_Build C m ovk note
         then (True, m\<lparr>vShieldedOutput := vShieldedOutput m @ [\<lparr>od_ovk = ovk, od_note = note\<rparr>],
                       valueBalanceSapling := valueBalanceSapling m - fundingStreamValue\<rparr>)
         else (False, m))"
| "AddFundingStreamValueToTx C fundingStreamValue zip212Enabled (FundingScript spk) m =
     (True, m\<lparr>vout := vout m @ [\<lparr>nValue = fundingStreamValue, scriptPubKey = spk\<rparr>]\<rparr>)"

definition GetZip212Flag :: "CChainParams \<Rightarrow> int \<Rightarrow> Zip212Enabled" where
  "GetZip212Flag P nHeight =
     (if NetworkUpgradeActive P nHeight UPGRADE_CANOPY then AfterZip212 else BeforeZip212)"

text \<open>The loop over the funding stream elements in \<open>SetFoundersRewardAndGetMinerValue\<close>.\<close>

fun funding_loop ::
  "crypto \<Rightarrow> Zip212Enabled \<Rightarrow> FundingStreamElement list \<Rightarrow> CAmount \<Rightarrow> cb_state
     \<Rightarrow> (exn + CAmount) \<times> cb_state" where
  "funding_loop C z [] miner_reward s = (Inr miner_reward, s)"
| "funding_loop C z (fselem # rest) miner_reward s =
     (let miner_reward' = miner_reward - snd fselem;
          (added, m) = AddFundingStreamValueToTx C (snd fselem) z (fst fselem) (mtx s)
      in if \<not> added
         then (Inl (runtime_error ''Failed to add funding stream output.''), ctx_free (s\<lparr>mtx := m\<rparr>))
         else funding_loop C z rest miner_reward' (s\<lparr>mtx := m\<rparr>))"

definition SetFoundersRewardAndGetMinerValue ::
  "CChainParams \<Rightarrow> crypto \<Rightarrow> int \<Rightarrow> CAmount \<Rightarrow> cb_state \<Rightarrow> (exn + CAmount) \<times> cb_state" where
  "SetFoundersRewardAndGetMinerValue P C nHeight nFees s =
     (let block_subsidy = GetBlockSubsidy P nHeight;
          miner_reward = block_subsidy
      in if nHeight > 0 then
           if NetworkUpgradeActive P nHeight UPGRADE_CANOPY then
             (case funding_loop C (GetZip212Flag P nHeight)
                     (GetActiveFundingStreamElements P nHeight block_subsidy) miner_reward s of
                (Inl e, s') \<Rightarrow> (Inl e, s')
              | (Inr miner_reward', s') \<Rightarrow> (Inr (miner_reward' + nFees), s'))
           else if nHeight \<le> GetLastFoundersRewardBlockHeight P nHeight then
             (let vFoundersReward = miner_reward sdiv 5;
                  miner_reward' = miner_reward - vFoundersReward
              in (Inr (miner_reward' + nFees),
                  s\<lparr>mtx := (mtx s)\<lparr>vout := vout (mtx s) @
                     [\<lparr>nValue = vFoundersReward,
                       scriptPubKey = GetFoundersRewardScriptAtHeight P nHeight\<rparr>]\<rparr>\<rparr>))
           else (Inr (miner_reward + nFees), s)
         else (Inr (miner_reward + nFees), s))"

text \<open>
  \<open>ComputeBindingSig\<close>. The handler \<open>catch (std::logic_error ex)\<close> frees the context and
  throws again; an exception of another type leaves the \<open>try\<close> block past the handler,
  with the context as it is.
\<close>

definition ComputeBindingSig ::
  "CChainParams \<Rightarrow> crypto \<Rightarrow> int \<Rightarrow> OrchardOutput list option \<Rightarrow> cb_state
     \<Rightarrow> (exn + unit) \<times> cb_state" where
  "ComputeBindingSig P C nHeight orchardBundle' s =
     (case (case orchardBundle' of
              Some b \<Rightarrow> ProduceZip244SignatureHash C (mtx s) b
            | None \<Rightarrow> SignatureHash C (mtx s) (CurrentEpochBranchId P nHeight)) of
        Inl ex \<Rightarrow> if ex = logic_error then (Inl ex, ctx_free s) else (Inl ex, s)
      | Inr dataToBeSigned \<Rightarrow>
          (case (case orchardBundle' of
                   Some b \<Rightarrow>
                     if ProveAndSign C b dataToBeSigned
                     then Inr (s\<lparr>mtx := (mtx s)\<lparr>orchardBundle := Some (authorized_bundle b)\<rparr>\<rparr>)
                     else Inl (runtime_error ''Failed to create Orchard proof or signatures'')
                 | None \<Rightarrow> Inr s) of
             Inl e \<Rightarrow> (Inl e, ctx_free s)
           | Inr s1 \<Rightarrow>
               (case sapling_binding_sig C (valueBalanceSapling (mtx s1)) dataToBeSigned of
                  None \<Rightarrow>
                    (Inl (runtime_error ''An error occurred computing the binding signature.''),
                     ctx_free s1)
                | Some sig \<Rightarrow> (Inr (), s1\<lparr>mtx := (mtx s1)\<lparr>bindingSig := sig\<rparr>\<rparr>))))"

text \<open>The three \<open>operator()\<close> of \<open>AddOutputsToCoinbaseTxAndSign\<close>, one per miner address.\<close>

fun AddOutputsToCoinbaseTxAndSign ::
  "CChainParams \<Rightarrow> crypto \<Rightarrow> int \<Rightarrow> CAmount \<Rightarrow> MinerAddress \<Rightarrow> cb_state
     \<Rightarrow> (exn + unit) \<times> cb_state" where
  "AddOutputsToCoinbaseTxAndSign P C nHeight nFees (OrchardMiner to) s0 =
     (let s = ctx_init s0; ovk = 0
      in case SetFoundersRewardAndGetMinerValue P C nHeight nFees s of
           (Inl e, s1) \<Rightarrow> (Inl e, s1)
         | (Inr miner_reward, s1) \<Rightarrow>
             (let builder = [(ovk, to, miner_reward), (ovk, dummy_address C, 0)]
              in if \<not> builder_Build C builder
                 then (Inl (runtime_error ''Failed to create shielded output for miner''),
                       ctx_free s1)
                 else (case ComputeBindingSig P C nHeight (Some builder) s1 of
                         (Inl e, s2) \<Rightarrow> (Inl e, s2)
                       | (Inr u, s2) \<Rightarrow> (Inr (), ctx_free s2))))"
| "AddOutputsToCoinbaseTxAndSign P C nHeight nFees (SaplingMiner pa) s0 =
     (let s = ctx_init s0
      in case SetFoundersRewardAndGetMinerValue P C nHeight nFees s of
           (Inl e, s1) \<Rightarrow> (Inl e, s1)
         | (Inr miner_reward, s1) \<Rightarrow>
             (let s2 = s1\<lparr>mtx := (mtx s1)\<lparr>valueBalanceSapling :=
                            valueBalanceSapling (mtx s1) - miner_reward\<rparr>\<rparr>;
                  ovk = 0;
                  note = \<lparr>note_address = pa, note_value = miner_reward,
                          note_zip212 = GetZip212Flag P nHeight\<rparr>
              in if \<not> output_Build C (mtx s2) ovk note
                 then (Inl (runtime_error ''Failed to create shielded output for miner''),
                       ctx_free s2)
                 else (let s3 = s2\<lparr>mtx := (mtx s2)\<lparr>vShieldedOutput :=
                                  vShieldedOutput (mtx s2) @ [\<lparr>od_ovk = ovk, od_note = note\<rparr>]\<rparr>\<rparr>
                       in case ComputeBindingSig P C nHeight None s3 of
                            (Inl e, s4) \<Rightarrow> (Inl e, s4)
                          | (Inr u, s4) \<Rightarrow> (Inr (), ctx_free s4))))"
| "AddOutputsToCoinbaseTxAndSign P C nHeight nFees (ReserveScript reserveScript) s0 =
     (let s = ctx_init s0;
          s' = s\<lparr>mtx := (mtx s)\<lparr>vout := resize 1 CTxOut_default (vout (mtx s))\<rparr>\<rparr>
      in case SetFoundersRewardAndGetMinerValue P C nHeight nFees s' of
           (Inl e, s1) \<Rightarrow> (Inl e, s1)
         | (Inr v, s1) \<Rightarrow>
             (let s2 = s1\<lparr>mtx := (mtx s1)\<lparr>vout :=
                            (vout (mtx s1))[0 := \<lparr>nValue = v, scriptPubKey = reserveScript\<rparr>]\<rparr>\<rparr>
              in if length (vShieldedOutput (mtx s2)) > 0
                 then (case ComputeBindingSig P C nHeight None s2 of
                         (Inl e, s3) \<Rightarrow> (Inl e, s3)
                       | (Inr u, s3) \<Rightarrow> (Inr (), ctx_free s3))
                 else (Inr (), ctx_free s2)))"

text \<open>
  Modelled from the spec: \<open>CreateNewContextualCMutableTransaction\<close> (\<open>main.cpp\<close>) is not
  among the sources. It hands out a newly constructed transaction whose version fields
  (not kept here) and expiry height are chosen for the height; the coinbase built from it
  is "a single coinbase transaction carrying the miner's share plus all founders' reward or
  funding-stream outputs", so the new transaction has no inputs, no outputs, no shielded
  parts and a zero Sapling value balance. \<open>requireV4\<close> only affects the version.
\<close>

definition CreateNewContextualCMutableTransaction ::
  "CChainParams \<Rightarrow> int \<Rightarrow> bool \<Rightarrow> CMutableTransaction" where
  "CreateNewContextualCMutableTransaction P nHeight requireV4 =
     \<lparr>vin = [], vout = [], nExpiryHeight = ContextualExpiryHeight P nHeight,
      valueBalanceSapling = 0, vShieldedOutput = [], vJoinSplit = [], orchardBundle = None,
      bindingSig = 0\<rparr>"

text \<open>
  \<open>CreateCoinbaseTransaction\<close>. \<open>preferV4\<close> is the condition
  \<open>nPreferredTxVersion < ZIP225_MIN_TX_VERSION\<close>. The result is the transaction, or the
  exception, together with the numbers of context initialisations and releases.
\<close>

definition is_OrchardMiner :: "MinerAddress \<Rightarrow> bool" where
  "is_OrchardMiner a = (case a of OrchardMiner _ \<Rightarrow> True | _ \<Rightarrow> False)"

definition CreateCoinbaseTransaction ::
  "CChainParams \<Rightarrow> crypto \<Rightarrow> bool \<Rightarrow> CAmount \<Rightarrow> MinerAddress \<Rightarrow> int
     \<Rightarrow> (exn + CMutableTransaction) \<times> nat \<times> nat" where
  "CreateCoinbaseTransaction P C preferV4 nFees minerAddress nHeight =
     (let m0 = CreateNewContextualCMutableTransaction P nHeight
                 (\<not> is_OrchardMiner minerAddress \<and> preferV4);
          m1 = m0\<lparr>vin := resize 1 CTxIn_default (vin m0)\<rparr>;
          m2 = m1\<lparr>vin := (vin m1)[0 := (vin m1 ! 0)\<lparr>prevout := COutPoint_Null\<rparr>]\<rparr>;
          m3 = (if NetworkUpgradeActive P nHeight UPGRADE_NU5
                then m2\<lparr>nExpiryHeight := word_of_int nHeight\<rparr>
                else m2\<lparr>nExpiryHeight := 0\<rparr>)
      in case AddOutputsToCoinbaseTxAndSign P C nHeight nFees minerAddress
                \<lparr>mtx = m3, ctx_inits = 0, ctx_frees = 0\<rparr> of
           (Inl e, s) \<Rightarrow> (Inl e, ctx_inits s, ctx_frees s)
         | (Inr u, s) \<Rightarrow>
             (Inr ((mtx s)\<lparr>vin := (vin (mtx s))[0 := (vin (mtx s) ! 0)
                      \<lparr>scriptSig := push_opcode (push_int64 [] nHeight) OP_0\<rparr>]\<rparr>),
              ctx_inits s, ctx_frees s))"

section \<open>Transaction selection\<close>

text \<open>
  The mempool, the coin view and the policy constants are external. What the selection
  loop of \<open>CreateNewBlock\<close> asks of them is gathered in one record; \<open>'v\<close> is the type of
  the coin view (\<open>CCoinsViewCache\<close>). The three size options are the values of
  \<open>-blockmaxsize\<close>, \<open>-blockprioritysize\<close> and \<open>-blockminsize\<close> as stored in the
  \<open>unsigned int\<close> variables. Priorities are \<open>double\<close> in the source and real numbers
  here. A \<open>CFeeRate\<close> is compared through its amount per 1000 bytes and is modelled by
  that amount.
\<close>

type_synonym CFeeRate = CAmount

record 'v miner_env =
  GetSerializeSize :: "CMutableTransaction \<Rightarrow> 32 word"
  GetHash :: "CMutableTransaction \<Rightarrow> uint256"
  GetLegacySigOpCount :: "CMutableTransaction \<Rightarrow> 32 word"
  GetP2SHSigOpCount :: "CMutableTransaction \<Rightarrow> 'v \<Rightarrow> 32 word"
  HaveInputs :: "'v \<Rightarrow> CMutableTransaction \<Rightarrow> bool"
  GetValueIn :: "'v \<Rightarrow> CMutableTransaction \<Rightarrow> CAmount"
  GetValueOut :: "CMutableTransaction \<Rightarrow> CAmount"
  ContextualCheckInputs :: "CMutableTransaction \<Rightarrow> 'v \<Rightarrow> 32 word \<Rightarrow> bool"
  UpdateCoins :: "CMutableTransaction \<Rightarrow> 'v \<Rightarrow> int \<Rightarrow> 'v"
  GetHistoryRoot :: "'v \<Rightarrow> 32 word \<Rightarrow> uint256"
  mapDeltas :: "uint256 \<Rightarrow> (real \<times> CAmount) option"
  AllowFree :: "real \<Rightarrow> bool"
  minRelayTxFee :: CFeeRate
  DEFAULT_FEE :: CAmount
  MAX_BLOCK_SIGOPS :: "32 word"
  MAX_BLOCK_SIZE :: "32 word"
  blockmaxsize :: "32 word"
  blockprioritysize :: "32 word"
  blockminsize :: "32 word"

text \<open>The clamped limits computed at the start of \<open>CreateNewBlock\<close>.\<close>

definition nBlockMaxSize :: "'v miner_env \<Rightarrow> 32 word" where
  "nBlockMaxSize E = max 1000 (min (MAX_BLOCK_SIZE E - 1000) (blockmaxsize E))"

definition nBlockPrioritySize :: "'v miner_env \<Rightarrow> 32 word" where
  "nBlockPrioritySize E = min (nBlockMaxSize E) (blockprioritysize E)"

definition nBlockMinSize :: "'v miner_env \<Rightarrow> 32 word" where
  "nBlockMinSize E = min (nBlockMaxSize E) (blockminsize E)"

text \<open>
  Modelled from the spec: \<open>CTxMemPool::ApplyDeltas\<close> (\<open>txmempool.cpp\<close>) is not among the
  sources. It adds to its two reference arguments the "administrator-applied priority delta
  and fee delta" recorded for the transaction, if there are any.
\<close>

definition ApplyDeltas ::
  "(uint256 \<Rightarrow> (real \<times> CAmount) option) \<Rightarrow> uint256 \<Rightarrow> real \<times> CAmount \<Rightarrow> real \<times> CAmount" where
  "ApplyDeltas deltas hash pf =
     (case deltas hash of None \<Rightarrow> pf | Some (dp, df) \<Rightarrow> (fst pf + dp, snd pf + df))"

subsection \<open>The priority queue and the orphans\<close>

type_synonym TxPriority = "real \<times> CFeeRate \<times> CAmount \<times> CMutableTransaction"

definition get0 :: "TxPriority \<Rightarrow> real" where "get0 a = fst a"
definition get1 :: "TxPriority \<Rightarrow> CFeeRate" where "get1 a = fst (snd a)"
definition get2 :: "TxPriority \<Rightarrow> CAmount" where "get2 a = fst (snd (snd a))"
definition get3 :: "TxPriority \<Rightarrow> CMutableTransaction" where "get3 a = snd (snd (snd a))"

definition TxPriorityCompare :: "bool \<Rightarrow> TxPriority \<Rightarrow> TxPriority \<Rightarrow> bool" where
  "TxPriorityCompare byFee a b =
     (if byFee then
        (if get1 a = get1 b then get0 a < get0 b else get1 a < get1 b)
      else
        (if get0 a = get0 b then get1 a < get1 b else get0 a < get0 b))"

text \<open>
  \<open>vecPriority\<close> is kept as a heap by \<open>std::make_heap\<close>, \<open>std::push_heap\<close> and
  \<open>std::pop_heap\<close>. The layout of the heap is not modelled: the queue is a list,
  pushing appends, rebuilding changes nothing, and the front is a greatest entry under the
  comparator in force (the first one met when several rank equally, an order that the
  library leaves open).
\<close>

fun heap_top :: "('a \<Rightarrow> 'a \<Rightarrow> bool) \<Rightarrow> 'a \<Rightarrow> 'a list \<Rightarrow> 'a" where
  "heap_top lt m [] = m"
| "heap_top lt m (x # xs) = heap_top lt (if lt m x then x else m) xs"

definition pop_heap :: "('a \<Rightarrow> 'a \<Rightarrow> bool) \<Rightarrow> 'a list \<Rightarrow> 'a \<times> 'a list" where
  "pop_heap lt q = (let front = heap_top lt (hd q) (tl q) in (front, remove1 front q))"

record COrphan =
  ptx :: CMutableTransaction
  setDependsOn :: "uint256 set"
  feeRate :: CFeeRate
  feePaid :: CAmount
  dPriority :: real

text \<open>
  \<open>vOrphan\<close> is a list that owns the orphans, and \<open>mapDependers\<close> maps a transaction id to
  pointers into that list; a pointer is the position in the list. The loop
  \<open>for (COrphan* porphan : mapDependers[hash])\<close> removes the accepted transaction from the
  dependencies of each waiting orphan and queues the orphan once nothing is left.
\<close>

fun promote ::
  "uint256 \<Rightarrow> nat list \<Rightarrow> COrphan list \<times> TxPriority list \<Rightarrow> COrphan list \<times> TxPriority list" where
  "promote hash [] (orphans, q) = (orphans, q)"
| "promote hash (p # ps) (orphans, q) =
     (if p < length orphans \<and> setDependsOn (orphans ! p) \<noteq> {} then
        let porphan = (orphans ! p)\<lparr>setDependsOn := setDependsOn (orphans ! p) - {hash}\<rparr>;
            orphans' = orphans[p := porphan]
        in if setDependsOn porphan = {}
           then promote hash ps
                  (orphans', q @ [(dPriority porphan, feeRate porphan, feePaid porphan, ptx porphan)])
           else promote hash ps (orphans', q)
      else promote hash ps (orphans, q))"

subsection \<open>The state of the loop\<close>

text \<open>
  Each \<open>continue\<close> of the loop is announced by its own log line; the model records them,
  with the transaction id, in \<open>selection_log\<close>.
\<close>

datatype verdict =
    SkipMaxSize
  | SkipLegacySigOps
  | SkipFree
  | SkipMissingInputs
  | SkipP2SHSigOps
  | SkipContextualCheck
  | SkipSproutTurnstile
  | SkipSaplingTurnstile
  | SkipOrchardTurnstile
  | Added

record 'v selection =
  vecPriority :: "TxPriority list"
  vOrphan :: "COrphan list"
  fSortedByFee :: bool
  view :: 'v
  vtx :: "CMutableTransaction list"
  vTxFees :: "CAmount list"
  vTxSigOps :: "int list"
  nBlockSize :: "64 word"
  nBlockTx :: "64 word"
  nBlockSigOps :: "32 word"
  nFees :: CAmount
  sproutValue :: CAmount
  saplingValue :: CAmount
  orchardValue :: CAmount
  selection_log :: "(uint256 \<times> verdict) list"

definition skip :: "uint256 \<Rightarrow> verdict \<Rightarrow> 'v selection \<Rightarrow> 'v selection" where
  "skip hash v s = s\<lparr>selection_log := selection_log s @ [(hash, v)]\<rparr>"

text \<open>The chain tip, as far as the miner reads it.\<close>

record CBlockIndex =
  nHeight :: int
  GetBlockHash :: uint256
  nChainSproutValue :: "CAmount option"
  nChainSaplingValue :: "CAmount option"
  nChainOrchardValue :: "CAmount option"

definition monitoring_pool_balances :: "CChainParams \<Rightarrow> CBlockIndex \<Rightarrow> bool" where
  "monitoring_pool_balances P pindexPrev =
     (if ZIP209Enabled P
      then nChainSproutValue pindexPrev \<noteq> None \<and> nChainSaplingValue pindexPrev \<noteq> None
           \<and> nChainOrchardValue pindexPrev \<noteq> None
      else True)"

definition initial_pool_value :: "CChainParams \<Rightarrow> CAmount option \<Rightarrow> CAmount" where
  "initial_pool_value P v = (if ZIP209Enabled P then (case v of Some x \<Rightarrow> x | None \<Rightarrow> 0) else 0)"

definition CTransaction_default :: CMutableTransaction where
  "CTransaction_default =
     \<lparr>vin = [], vout = [], nExpiryHeight = 0, valueBalanceSapling = 0, vShieldedOutput = [],
      vJoinSplit = [], orchardBundle = None, bindingSig = 0\<rparr>"

text \<open>
  The state in which the \<open>while\<close> loop is entered: the dummy coinbase and its two \<open>-1\<close>
  entries, the counters, the comparator and the pool balances. The queue, the orphans and
  \<open>mapDependers\<close> are the result of the scan of the mempool, which is an input here.
\<close>

definition selection_start ::
  "CChainParams \<Rightarrow> 'v miner_env \<Rightarrow> CBlockIndex \<Rightarrow> 'v \<Rightarrow> TxPriority list \<Rightarrow> COrphan list
     \<Rightarrow> 'v selection" where
  "selection_start P E pindexPrev view0 vecPriority0 vOrphan0 =
     \<lparr>vecPriority = vecPriority0,
      vOrphan = vOrphan0,
      fSortedByFee = (nBlockPrioritySize E \<le> 0),
      view = view0,
      vtx = [CTransaction_default],
      vTxFees = [- 1],
      vTxSigOps = [- 1],
      nBlockSize = 1000,
      nBlockTx = 0,
      nBlockSigOps = 100,
      nFees = 0,
      sproutValue = initial_pool_value P (nChainSproutValue pindexPrev),
      saplingValue = initial_pool_value P (nChainSaplingValue pindexPrev),
      orchardValue = initial_pool_value P (nChainOrchardValue pindexPrev),
      selection_log = []\<rparr>"

subsection \<open>One iteration of the loop\<close>

text \<open>
  The turnstile check: the hypothetical balances after the transaction, and either the
  pool that would go negative or the state with the balances committed.
\<close>

definition turnstile ::
  "CChainParams \<Rightarrow> bool \<Rightarrow> CMutableTransaction \<Rightarrow> 'v selection \<Rightarrow> verdict + 'v selection" where
  "turnstile P monitoring tx s =
     (if ZIP209Enabled P \<and> monitoring then
        let saplingValueDummy = saplingValue s + - valueBalanceSapling tx;
            orchardValueDummy = orchardValue s + - GetValueBalance (orchardBundle tx);
            sproutValueDummy = fold (\<lambda>js v. v + vpub_old js - vpub_new js) (vJoinSplit tx)
                                 (sproutValue s)
        in if sproutValueDummy < 0 then Inl SkipSproutTurnstile
           else if saplingValueDummy < 0 then Inl SkipSaplingTurnstile
           else if orchardValueDummy < 0 then Inl SkipOrchardTurnstile
           else Inr (s\<lparr>sproutValue := sproutValueDummy, saplingValue := saplingValueDummy,
                       orchardValue := orchardValueDummy\<rparr>)
      else Inr s)"

text \<open>
  The body of \<open>while (!vecPriority.empty())\<close>, for a non-empty queue, in the order of the
  source: the front of the queue is copied and popped (\<open>select_step\<close>), the transaction
  goes through the checks (\<open>consider_tx\<close>), among them the change of comparator
  (\<open>switch_comparer\<close>), and a transaction that passes them all is added
  (\<open>add_to_block\<close>). \<open>height\<close> is the height of the new block, \<open>dependers\<close> is
  \<open>mapDependers\<close> and \<open>monitoring\<close> is \<open>monitoring_pool_balances\<close>.
\<close>

definition switch_comparer :: "'v miner_env \<Rightarrow> real \<Rightarrow> 32 word \<Rightarrow> 'v selection \<Rightarrow> 'v selection" where
  "switch_comparer E dPriority' nTxSize s =
     (if \<not> fSortedByFee s
         \<and> (nBlockSize s + ucast nTxSize \<ge> ucast (nBlockPrioritySize E) \<or> \<not> AllowFree E dPriority')
      then s\<lparr>fSortedByFee := True\<rparr> else s)"

definition add_to_block ::
  "'v miner_env \<Rightarrow> int \<Rightarrow> (uint256 \<Rightarrow> nat list option) \<Rightarrow> CMutableTransaction \<Rightarrow> uint256
     \<Rightarrow> 32 word \<Rightarrow> 32 word \<Rightarrow> CAmount \<Rightarrow> 'v selection \<Rightarrow> 'v selection" where
  "add_to_block E height dependers tx hash nTxSize nTxSigOps nTxFees s =
     (let s' = s\<lparr>view := UpdateCoins E tx (view s) height,
                 vtx := vtx s @ [tx],
                 vTxFees := vTxFees s @ [nTxFees],
                 vTxSigOps := vTxSigOps s @ [uint nTxSigOps],
                 nBlockSize := nBlockSize s + ucast nTxSize,
                 nBlockTx := nBlockTx s + 1,
                 nBlockSigOps := nBlockSigOps s + nTxSigOps,
                 nFees := nFees s + nTxFees,
                 selection_log := selection_log s @ [(hash, Added)]\<rparr>
      in case dependers hash of
           None \<Rightarrow> s'
         | Some ps \<Rightarrow>
             s'\<lparr>vOrphan := fst (promote hash ps (vOrphan s', vecPriority s')),
                vecPriority := snd (promote hash ps (vOrphan s', vecPriority s'))\<rparr>)"

definition consider_tx ::
  "CChainParams \<Rightarrow> 'v miner_env \<Rightarrow> int \<Rightarrow> (uint256 \<Rightarrow> nat list option) \<Rightarrow> bool
     \<Rightarrow> TxPriority \<Rightarrow> 'v selection \<Rightarrow> 'v selection" where
  "consider_tx P E height dependers monitoring front s =
     (let dPriority' = get0 front;
          feeRate' = get1 front;
          feePaid' = get2 front;
          tx = get3 front;
          hash = GetHash E tx;
          nTxSize = GetSerializeSize E tx
      in if nBlockSize s + ucast nTxSize \<ge> ucast (nBlockMaxSize E) then skip hash SkipMaxSize s
         else
         let nTxSigOps = GetLegacySigOpCount E tx
         in if nBlockSigOps s + nTxSigOps \<ge> MAX_BLOCK_SIGOPS E then skip hash SkipLegacySigOps s
         else
         let dPriorityDelta = fst (ApplyDeltas (mapDeltas E) hash (0, 0));
             nFeeDelta = snd (ApplyDeltas (mapDeltas E) hash (0, 0))
         in if fSortedByFee s \<and> dPriorityDelta \<le> 0 \<and> nFeeDelta \<le> 0
               \<and> feeRate' < minRelayTxFee E \<and> feePaid' < DEFAULT_FEE E
               \<and> nBlockSize s + ucast nTxSize \<ge> ucast (nBlockMinSize E)
            then skip hash SkipFree s
         else
         let s1 = switch_comparer E dPriority' nTxSize s
         in if \<not> HaveInputs E (view s1) tx then skip hash SkipMissingInputs s1
         else
         let nTxFees = GetValueIn E (view s1) tx - GetValueOut E tx;
             nTxSigOps' = nTxSigOps + GetP2SHSigOpCount E tx (view s1)
         in if nBlockSigOps s1 + nTxSigOps' \<ge> MAX_BLOCK_SIGOPS E then skip hash SkipP2SHSigOps s1
         else if \<not> ContextualCheckInputs E tx (view s1) (CurrentEpochBranchId P height)
         then skip hash SkipContextualCheck s1
         else
         (case turnstile P monitoring tx s1 of
            Inl v \<Rightarrow> skip hash v s1
          | Inr s2 \<Rightarrow> add_to_block E height dependers tx hash nTxSize nTxSigOps' nTxFees s2))"

definition select_step ::
  "CChainParams \<Rightarrow> 'v miner_env \<Rightarrow> int \<Rightarrow> (uint256 \<Rightarrow> nat list option) \<Rightarrow> bool
     \<Rightarrow> 'v selection \<Rightarrow> 'v selection" where
  "select_step P E height dependers monitoring s =
     (let comparer = TxPriorityCompare (fSortedByFee s);
          front = fst (pop_heap comparer (vecPriority s))
      in consider_tx P E height dependers monitoring front
           (s\<lparr>vecPriority := snd (pop_heap comparer (vecPriority s))\<rparr>))"

text \<open>The loop run for at most \<open>n\<close> iterations: the states that the loop passes through.\<close>

primrec select_iter ::
  "CChainParams \<Rightarrow> 'v miner_env \<Rightarrow> int \<Rightarrow> (uint256 \<Rightarrow> nat list option) \<Rightarrow> bool \<Rightarrow> nat
     \<Rightarrow> 'v selection \<Rightarrow> 'v selection" where
  "select_iter P E height dependers monitoring 0 s = s"
| "select_iter P E height dependers monitoring (Suc n) s =
     (if vecPriority s = [] then s
      else select_iter P E height dependers monitoring n (select_step P E height dependers monitoring s))"

text \<open>The number of entries that can still be popped: the queue and the waiting orphans.\<close>

definition pending :: "COrphan list \<Rightarrow> nat" where
  "pending orphans = sum_list (map (\<lambda>porphan. if setDependsOn porphan \<noteq> {} then 1 else 0) orphans)"

definition remaining :: "'v selection \<Rightarrow> nat" where
  "remaining s = length (vecPriority s) + pending (vOrphan s)"

subsection \<open>The loop and its termination\<close>

lemma heap_top_in: "heap_top lt m xs \<in> set (m # xs)"
  by (induction xs arbitrary: m) auto

lemma length_pop_heap:
  assumes "q \<noteq> []"
  shows "Suc (length (snd (pop_heap lt q))) = length q"
proof -
  from assms obtain x xs where q: "q = x # xs" by (cases q) auto
  have "heap_top lt (hd q) (tl q) \<in> set q" unfolding q using heap_top_in [of lt x xs] by simp
  then have "Suc (length (remove1 (heap_top lt (hd q) (tl q)) q)) = length q"
    using assms by (simp add: length_remove1 Suc_pred del: remove1.simps)
  then show ?thesis by (simp only: pop_heap_def Let_def snd_conv)
qed

lemma pending_update:
  assumes "p < length orphans"
  shows "pending (orphans[p := porphan]) + (if setDependsOn (orphans ! p) \<noteq> {} then 1 else 0)
           = pending orphans + (if setDependsOn porphan \<noteq> {} then 1 else 0)"
proof -
  let ?f = "\<lambda>porphan. if setDependsOn porphan \<noteq> {} then 1 else (0::nat)"
  let ?xs = "map ?f orphans"
  have p: "p < length ?xs" using assms by simp
  then have "?xs ! p \<in> set ?xs" by (rule nth_mem)
  then have le: "?xs ! p \<le> sum_list ?xs" by (simp add: member_le_sum_list)
  from p have "sum_list (?xs[p := ?f porphan]) = sum_list ?xs + ?f porphan - ?xs ! p"
    by (rule sum_list_update)
  with le have "sum_list (?xs[p := ?f porphan]) + ?xs ! p = sum_list ?xs + ?f porphan"
    by linarith
  moreover have "?xs ! p = ?f (orphans ! p)" using assms by simp
  moreover have "pending (orphans[p := porphan]) = sum_list (?xs[p := ?f porphan])"
    by (simp add: pending_def map_update)
  ultimately show ?thesis by (simp add: pending_def)
qed

lemma promote_remaining:
  "length (snd (promote hash ps (orphans, q))) + pending (fst (promote hash ps (orphans, q)))
     = length q + pending orphans"
proof (induction ps arbitrary: orphans q)
  case Nil
  show ?case by simp
next
  case (Cons p ps)
  show ?case
  proof (cases "p < length orphans \<and> setDependsOn (orphans ! p) \<noteq> {}")
    case False
    then show ?thesis using Cons.IH [of orphans q] by auto
  next
    case True
    let ?o = "(orphans ! p)\<lparr>setDependsOn := setDependsOn (orphans ! p) - {hash}\<rparr>"
    from True pending_update [of p orphans ?o]
    have upd: "pending (orphans[p := ?o]) + 1
                 = pending orphans + (if setDependsOn ?o \<noteq> {} then 1 else 0)"
      by simp
    show ?thesis
    proof (cases "setDependsOn ?o = {}")
      case e: True
      with True upd Cons.IH [of "orphans[p := ?o]" "q @ [(dPriority ?o, feeRate ?o, feePaid ?o, ptx ?o)]"]
      show ?thesis by (simp add: Let_def)
    next
      case ne: False
      with True upd Cons.IH [of "orphans[p := ?o]" q]
      show ?thesis by (simp add: Let_def)
    qed
  qed
qed


lemma turnstile_queue:
  "turnstile P monitoring tx s = Inr s' \<Longrightarrow>
     vecPriority s' = vecPriority s \<and> vOrphan s' = vOrphan s"
  by (auto simp: turnstile_def Let_def split: if_splits)

lemma switch_comparer_fields [simp]:
  "vecPriority (switch_comparer E p n s) = vecPriority s"
  "vOrphan (switch_comparer E p n s) = vOrphan s"
  "view (switch_comparer E p n s) = view s"
  "vtx (switch_comparer E p n s) = vtx s"
  "vTxFees (switch_comparer E p n s) = vTxFees s"
  "vTxSigOps (switch_comparer E p n s) = vTxSigOps s"
  "nBlockSize (switch_comparer E p n s) = nBlockSize s"
  "nBlockTx (switch_comparer E p n s) = nBlockTx s"
  "nBlockSigOps (switch_comparer E p n s) = nBlockSigOps s"
  "nFees (switch_comparer E p n s) = nFees s"
  "sproutValue (switch_comparer E p n s) = sproutValue s"
  "saplingValue (switch_comparer E p n s) = saplingValue s"
  "orchardValue (switch_comparer E p n s) = orchardValue s"
  "selection_log (switch_comparer E p n s) = selection_log s"
  by (simp_all add: switch_comparer_def)

lemma skip_fields [simp]:
  "vecPriority (skip hash v s) = vecPriority s"
  "vOrphan (skip hash v s) = vOrphan s"
  "fSortedByFee (skip hash v s) = fSortedByFee s"
  "view (skip hash v s) = view s"
  "vtx (skip hash v s) = vtx s"
  "vTxFees (skip hash v s) = vTxFees s"
  "vTxSigOps (skip hash v s) = vTxSigOps s"
  "nBlockSize (skip hash v s) = nBlockSize s"
  "nBlockTx (skip hash v s) = nBlockTx s"
  "nBlockSigOps (skip hash v s) = nBlockSigOps s"
  "nFees (skip hash v s) = nFees s"
  "sproutValue (skip hash v s) = sproutValue s"
  "saplingValue (skip hash v s) = saplingValue s"
  "orchardValue (skip hash v s) = orchardValue s"
  "selection_log (skip hash v s) = selection_log s @ [(hash, v)]"
  by (simp_all add: skip_def)

lemma add_to_block_remaining:
  "remaining (add_to_block E height dependers tx hash nTxSize nTxSigOps nTxFees s) = remaining s"
  using promote_remaining [of hash _ "vOrphan s" "vecPriority s"]
  by (simp add: add_to_block_def remaining_def Let_def split: option.split)

lemma consider_tx_remaining:
  "remaining (consider_tx P E height dependers monitoring front s) = remaining s"
proof -
  have sk: "remaining (skip hash v s') = remaining s'" for hash v and s' :: "'a selection"
    by (simp add: remaining_def)
  have sw: "remaining (switch_comparer E p n s') = remaining s'" for p n and s' :: "'a selection"
    by (simp add: remaining_def)
  have ts: "turnstile P monitoring tx s' = Inr s2 \<Longrightarrow> remaining s2 = remaining s'"
    for tx s2 and s' :: "'a selection"
    by (auto simp: remaining_def dest: turnstile_queue)
  show ?thesis
    unfolding consider_tx_def Let_def
    by (simp add: sk sw add_to_block_remaining ts split: sum.split)
qed

lemma select_step_remaining:
  assumes "vecPriority s \<noteq> []"
  shows "Suc (remaining (select_step P E height dependers monitoring s)) = remaining s"
proof -
  from assms have "Suc (length (snd (pop_heap (TxPriorityCompare (fSortedByFee s)) (vecPriority s))))
                     = length (vecPriority s)"
    by (rule length_pop_heap)
  then show ?thesis
    by (simp add: select_step_def Let_def consider_tx_remaining) (simp add: remaining_def)
qed

text \<open>The loop itself. It ends because every iteration pops one of the remaining entries.\<close>

function select_loop ::
  "CChainParams \<Rightarrow> 'v miner_env \<Rightarrow> int \<Rightarrow> (uint256 \<Rightarrow> nat list option) \<Rightarrow> bool
     \<Rightarrow> 'v selection \<Rightarrow> 'v selection" where
  "select_loop P E height dependers monitoring s =
     (if vecPriority s = [] then s
      else select_loop P E height dependers monitoring (select_step P E height dependers monitoring s))"
  by pat_completeness auto

termination
proof (relation "measure (\<lambda>(P, E, height, dependers, monitoring, s). remaining s)")
  show "wf (measure (\<lambda>(P, E, height, dependers, monitoring, s). remaining s))"
    by simp
next
  fix P :: CChainParams and E :: "'v miner_env" and height dependers monitoring
    and s :: "'v selection"
  assume "vecPriority s \<noteq> []"
  from select_step_remaining [OF this, of P E height dependers monitoring]
  show "((P, E, height, dependers, monitoring, select_step P E height dependers monitoring s),
         (P, E, height, dependers, monitoring, s))
        \<in> measure (\<lambda>(P, E, height, dependers, monitoring, s). remaining s)"
    by simp
qed

declare select_loop.simps [simp del]

section \<open>The block template\<close>

text \<open>
  The hashes of the header are external: the Sapling note commitment of an output
  description, the root of the Sapling commitment tree (the tree is kept as the list of the
  commitments appended to it), the two Merkle roots over the transactions and
  \<open>DeriveBlockCommitmentsHash\<close>.
\<close>

record hashing =
  cmu :: "OutputDescription \<Rightarrow> uint256"
  sapling_root :: "uint256 list \<Rightarrow> uint256"
  BuildMerkleTree :: "CMutableTransaction list \<Rightarrow> uint256"
  BuildAuthDataMerkleTree :: "CMutableTransaction list \<Rightarrow> uint256"
  DeriveBlockCommitmentsHash :: "uint256 \<Rightarrow> uint256 \<Rightarrow> uint256"

text \<open>
  \<open>CBlockTemplate\<close> and the \<open>CBlock\<close> inside it, flattened into one record. The time and
  the difficulty bits of the header (\<open>UpdateTime\<close>, \<open>GetNextWorkRequired\<close>) are left out.
\<close>

record CBlockTemplate =
  hashPrevBlock :: uint256
  hashMerkleRoot :: uint256
  hashBlockCommitments :: uint256
  nNonce :: "256 word"
  block_vtx :: "CMutableTransaction list"
  template_vTxFees :: "CAmount list"
  template_vTxSigOps :: "int list"
  hashChainHistoryRoot :: uint256
  hashAuthDataRoot :: uint256

text \<open>The result of the scan of the mempool that precedes the selection.\<close>

record mempool_scan =
  scan_vecPriority :: "TxPriority list"
  scan_vOrphan :: "COrphan list"
  scan_mapDependers :: "uint256 \<Rightarrow> nat list option"

text \<open>The loop \<open>for tx in pblock->vtx: for odesc in tx.vShieldedOutput: sapling_tree.append\<close>.\<close>

definition update_sapling_tree ::
  "hashing \<Rightarrow> CMutableTransaction list \<Rightarrow> uint256 list \<Rightarrow> uint256 list" where
  "update_sapling_tree H txs sapling_tree =
     fold (\<lambda>tx t. fold (\<lambda>odesc t'. t' @ [cmu H odesc]) (vShieldedOutput tx) t) txs sapling_tree"

text \<open>
  The selection as \<open>CreateNewBlock\<close> runs it: from the state \<open>selection_start\<close>, on what
  the scan of the mempool produced, or on nothing at all when a coinbase is supplied (the
  scan is then not done).
\<close>

definition run_selection ::
  "CChainParams \<Rightarrow> 'v miner_env \<Rightarrow> CBlockIndex \<Rightarrow> 'v \<Rightarrow> mempool_scan
     \<Rightarrow> CMutableTransaction option \<Rightarrow> 'v selection" where
  "run_selection P E pindexPrev view0 scan next_cb_mtx =
     (let height = nHeight pindexPrev + 1;
          vecPriority0 = (if next_cb_mtx = None then scan_vecPriority scan else []);
          vOrphan0 = (if next_cb_mtx = None then scan_vOrphan scan else []);
          dependers = (if next_cb_mtx = None then scan_mapDependers scan else (\<lambda>hash. None))
      in select_loop P E height dependers (monitoring_pool_balances P pindexPrev)
           (selection_start P E pindexPrev view0 vecPriority0 vOrphan0))"

text \<open>
  \<open>CreateNewBlock\<close>. \<open>view0\<close> is the coin view at the tip and \<open>sapling_tree0\<close> the Sapling
  tree at its best anchor; \<open>scan\<close> is what the scan of the mempool produced; \<open>rand\<close> is
  the value of \<open>GetRandHash\<close>; \<open>TestBlockValidity\<close> is the external validity check.
\<close>

definition CreateNewBlock ::
  "CChainParams \<Rightarrow> crypto \<Rightarrow> hashing \<Rightarrow> 'v miner_env \<Rightarrow> bool \<Rightarrow> CBlockIndex \<Rightarrow> 'v
     \<Rightarrow> uint256 list \<Rightarrow> mempool_scan \<Rightarrow> 256 word \<Rightarrow> (CBlockTemplate \<Rightarrow> bool)
     \<Rightarrow> MinerAddress \<Rightarrow> CMutableTransaction option \<Rightarrow> exn + CBlockTemplate" where
  "CreateNewBlock P C H E preferV4 pindexPrev view0 sapling_tree0 scan rand TestBlockValidity
       minerAddress next_cb_mtx =
     (let height = nHeight pindexPrev + 1;
          s = run_selection P E pindexPrev view0 scan next_cb_mtx
      in case (case next_cb_mtx of
                 Some cb \<Rightarrow> Inr cb
               | None \<Rightarrow> fst (CreateCoinbaseTransaction P C preferV4 (nFees s) minerAddress height)) of
           Inl e \<Rightarrow> Inl e
         | Inr coinbase \<Rightarrow>
             (let vtx' = (vtx s)[0 := coinbase];
                  vTxFees' = (vTxFees s)[0 := - nFees s];
                  sapling_tree = update_sapling_tree H vtx' sapling_tree0;
                  nonce = drop_bit 16 (push_bit 32 rand);
                  prevConsensusBranchId = CurrentEpochBranchId P (nHeight pindexPrev);
                  t0 = \<lparr>hashPrevBlock = GetBlockHash pindexPrev,
                        hashMerkleRoot = 0,
                        hashBlockCommitments = 0,
                        nNonce = nonce,
                        block_vtx = vtx',
                        template_vTxFees = vTxFees',
                        template_vTxSigOps = vTxSigOps s,
                        hashChainHistoryRoot = 0,
                        hashAuthDataRoot = 0\<rparr>;
                  t1 = (if NetworkUpgradeActive P height UPGRADE_NU5 then
                          t0\<lparr>hashChainHistoryRoot := GetHistoryRoot E (view s) prevConsensusBranchId,
                             hashAuthDataRoot := BuildAuthDataMerkleTree H vtx',
                             hashBlockCommitments :=
                               DeriveBlockCommitmentsHash H
                                 (GetHistoryRoot E (view s) prevConsensusBranchId)
                                 (BuildAuthDataMerkleTree H vtx')\<rparr>
                        else if IsActivationHeight P height UPGRADE_HEARTWOOD then
                          t0\<lparr>hashChainHistoryRoot := 0, hashAuthDataRoot := 0,
                             hashBlockCommitments := 0\<rparr>
                        else if NetworkUpgradeActive P height UPGRADE_HEARTWOOD then
                          t0\<lparr>hashChainHistoryRoot := GetHistoryRoot E (view s) prevConsensusBranchId,
                             hashAuthDataRoot := 0,
                             hashBlockCommitments := GetHistoryRoot E (view s) prevConsensusBranchId\<rparr>
                        else
                          t0\<lparr>hashChainHistoryRoot := 0, hashAuthDataRoot := 0,
                             hashBlockCommitments := sapling_root H sapling_tree\<rparr>);
                  t2 = t1\<lparr>template_vTxSigOps :=
                            (template_vTxSigOps t1)[0 := uint (GetLegacySigOpCount E (block_vtx t1 ! 0))]\<rparr>
              in if \<not> TestBlockValidity t2
                 then Inl (runtime_error ''CreateNewBlock(): TestBlockValidity failed'')
                 else Inr t2))"

section \<open>The extra nonce\<close>



section \<open>Quantities named by the specification\<close>

definition transparent_value_out :: "CMutableTransaction \<Rightarrow> CAmount" where
  "transparent_value_out tx = sum_list (map nValue (vout tx))"

definition coinbase_net_value :: "CMutableTransaction \<Rightarrow> CAmount" where
  "coinbase_net_value tx =
     transparent_value_out tx - valueBalanceSapling tx - GetValueBalance (orchardBundle tx)"

definition deductions :: "CChainParams \<Rightarrow> int \<Rightarrow> CAmount" where
  "deductions P h =
     (if h > 0 \<and> NetworkUpgradeActive P h UPGRADE_CANOPY
      then sum_list (map snd (GetActiveFundingStreamElements P h (GetBlockSubsidy P h)))
      else if h > 0 \<and> h \<le> GetLastFoundersRewardBlockHeight P h
      then GetBlockSubsidy P h sdiv 5
      else 0)"

fun miner_output_value :: "MinerAddress \<Rightarrow> CMutableTransaction \<Rightarrow> CAmount option" where
  "miner_output_value (ReserveScript sc) tx =
     (case vout tx of [] \<Rightarrow> None
      | out # _ \<Rightarrow> if scriptPubKey out = sc then Some (nValue out) else None)"
| "miner_output_value (SaplingMiner pa) tx =
     (if vShieldedOutput tx = [] then None
      else let note = od_note (last (vShieldedOutput tx))
           in if note_address note = pa then Some (note_value note) else None)"
| "miner_output_value (OrchardMiner to) tx =
     (case orchardBundle tx of
        None \<Rightarrow> None
      | Some bundle \<Rightarrow>
          (case orchard_outputs bundle of
             (ovk, a, v) # _ \<Rightarrow> if a = to then Some v else None
           | [] \<Rightarrow> None))"


text \<open>
  The external calls of the coinbase builder all succeed: every Sapling output and every
  Orchard bundle can be built and proved, the signature hashes return, and the binding
  signature is accepted.
\<close>

definition proving_library_succeeds :: "crypto \<Rightarrow> bool" where
  "proving_library_succeeds C \<longleftrightarrow>
     (\<forall>m ovk note. output_Build C m ovk note)
     \<and> (\<forall>outs. builder_Build C outs)
     \<and> (\<forall>m outs. \<exists>h. ProduceZip244SignatureHash C m outs = Inr h)
     \<and> (\<forall>m branch. \<exists>h. SignatureHash C m branch = Inr h)
     \<and> (\<forall>outs h. ProveAndSign C outs h)
     \<and> (\<forall>v h. \<exists>sig. sapling_binding_sig C v h = Some sig)"

text \<open>
  The exits that \<open>ComputeBindingSig\<close> anticipates: a signature hash that throws, throws
  \<open>std::logic_error\<close>.
\<close>

definition hashes_throw_logic_error_only :: "crypto \<Rightarrow> bool" where
  "hashes_throw_logic_error_only C \<longleftrightarrow>
     (\<forall>m outs ex. ProduceZip244SignatureHash C m outs = Inl ex \<longrightarrow> ex = logic_error)
     \<and> (\<forall>m branch ex. SignatureHash C m branch = Inl ex \<longrightarrow> ex = logic_error)"


section \<open>Example parameters\<close>

definition example_preferred :: "UnifiedAddress \<Rightarrow> RecipientAddress option" where
  "example_preferred u =
     (if u = 0 then Some (RecipientOrchard 7)
      else if u = 1 then Some (RecipientSapling 8)
      else if u = 2 then Some (RecipientKeyID [1, 2, 3])
      else if u = 3 then Some (RecipientScriptID [4, 5])
      else None)"

definition example_params :: CChainParams where
  "example_params =
     \<lparr>GetBlockSubsidy = (\<lambda>h. 1000),
      NetworkUpgradeActive =
        (\<lambda>h u. case u of UPGRADE_HEARTWOOD \<Rightarrow> 10 \<le> h | UPGRADE_CANOPY \<Rightarrow> 20 \<le> h
                 | UPGRADE_NU5 \<Rightarrow> 30 \<le> h),
      IsActivationHeight =
        (\<lambda>h u. case u of UPGRADE_HEARTWOOD \<Rightarrow> h = 10 | UPGRADE_CANOPY \<Rightarrow> h = 20
                 | UPGRADE_NU5 \<Rightarrow> h = 30),
      GetActiveFundingStreamElements =
        (\<lambda>h subsidy. [(FundingScript [0x51], 70), (FundingSapling 5, 80)]),
      GetLastFoundersRewardBlockHeight = (\<lambda>h. 19),
      GetFoundersRewardScriptAtHeight = (\<lambda>h. [0x52]),
      CurrentEpochBranchId = (\<lambda>h. if 30 \<le> h then 3 else if 20 \<le> h then 2 else 1),
      ZIP209Enabled = True,
      ContextualExpiryHeight = (\<lambda>h. word_of_int h + 40)\<rparr>"

definition example_crypto :: crypto where
  "example_crypto =
     \<lparr>output_Build = (\<lambda>m ovk note. True),
      builder_Build = (\<lambda>outs. True),
      ProduceZip244SignatureHash = (\<lambda>m b. Inr 11),
      SignatureHash = (\<lambda>m branch. Inr 12),
      ProveAndSign = (\<lambda>b h. True),
      sapling_binding_sig = (\<lambda>v h. Some 13),
      dummy_address = 99\<rparr>"

text \<open>A proving library whose binding signature fails.\<close>

definition failing_crypto :: crypto where
  "failing_crypto = example_crypto\<lparr>sapling_binding_sig := (\<lambda>v h. None)\<rparr>"

text \<open>
  A library in which the signature hashes run out of memory, and one in which they report
  a logic error.
\<close>

definition leaking_crypto :: crypto where
  "leaking_crypto =
     example_crypto\<lparr>ProduceZip244SignatureHash := (\<lambda>m b. Inl (other_exception ''std::bad_alloc'')),
                    SignatureHash := (\<lambda>m branch. Inl (other_exception ''std::bad_alloc''))\<rparr>"

definition logic_error_crypto :: crypto where
  "logic_error_crypto =
     example_crypto\<lparr>ProduceZip244SignatureHash := (\<lambda>m b. Inl logic_error),
                    SignatureHash := (\<lambda>m branch. Inl logic_error)\<rparr>"

text \<open>A coin view that only counts the transactions applied to it, and a small mempool.\<close>

definition example_tx :: "32 word \<Rightarrow> CAmount \<Rightarrow> CMutableTransaction" where
  "example_tx ident vb = CTransaction_default\<lparr>nExpiryHeight := ident, valueBalanceSapling := vb\<rparr>"

definition example_env :: "nat miner_env" where
  "example_env =
     \<lparr>GetSerializeSize = (\<lambda>tx. if nExpiryHeight tx = 2 then 5000 else 250),
      GetHash = (\<lambda>tx. unat (nExpiryHeight tx)),
      GetLegacySigOpCount = (\<lambda>tx. 1),
      GetP2SHSigOpCount = (\<lambda>tx v. 2),
      HaveInputs = (\<lambda>v tx. True),
      GetValueIn = (\<lambda>v tx. 10),
      GetValueOut = (\<lambda>tx. 4),
      ContextualCheckInputs = (\<lambda>tx v branch. True),
      UpdateCoins = (\<lambda>tx v h. Suc v),
      GetHistoryRoot = (\<lambda>v branch. 77),
      mapDeltas = (\<lambda>hash. if hash = 3 then Some (0, - 1) else None),
      AllowFree = (\<lambda>p. 100 < p),
      minRelayTxFee = 100,
      DEFAULT_FEE = 1000,
      MAX_BLOCK_SIGOPS = 20000,
      MAX_BLOCK_SIZE = 2000000,
      blockmaxsize = 5000,
      blockprioritysize = 0,
      blockminsize = 0\<rparr>"

definition example_tip :: CBlockIndex where
  "example_tip =
     \<lparr>nHeight = 24, GetBlockHash = 500, nChainSproutValue = Some 0,
      nChainSaplingValue = Some 3, nChainOrchardValue = Some 0\<rparr>"

definition example_queue :: "TxPriority list" where
  "example_queue =
     [(0, 0, 0, example_tx 3 0), (0, 1500, 1500, example_tx 2 0),
      (0, 2000, 2000, example_tx 1 (- 2)), (0, 1200, 1200, example_tx 4 9)]"

definition example_start :: "nat selection" where
  "example_start = selection_start example_params example_env example_tip 0 example_queue []"

definition example_state1 :: "nat selection" where
  "example_state1 =
     \<lparr>vecPriority = [(0, 0, 0, example_tx 3 0), (0, 1500, 1500, example_tx 2 0),
                     (0, 1200, 1200, example_tx 4 9)],
      vOrphan = [], fSortedByFee = True, view = 1,
      vtx = [CTransaction_default, example_tx 1 (- 2)], vTxFees = [- 1, 6], vTxSigOps = [- 1, 3],
      nBlockSize = 1250, nBlockTx = 1, nBlockSigOps = 103, nFees = 6,
      sproutValue = 0, saplingValue = 5, orchardValue = 0, selection_log = [(1, Added)]\<rparr>"

definition example_state2 :: "nat selection" where
  "example_state2 =
     example_state1\<lparr>vecPriority := [(0, 0, 0, example_tx 3 0), (0, 1200, 1200, example_tx 4 9)],
                    selection_log := [(1, Added), (2, SkipMaxSize)]\<rparr>"


definition example_hashing :: hashing where
  "example_hashing =
     \<lparr>cmu = (\<lambda>od. nat (note_value (od_note od))),
      sapling_root = (\<lambda>commitments. sum_list commitments),
      BuildMerkleTree = (\<lambda>txs. 2000 + length txs),
      BuildAuthDataMerkleTree = (\<lambda>txs. 1000 + length txs),
      DeriveBlockCommitmentsHash = (\<lambda>history auth. history * 10000 + auth)\<rparr>"

definition example_scan :: mempool_scan where
  "example_scan = \<lparr>scan_vecPriority = [], scan_vOrphan = [], scan_mapDependers = (\<lambda>hash. None)\<rparr>"


definition example_tip_at :: "int \<Rightarrow> CBlockIndex" where
  "example_tip_at h = example_tip\<lparr>nHeight := h\<rparr>"

section \<open>Properties of the coinbase builder\<close>

lemma AddFundingStreamValueToTx_value:
  "AddFundingStreamValueToTx C v z a m = (True, m') \<Longrightarrow>
     sum_list (map nValue (vout m')) - valueBalanceSapling m'
       = sum_list (map nValue (vout m)) - valueBalanceSapling m + v
     \<and> orchardBundle m' = orchardBundle m \<and> vin m' = vin m
     \<and> nExpiryHeight m' = nExpiryHeight m"
  by (cases a) (auto simp: Let_def split: if_splits)

lemma funding_loop_ctx:
  "funding_loop C z fs mr s = (r, s') \<Longrightarrow>
     ctx_inits s' = ctx_inits s
     \<and> ctx_frees s' = (case r of Inl _ \<Rightarrow> Suc (ctx_frees s) | Inr _ \<Rightarrow> ctx_frees s)"
proof (induction fs arbitrary: mr s)
  case Nil
  then show ?case by auto
next
  case (Cons fselem rest)
  obtain added m where am: "AddFundingStreamValueToTx C (snd fselem) z (fst fselem) (mtx s) = (added, m)"
    by (cases "AddFundingStreamValueToTx C (snd fselem) z (fst fselem) (mtx s)")
  show ?case
  proof (cases added)
    case False
    with Cons.prems am show ?thesis by (auto simp: ctx_free_def)
  next
    case True
    with Cons.prems am have "funding_loop C z rest (mr - snd fselem) (s\<lparr>mtx := m\<rparr>) = (r, s')"
      by simp
    from Cons.IH [OF this] show ?thesis by (cases r) simp_all
  qed
qed

lemma funding_loop_value:
  "funding_loop C z fs mr s = (Inr v, s') \<Longrightarrow>
     sum_list (map nValue (vout (mtx s'))) - valueBalanceSapling (mtx s') + v
       = sum_list (map nValue (vout (mtx s))) - valueBalanceSapling (mtx s) + mr
     \<and> v = mr - sum_list (map snd fs)
     \<and> orchardBundle (mtx s') = orchardBundle (mtx s) \<and> vin (mtx s') = vin (mtx s)
     \<and> nExpiryHeight (mtx s') = nExpiryHeight (mtx s)"
proof (induction fs arbitrary: mr s)
  case Nil
  then show ?case by auto
next
  case (Cons fselem rest)
  obtain added m where am: "AddFundingStreamValueToTx C (snd fselem) z (fst fselem) (mtx s) = (added, m)"
    by (cases "AddFundingStreamValueToTx C (snd fselem) z (fst fselem) (mtx s)")
  show ?case
  proof (cases added)
    case False
    with Cons.prems am show ?thesis by auto
  next
    case True
    with Cons.prems am have run: "funding_loop C z rest (mr - snd fselem) (s\<lparr>mtx := m\<rparr>) = (Inr v, s')"
      by simp
    from am True have "AddFundingStreamValueToTx C (snd fselem) z (fst fselem) (mtx s) = (True, m)"
      by simp
    from AddFundingStreamValueToTx_value [OF this] Cons.IH [OF run] show ?thesis by simp
  qed
qed

lemma SetFounders_ctx:
  "SetFoundersRewardAndGetMinerValue P C h f s = (r, s') \<Longrightarrow>
     ctx_inits s' = ctx_inits s
     \<and> ctx_frees s' = (case r of Inl _ \<Rightarrow> Suc (ctx_frees s) | Inr _ \<Rightarrow> ctx_frees s)"
  unfolding SetFoundersRewardAndGetMinerValue_def Let_def
  by (auto split: if_splits prod.splits sum.splits dest!: funding_loop_ctx)

lemma ComputeBindingSig_ctx:
  assumes "hashes_throw_logic_error_only C"
    and "ComputeBindingSig P C h ob s = (r, s')"
  shows "ctx_inits s' = ctx_inits s
     \<and> ctx_frees s' = (case r of Inl _ \<Rightarrow> Suc (ctx_frees s) | Inr _ \<Rightarrow> ctx_frees s)"
proof -
  from assms(1) have h: "ProduceZip244SignatureHash C m outs = Inl ex \<Longrightarrow> ex = logic_error"
    "SignatureHash C m branch = Inl ex \<Longrightarrow> ex = logic_error" for m outs branch ex
    by (simp_all add: hashes_throw_logic_error_only_def)
  from assms(2) show ?thesis
    unfolding ComputeBindingSig_def
    by (auto simp: ctx_free_def split: option.splits sum.splits if_splits dest: h)
qed

lemma AddOutputs_ctx:
  assumes ok: "hashes_throw_logic_error_only C"
    and run: "AddOutputsToCoinbaseTxAndSign P C height fees minerAddress s0 = (r, s)"
  shows "ctx_inits s = Suc (ctx_inits s0) \<and> ctx_frees s = Suc (ctx_frees s0)"
proof (cases minerAddress)
  case (ReserveScript sc)
  show ?thesis using run unfolding ReserveScript
    by (auto simp: Let_def ctx_init_def ctx_free_def split: prod.splits sum.splits if_splits
          dest!: SetFounders_ctx ComputeBindingSig_ctx [OF ok])
next
  case (SaplingMiner pa)
  show ?thesis using run unfolding SaplingMiner
    by (auto simp: Let_def ctx_init_def ctx_free_def split: prod.splits sum.splits if_splits
          dest!: SetFounders_ctx ComputeBindingSig_ctx [OF ok])
next
  case (OrchardMiner to)
  show ?thesis using run unfolding OrchardMiner
    by (auto simp: Let_def ctx_init_def ctx_free_def split: prod.splits sum.splits if_splits
          dest!: SetFounders_ctx ComputeBindingSig_ctx [OF ok])
qed

text \<open>When the external calls succeed, so does every step of the builder.\<close>

lemma funding_loop_succeeds:
  assumes "\<And>m ovk note. output_Build C m ovk note"
  shows "\<exists>v s'. funding_loop C z fs mr s = (Inr v, s')"
proof (induction fs arbitrary: mr s)
  case Nil
  show ?case by simp
next
  case (Cons fselem rest)
  obtain a v where f: "fselem = (a, v)" by (cases fselem)
  show ?case
  proof (cases a)
    case (FundingSapling pa)
    with f assms Cons.IH show ?thesis by (simp add: Let_def)
  next
    case (FundingScript spk)
    with f Cons.IH show ?thesis by simp
  qed
qed

lemma SetFounders_succeeds:
  assumes "proving_library_succeeds C"
  shows "\<exists>v s'. SetFoundersRewardAndGetMinerValue P C h f s = (Inr v, s')"
proof -
  from assms have ob: "\<And>m ovk note. output_Build C m ovk note"
    by (simp add: proving_library_succeeds_def)
  from funding_loop_succeeds [of C, OF ob] obtain v s' where
    "funding_loop C (GetZip212Flag P h) (GetActiveFundingStreamElements P h (GetBlockSubsidy P h))
       (GetBlockSubsidy P h) s = (Inr v, s')"
    by blast
  then show ?thesis
    by (simp add: SetFoundersRewardAndGetMinerValue_def Let_def)
qed

lemma ComputeBindingSig_succeeds:
  assumes "proving_library_succeeds C"
  shows "\<exists>s'. ComputeBindingSig P C h ob s = (Inr (), s')"
proof -
  from assms obtain dataToBeSigned where d:
    "(case ob of Some b \<Rightarrow> ProduceZip244SignatureHash C (mtx s) b
      | None \<Rightarrow> SignatureHash C (mtx s) (CurrentEpochBranchId P h)) = Inr dataToBeSigned"
    unfolding proving_library_succeeds_def by (cases ob) (simp_all, metis+)
  from assms have ps: "\<And>b hh. ProveAndSign C b hh"
    and bs: "\<And>v hh. \<exists>sig. sapling_binding_sig C v hh = Some sig"
    by (simp_all add: proving_library_succeeds_def)
  show ?thesis
  proof (cases ob)
    case None
    from bs [of "valueBalanceSapling (mtx s)" dataToBeSigned] obtain sig where
      "sapling_binding_sig C (valueBalanceSapling (mtx s)) dataToBeSigned = Some sig" ..
    with d None show ?thesis by (simp add: ComputeBindingSig_def)
  next
    case (Some b)
    from bs [of "valueBalanceSapling (mtx s)" dataToBeSigned] obtain sig where
      "sapling_binding_sig C (valueBalanceSapling (mtx s)) dataToBeSigned = Some sig" ..
    with d Some ps show ?thesis by (simp add: ComputeBindingSig_def)
  qed
qed

lemma AddOutputs_succeeds:
  assumes ok: "proving_library_succeeds C"
  shows "\<exists>s. AddOutputsToCoinbaseTxAndSign P C h f a s0 = (Inr (), s)"
proof -
  from ok have ob: "\<And>m ovk note. output_Build C m ovk note" and bb: "\<And>outs. builder_Build C outs"
    by (simp_all add: proving_library_succeeds_def)
  show ?thesis
  proof (cases a)
    case (ReserveScript sc)
    let ?s' = "(ctx_init s0)\<lparr>mtx := (mtx (ctx_init s0))\<lparr>vout := resize 1 CTxOut_default (vout (mtx (ctx_init s0)))\<rparr>\<rparr>"
    from SetFounders_succeeds [OF ok, of P h f ?s'] obtain v s1 where
      sf: "SetFoundersRewardAndGetMinerValue P C h f ?s' = (Inr v, s1)" by blast
    let ?s2 = "s1\<lparr>mtx := (mtx s1)\<lparr>vout := (vout (mtx s1))[0 := \<lparr>nValue = v, scriptPubKey = sc\<rparr>]\<rparr>\<rparr>"
    from ComputeBindingSig_succeeds [OF ok, of P h None ?s2] obtain s3 where
      "ComputeBindingSig P C h None ?s2 = (Inr (), s3)" ..
    with sf show ?thesis unfolding ReserveScript by (simp add: Let_def)
  next
    case (SaplingMiner pa)
    from SetFounders_succeeds [OF ok, of P h f "ctx_init s0"] obtain v s1 where
      sf: "SetFoundersRewardAndGetMinerValue P C h f (ctx_init s0) = (Inr v, s1)" by blast
    let ?s3 = "s1\<lparr>mtx := (mtx s1)\<lparr>valueBalanceSapling := valueBalanceSapling (mtx s1) - v,
             vShieldedOutput := vShieldedOutput (mtx s1) @
               [\<lparr>od_ovk = 0, od_note = \<lparr>note_address = pa, note_value = v,
                    note_zip212 = GetZip212Flag P h\<rparr>\<rparr>]\<rparr>\<rparr>"
    from ComputeBindingSig_succeeds [OF ok, of P h None ?s3] obtain s4 where
      "ComputeBindingSig P C h None ?s3 = (Inr (), s4)" ..
    with sf ob show ?thesis unfolding SaplingMiner by (simp add: Let_def)
  next
    case (OrchardMiner to)
    from SetFounders_succeeds [OF ok, of P h f "ctx_init s0"] obtain v s1 where
      sf: "SetFoundersRewardAndGetMinerValue P C h f (ctx_init s0) = (Inr v, s1)" by blast
    from ComputeBindingSig_succeeds [OF ok, of P h "Some [(0, to, v), (0, dummy_address C, 0)]" s1]
    obtain s2 where
      "ComputeBindingSig P C h (Some [(0, to, v), (0, dummy_address C, 0)]) s1 = (Inr (), s2)" ..
    with sf bb show ?thesis unfolding OrchardMiner by (simp add: Let_def)
  qed
qed


lemma SetFounders_value:
  assumes "SetFoundersRewardAndGetMinerValue P C h f s = (Inr v, s')"
  shows "sum_list (map nValue (vout (mtx s'))) - valueBalanceSapling (mtx s') + v
           = sum_list (map nValue (vout (mtx s))) - valueBalanceSapling (mtx s)
             + GetBlockSubsidy P h + f"
    and "v = GetBlockSubsidy P h - deductions P h + f"
    and "orchardBundle (mtx s') = orchardBundle (mtx s)"
  using assms unfolding SetFoundersRewardAndGetMinerValue_def Let_def deductions_def
  by (auto split: if_splits prod.splits sum.splits dest!: funding_loop_value)


lemma AddFundingStreamValueToTx_vout:
  "AddFundingStreamValueToTx C v z a m = (b, m') \<Longrightarrow> \<exists>xs. vout m' = vout m @ xs"
  by (cases a) (auto simp: Let_def split: if_splits)

lemma funding_loop_vout:
  "funding_loop C z fs mr s = (r, s') \<Longrightarrow> \<exists>xs. vout (mtx s') = vout (mtx s) @ xs"
proof (induction fs arbitrary: mr s)
  case Nil
  then show ?case by auto
next
  case (Cons fselem rest)
  obtain added m where am: "AddFundingStreamValueToTx C (snd fselem) z (fst fselem) (mtx s) = (added, m)"
    by (cases "AddFundingStreamValueToTx C (snd fselem) z (fst fselem) (mtx s)")
  from AddFundingStreamValueToTx_vout [OF am] obtain xs where xs: "vout m = vout (mtx s) @ xs" ..
  show ?case
  proof (cases added)
    case False
    with Cons.prems am xs show ?thesis by (auto simp: ctx_free_def)
  next
    case True
    with Cons.prems am have "funding_loop C z rest (mr - snd fselem) (s\<lparr>mtx := m\<rparr>) = (r, s')"
      by simp
    from Cons.IH [OF this] xs show ?thesis by auto
  qed
qed

lemma SetFounders_vout:
  "SetFoundersRewardAndGetMinerValue P C h f s = (r, s') \<Longrightarrow>
     \<exists>xs. vout (mtx s') = vout (mtx s) @ xs"
  unfolding SetFoundersRewardAndGetMinerValue_def Let_def
  by (auto split: if_splits prod.splits sum.splits dest!: funding_loop_vout)

lemma ComputeBindingSig_frame:
  "ComputeBindingSig P C h ob s = (Inr u, s') \<Longrightarrow>
     vout (mtx s') = vout (mtx s) \<and> vin (mtx s') = vin (mtx s)
     \<and> valueBalanceSapling (mtx s') = valueBalanceSapling (mtx s)
     \<and> nExpiryHeight (mtx s') = nExpiryHeight (mtx s)
     \<and> vShieldedOutput (mtx s') = vShieldedOutput (mtx s)
     \<and> orchardBundle (mtx s') = (case ob of Some b \<Rightarrow> Some (authorized_bundle b) | None \<Rightarrow> orchardBundle (mtx s))"
  unfolding ComputeBindingSig_def
  by (auto simp: ctx_free_def split: option.splits sum.splits if_splits)

lemma SetFounders_frame:
  "SetFoundersRewardAndGetMinerValue P C h f s = (Inr v, s') \<Longrightarrow>
     vin (mtx s') = vin (mtx s) \<and> nExpiryHeight (mtx s') = nExpiryHeight (mtx s)"
  unfolding SetFoundersRewardAndGetMinerValue_def Let_def
  by (auto split: if_splits prod.splits sum.splits dest!: funding_loop_value)

text \<open>What a successful run of each builder variant consists of.\<close>

lemma AddOutputs_ReserveScript_Inr:
  assumes "AddOutputsToCoinbaseTxAndSign P C h f (ReserveScript sc) s0 = (Inr u, s)"
  obtains v s1 s3 where
    "SetFoundersRewardAndGetMinerValue P C h f
       ((ctx_init s0)\<lparr>mtx := (mtx (ctx_init s0))\<lparr>vout := resize 1 CTxOut_default (vout (mtx (ctx_init s0)))\<rparr>\<rparr>)
       = (Inr v, s1)"
    "s = ctx_free s3"
    "s3 = s1\<lparr>mtx := (mtx s1)\<lparr>vout := (vout (mtx s1))[0 := \<lparr>nValue = v, scriptPubKey = sc\<rparr>]\<rparr>\<rparr>
     \<or> ComputeBindingSig P C h None
          (s1\<lparr>mtx := (mtx s1)\<lparr>vout := (vout (mtx s1))[0 := \<lparr>nValue = v, scriptPubKey = sc\<rparr>]\<rparr>\<rparr>)
          = (Inr (), s3)"
  using assms
  by (simp add: Let_def split: prod.splits sum.splits if_splits) blast+

lemma AddOutputs_SaplingMiner_Inr:
  assumes "AddOutputsToCoinbaseTxAndSign P C h f (SaplingMiner pa) s0 = (Inr u, s)"
  obtains v s1 s4 where
    "SetFoundersRewardAndGetMinerValue P C h f (ctx_init s0) = (Inr v, s1)"
    "s = ctx_free s4"
    "ComputeBindingSig P C h None
       (s1\<lparr>mtx := (mtx s1)\<lparr>valueBalanceSapling := valueBalanceSapling (mtx s1) - v,
             vShieldedOutput := vShieldedOutput (mtx s1) @
               [\<lparr>od_ovk = 0, od_note = \<lparr>note_address = pa, note_value = v,
                    note_zip212 = GetZip212Flag P h\<rparr>\<rparr>]\<rparr>\<rparr>) = (Inr (), s4)"
  using assms
  by (simp add: Let_def split: prod.splits sum.splits if_splits) blast+

lemma AddOutputs_OrchardMiner_Inr:
  assumes "AddOutputsToCoinbaseTxAndSign P C h f (OrchardMiner to) s0 = (Inr u, s)"
  obtains v s1 s2 where
    "SetFoundersRewardAndGetMinerValue P C h f (ctx_init s0) = (Inr v, s1)"
    "s = ctx_free s2"
    "ComputeBindingSig P C h (Some [(0, to, v), (0, dummy_address C, 0)]) s1 = (Inr (), s2)"
  using assms
  by (simp add: Let_def split: prod.splits sum.splits if_splits) blast+


lemma AddOutputs_frame:
  assumes run: "AddOutputsToCoinbaseTxAndSign P C h f a s0 = (Inr u, s)"
  shows "vin (mtx s) = vin (mtx s0) \<and> nExpiryHeight (mtx s) = nExpiryHeight (mtx s0)"
proof (cases a)
  case (ReserveScript sc)
  from run [unfolded ReserveScript] show ?thesis
  proof (rule AddOutputs_ReserveScript_Inr)
    fix v s1 s3
    assume sf: "SetFoundersRewardAndGetMinerValue P C h f
       ((ctx_init s0)\<lparr>mtx := (mtx (ctx_init s0))\<lparr>vout := resize 1 CTxOut_default (vout (mtx (ctx_init s0)))\<rparr>\<rparr>)
       = (Inr v, s1)"
      and s: "s = ctx_free s3"
      and s3: "s3 = s1\<lparr>mtx := (mtx s1)\<lparr>vout := (vout (mtx s1))[0 := \<lparr>nValue = v, scriptPubKey = sc\<rparr>]\<rparr>\<rparr>
        \<or> ComputeBindingSig P C h None
          (s1\<lparr>mtx := (mtx s1)\<lparr>vout := (vout (mtx s1))[0 := \<lparr>nValue = v, scriptPubKey = sc\<rparr>]\<rparr>\<rparr>)
          = (Inr (), s3)"
    from s3 have "vin (mtx s3) = vin (mtx s1) \<and> nExpiryHeight (mtx s3) = nExpiryHeight (mtx s1)"
      by (auto dest!: ComputeBindingSig_frame)
    with SetFounders_frame [OF sf] s show ?thesis
      by (simp add: ctx_free_def ctx_init_def)
  qed
next
  case (SaplingMiner pa)
  from run [unfolded SaplingMiner] show ?thesis
  proof (rule AddOutputs_SaplingMiner_Inr)
    fix v s1 s4
    assume sf: "SetFoundersRewardAndGetMinerValue P C h f (ctx_init s0) = (Inr v, s1)"
      and s: "s = ctx_free s4"
      and cb: "ComputeBindingSig P C h None
         (s1\<lparr>mtx := (mtx s1)\<lparr>valueBalanceSapling := valueBalanceSapling (mtx s1) - v,
             vShieldedOutput := vShieldedOutput (mtx s1) @
               [\<lparr>od_ovk = 0, od_note = \<lparr>note_address = pa, note_value = v,
                    note_zip212 = GetZip212Flag P h\<rparr>\<rparr>]\<rparr>\<rparr>) = (Inr (), s4)"
    from ComputeBindingSig_frame [OF cb] SetFounders_frame [OF sf] s show ?thesis
      by (simp add: ctx_free_def ctx_init_def)
  qed
next
  case (OrchardMiner to)
  from run [unfolded OrchardMiner] show ?thesis
  proof (rule AddOutputs_OrchardMiner_Inr)
    fix v s1 s2
    assume sf: "SetFoundersRewardAndGetMinerValue P C h f (ctx_init s0) = (Inr v, s1)"
      and s: "s = ctx_free s2"
      and cb: "ComputeBindingSig P C h (Some [(0, to, v), (0, dummy_address C, 0)]) s1 = (Inr (), s2)"
    from ComputeBindingSig_frame [OF cb] SetFounders_frame [OF sf] s show ?thesis
      by (simp add: ctx_free_def ctx_init_def)
  qed
qed

lemma AddOutputs_value:
  assumes run: "AddOutputsToCoinbaseTxAndSign P C h f a s0 = (Inr u, s)"
    and fresh: "vout (mtx s0) = []" "valueBalanceSapling (mtx s0) = 0" "orchardBundle (mtx s0) = None"
  shows "coinbase_net_value (mtx s) = GetBlockSubsidy P h + f
         \<and> miner_output_value a (mtx s) = Some (GetBlockSubsidy P h - deductions P h + f)"
proof (cases a)
  case (ReserveScript sc)
  from run [unfolded ReserveScript] show ?thesis unfolding ReserveScript
  proof (rule AddOutputs_ReserveScript_Inr)
    fix v and s1 s3 :: cb_state
    let ?s' = "(ctx_init s0)\<lparr>mtx := (mtx (ctx_init s0))\<lparr>vout := resize 1 CTxOut_default (vout (mtx (ctx_init s0)))\<rparr>\<rparr>"
    let ?s2 = "s1\<lparr>mtx := (mtx s1)\<lparr>vout := (vout (mtx s1))[0 := \<lparr>nValue = v, scriptPubKey = sc\<rparr>]\<rparr>\<rparr>"
    assume sf: "SetFoundersRewardAndGetMinerValue P C h f ?s' = (Inr v, s1)"
      and s: "s = ctx_free s3"
      and s3: "s3 = ?s2 \<or> ComputeBindingSig P C h None ?s2 = (Inr (), s3)"
    have v0: "vout (mtx ?s') = [CTxOut_default]" "valueBalanceSapling (mtx ?s') = 0"
        "orchardBundle (mtx ?s') = None"
      using fresh by (simp_all add: ctx_init_def resize_def)
    from SetFounders_vout [OF sf] v0 obtain xs where xs: "vout (mtx s1) = CTxOut_default # xs"
      by auto
    from s3 have m: "vout (mtx s3) = vout (mtx ?s2)
         \<and> valueBalanceSapling (mtx s3) = valueBalanceSapling (mtx ?s2)
         \<and> orchardBundle (mtx s3) = orchardBundle (mtx ?s2)"
      by (auto dest!: ComputeBindingSig_frame)
    from SetFounders_value [OF sf] v0 xs m s
    show "coinbase_net_value (mtx s) = GetBlockSubsidy P h + f
         \<and> miner_output_value (ReserveScript sc) (mtx s) = Some (GetBlockSubsidy P h - deductions P h + f)"
      by (simp add: coinbase_net_value_def transparent_value_out_def CTxOut_default_def
            GetValueBalance_def authorized_bundle_def ctx_free_def)
  qed
next
  case (SaplingMiner pa)
  from run [unfolded SaplingMiner] show ?thesis unfolding SaplingMiner
  proof (rule AddOutputs_SaplingMiner_Inr)
    fix v s1 s4
    assume sf: "SetFoundersRewardAndGetMinerValue P C h f (ctx_init s0) = (Inr v, s1)"
      and s: "s = ctx_free s4"
      and cb: "ComputeBindingSig P C h None
         (s1\<lparr>mtx := (mtx s1)\<lparr>valueBalanceSapling := valueBalanceSapling (mtx s1) - v,
             vShieldedOutput := vShieldedOutput (mtx s1) @
               [\<lparr>od_ovk = 0, od_note = \<lparr>note_address = pa, note_value = v,
                    note_zip212 = GetZip212Flag P h\<rparr>\<rparr>]\<rparr>\<rparr>) = (Inr (), s4)"
    have v0: "vout (mtx (ctx_init s0)) = []" "valueBalanceSapling (mtx (ctx_init s0)) = 0"
        "orchardBundle (mtx (ctx_init s0)) = None"
      using fresh by (simp_all add: ctx_init_def)
    from SetFounders_value [OF sf] v0 ComputeBindingSig_frame [OF cb] s
    show "coinbase_net_value (mtx s) = GetBlockSubsidy P h + f
         \<and> miner_output_value (SaplingMiner pa) (mtx s) = Some (GetBlockSubsidy P h - deductions P h + f)"
      by (simp add: coinbase_net_value_def transparent_value_out_def GetValueBalance_def authorized_bundle_def
            ctx_free_def)
  qed
next
  case (OrchardMiner to)
  from run [unfolded OrchardMiner] show ?thesis unfolding OrchardMiner
  proof (rule AddOutputs_OrchardMiner_Inr)
    fix v s1 s2
    assume sf: "SetFoundersRewardAndGetMinerValue P C h f (ctx_init s0) = (Inr v, s1)"
      and s: "s = ctx_free s2"
      and cb: "ComputeBindingSig P C h (Some [(0, to, v), (0, dummy_address C, 0)]) s1 = (Inr (), s2)"
    have v0: "vout (mtx (ctx_init s0)) = []" "valueBalanceSapling (mtx (ctx_init s0)) = 0"
        "orchardBundle (mtx (ctx_init s0)) = None"
      using fresh by (simp_all add: ctx_init_def)
    from SetFounders_value [OF sf] v0 ComputeBindingSig_frame [OF cb] s
    show "coinbase_net_value (mtx s) = GetBlockSubsidy P h + f
         \<and> miner_output_value (OrchardMiner to) (mtx s) = Some (GetBlockSubsidy P h - deductions P h + f)"
      by (simp add: coinbase_net_value_def transparent_value_out_def GetValueBalance_def authorized_bundle_def
            ctx_free_def)
  qed
qed


lemmas example_defs = example_params_def example_crypto_def

lemmas builder_defs = CreateCoinbaseTransaction_def CreateNewContextualCMutableTransaction_def
  SetFoundersRewardAndGetMinerValue_def
  ComputeBindingSig_def GetZip212Flag_def ctx_init_def ctx_free_def resize_def is_OrchardMiner_def authorized_bundle_def
  CTxIn_default_def CTxOut_default_def COutPoint_Null_def

lemma CreateCoinbaseTransaction_unfold:
  "\<exists>m3. vout m3 = []
     \<and> valueBalanceSapling m3 = 0
     \<and> orchardBundle m3 = None
     \<and> length (vin m3) = 1 \<and> prevout (vin m3 ! 0) = COutPoint_Null
     \<and> nExpiryHeight m3 = (if NetworkUpgradeActive P h UPGRADE_NU5 then word_of_int h else 0)
     \<and> CreateCoinbaseTransaction P C preferV4 fees a h =
         (case AddOutputsToCoinbaseTxAndSign P C h fees a \<lparr>mtx = m3, ctx_inits = 0, ctx_frees = 0\<rparr> of
            (Inl e, s) \<Rightarrow> (Inl e, ctx_inits s, ctx_frees s)
          | (Inr u, s) \<Rightarrow>
              (Inr ((mtx s)\<lparr>vin := (vin (mtx s))[0 := (vin (mtx s) ! 0)
                       \<lparr>scriptSig := push_opcode (push_int64 [] h) OP_0\<rparr>]\<rparr>),
               ctx_inits s, ctx_frees s))"
proof -
  define m3 where "m3 =
    (let m0 = CreateNewContextualCMutableTransaction P h (\<not> is_OrchardMiner a \<and> preferV4);
         m1 = m0\<lparr>vin := resize 1 CTxIn_default (vin m0)\<rparr>;
         m2 = m1\<lparr>vin := (vin m1)[0 := (vin m1 ! 0)\<lparr>prevout := COutPoint_Null\<rparr>]\<rparr>
     in if NetworkUpgradeActive P h UPGRADE_NU5
        then m2\<lparr>nExpiryHeight := word_of_int h\<rparr>
        else m2\<lparr>nExpiryHeight := 0\<rparr>)"
  have "CreateCoinbaseTransaction P C preferV4 fees a h =
     (case AddOutputsToCoinbaseTxAndSign P C h fees a \<lparr>mtx = m3, ctx_inits = 0, ctx_frees = 0\<rparr> of
        (Inl e, s) \<Rightarrow> (Inl e, ctx_inits s, ctx_frees s)
      | (Inr u, s) \<Rightarrow>
          (Inr ((mtx s)\<lparr>vin := (vin (mtx s))[0 := (vin (mtx s) ! 0)
                   \<lparr>scriptSig := push_opcode (push_int64 [] h) OP_0\<rparr>]\<rparr>),
           ctx_inits s, ctx_frees s))"
    unfolding CreateCoinbaseTransaction_def m3_def Let_def ..
  moreover have "vout m3 = []"
    "valueBalanceSapling m3 = 0"
    "orchardBundle m3 = None"
    "length (vin m3) = 1" "prevout (vin m3 ! 0) = COutPoint_Null"
    "nExpiryHeight m3 = (if NetworkUpgradeActive P h UPGRADE_NU5 then word_of_int h else 0)"
    by (simp_all add: m3_def Let_def resize_def CreateNewContextualCMutableTransaction_def)
  ultimately show ?thesis by blast
qed

lemma CreateCoinbaseTransaction_Inr:
  assumes run: "CreateCoinbaseTransaction P C preferV4 fees a h = (Inr tx, c)"
  obtains m3 u s where
    "AddOutputsToCoinbaseTxAndSign P C h fees a \<lparr>mtx = m3, ctx_inits = 0, ctx_frees = 0\<rparr> = (Inr u, s)"
    "tx = (mtx s)\<lparr>vin := (vin (mtx s))[0 := (vin (mtx s) ! 0)
                      \<lparr>scriptSig := push_opcode (push_int64 [] h) OP_0\<rparr>]\<rparr>"
    "vout m3 = []"
    "valueBalanceSapling m3 = 0"
    "orchardBundle m3 = None"
    "length (vin m3) = 1" "prevout (vin m3 ! 0) = COutPoint_Null"
    "nExpiryHeight m3 = (if NetworkUpgradeActive P h UPGRADE_NU5 then word_of_int h else 0)"
proof -
  from CreateCoinbaseTransaction_unfold [where P = P and h = h and a = a and ?preferV4.0 = preferV4
      and C = C and fees = fees] obtain m3 where
    m3: "vout m3 = []"
    "valueBalanceSapling m3 = 0"
    "orchardBundle m3 = None"
    "length (vin m3) = 1" "prevout (vin m3 ! 0) = COutPoint_Null"
    "nExpiryHeight m3 = (if NetworkUpgradeActive P h UPGRADE_NU5 then word_of_int h else 0)"
    and eq: "CreateCoinbaseTransaction P C preferV4 fees a h =
         (case AddOutputsToCoinbaseTxAndSign P C h fees a \<lparr>mtx = m3, ctx_inits = 0, ctx_frees = 0\<rparr> of
            (Inl e, s) \<Rightarrow> (Inl e, ctx_inits s, ctx_frees s)
          | (Inr u, s) \<Rightarrow>
              (Inr ((mtx s)\<lparr>vin := (vin (mtx s))[0 := (vin (mtx s) ! 0)
                       \<lparr>scriptSig := push_opcode (push_int64 [] h) OP_0\<rparr>]\<rparr>),
               ctx_inits s, ctx_frees s))"
    by blast
  from run [unfolded eq] obtain u s where
    "AddOutputsToCoinbaseTxAndSign P C h fees a \<lparr>mtx = m3, ctx_inits = 0, ctx_frees = 0\<rparr> = (Inr u, s)"
    "tx = (mtx s)\<lparr>vin := (vin (mtx s))[0 := (vin (mtx s) ! 0)
                      \<lparr>scriptSig := push_opcode (push_int64 [] h) OP_0\<rparr>]\<rparr>"
    by (auto split: prod.splits sum.splits)
  with m3 show thesis by (rule_tac that) 
qed


text \<open>
  On the exits that the handler anticipates the context is initialised once and freed once.
\<close>

lemma anticipated_exits_free_ctx:
  assumes ok: "hashes_throw_logic_error_only C"
  shows "snd (CreateCoinbaseTransaction P C preferV4 fees a h) = (1, 1)"
proof -
  from CreateCoinbaseTransaction_unfold [where P = P and h = h and a = a and ?preferV4.0 = preferV4
      and C = C and fees = fees] obtain m3 where
    eq: "CreateCoinbaseTransaction P C preferV4 fees a h =
         (case AddOutputsToCoinbaseTxAndSign P C h fees a \<lparr>mtx = m3, ctx_inits = 0, ctx_frees = 0\<rparr> of
            (Inl e, s) \<Rightarrow> (Inl e, ctx_inits s, ctx_frees s)
          | (Inr u, s) \<Rightarrow>
              (Inr ((mtx s)\<lparr>vin := (vin (mtx s))[0 := (vin (mtx s) ! 0)
                       \<lparr>scriptSig := push_opcode (push_int64 [] h) OP_0\<rparr>]\<rparr>),
               ctx_inits s, ctx_frees s))"
    by blast
  obtain r s where run:
    "AddOutputsToCoinbaseTxAndSign P C h fees a \<lparr>mtx = m3, ctx_inits = 0, ctx_frees = 0\<rparr> = (r, s)"
    by (cases "AddOutputsToCoinbaseTxAndSign P C h fees a \<lparr>mtx = m3, ctx_inits = 0, ctx_frees = 0\<rparr>")
  from AddOutputs_ctx [OF ok run] show ?thesis
    unfolding eq run by (cases r) simp_all
qed

text \<open>The context is never freed twice, whatever is thrown.\<close>

lemma ComputeBindingSig_ctx_any:
  assumes "ComputeBindingSig P C h ob s = (r, s')"
  shows "ctx_inits s' = ctx_inits s
     \<and> (case r of Inl _ \<Rightarrow> ctx_frees s' = ctx_frees s \<or> ctx_frees s' = Suc (ctx_frees s)
         | Inr _ \<Rightarrow> ctx_frees s' = ctx_frees s)"
  using assms unfolding ComputeBindingSig_def
  by (auto simp: ctx_free_def split: option.splits sum.splits if_splits)

lemma AddOutputs_ctx_any:
  assumes run: "AddOutputsToCoinbaseTxAndSign P C height fees minerAddress s0 = (r, s)"
  shows "ctx_inits s = Suc (ctx_inits s0)
         \<and> (ctx_frees s = ctx_frees s0 \<or> ctx_frees s = Suc (ctx_frees s0))
         \<and> (case r of Inr _ \<Rightarrow> ctx_frees s = Suc (ctx_frees s0) | Inl _ \<Rightarrow> True)"
proof (cases minerAddress)
  case (ReserveScript sc)
  show ?thesis using run unfolding ReserveScript
    by (auto simp: Let_def ctx_init_def ctx_free_def split: prod.splits sum.splits if_splits
          dest!: SetFounders_ctx ComputeBindingSig_ctx_any)
next
  case (SaplingMiner pa)
  show ?thesis using run unfolding SaplingMiner
    by (auto simp: Let_def ctx_init_def ctx_free_def split: prod.splits sum.splits if_splits
          dest!: SetFounders_ctx ComputeBindingSig_ctx_any)
next
  case (OrchardMiner to)
  show ?thesis using run unfolding OrchardMiner
    by (auto simp: Let_def ctx_init_def ctx_free_def split: prod.splits sum.splits if_splits
          dest!: SetFounders_ctx ComputeBindingSig_ctx_any)
qed

text \<open>The founders' reward branch, and the transparent outputs that it leaves in the coinbase.\<close>

lemma SetFounders_founders:
  assumes "0 < h" and "\<not> NetworkUpgradeActive P h UPGRADE_CANOPY"
    and "h \<le> GetLastFoundersRewardBlockHeight P h"
  shows "SetFoundersRewardAndGetMinerValue P C h f s =
           (Inr (GetBlockSubsidy P h - GetBlockSubsidy P h sdiv 5 + f),
            s\<lparr>mtx := (mtx s)\<lparr>vout := vout (mtx s) @
                [\<lparr>nValue = GetBlockSubsidy P h sdiv 5,
                  scriptPubKey = GetFoundersRewardScriptAtHeight P h\<rparr>]\<rparr>\<rparr>)"
  using assms by (simp add: SetFoundersRewardAndGetMinerValue_def Let_def)

lemma SetFounders_nonpositive_height:
  assumes "h \<le> 0"
  shows "SetFoundersRewardAndGetMinerValue P C h f s = (Inr (GetBlockSubsidy P h + f), s)"
  using assms by (simp add: SetFoundersRewardAndGetMinerValue_def Let_def)

lemma AddOutputs_founders_vout:
  assumes run: "AddOutputsToCoinbaseTxAndSign P C h f a s0 = (Inr u, s)"
    and fresh: "vout (mtx s0) = []"
    and h: "0 < h" "\<not> NetworkUpgradeActive P h UPGRADE_CANOPY"
      "h \<le> GetLastFoundersRewardBlockHeight P h"
  shows "vout (mtx s) =
           (case a of
              ReserveScript sc \<Rightarrow>
                [\<lparr>nValue = GetBlockSubsidy P h - GetBlockSubsidy P h sdiv 5 + f, scriptPubKey = sc\<rparr>]
            | _ \<Rightarrow> [])
           @ [\<lparr>nValue = GetBlockSubsidy P h sdiv 5,
                scriptPubKey = GetFoundersRewardScriptAtHeight P h\<rparr>]"
proof (cases a)
  case (ReserveScript sc)
  from run [unfolded ReserveScript] show ?thesis unfolding ReserveScript
  proof (rule AddOutputs_ReserveScript_Inr)
    fix v and s1 s3 :: cb_state
    let ?s' = "(ctx_init s0)\<lparr>mtx := (mtx (ctx_init s0))\<lparr>vout := resize 1 CTxOut_default (vout (mtx (ctx_init s0)))\<rparr>\<rparr>"
    let ?s2 = "s1\<lparr>mtx := (mtx s1)\<lparr>vout := (vout (mtx s1))[0 := \<lparr>nValue = v, scriptPubKey = sc\<rparr>]\<rparr>\<rparr>"
    assume sf: "SetFoundersRewardAndGetMinerValue P C h f ?s' = (Inr v, s1)"
      and s: "s = ctx_free s3"
      and s3: "s3 = ?s2 \<or> ComputeBindingSig P C h None ?s2 = (Inr (), s3)"
    from sf [unfolded SetFounders_founders [OF h]] fresh have
      v: "v = GetBlockSubsidy P h - GetBlockSubsidy P h sdiv 5 + f"
      and s1: "vout (mtx s1) = [CTxOut_default, \<lparr>nValue = GetBlockSubsidy P h sdiv 5,
                  scriptPubKey = GetFoundersRewardScriptAtHeight P h\<rparr>]"
      by (auto simp: ctx_init_def resize_def)
    from s3 have "vout (mtx s3) = vout (mtx ?s2)" by (auto dest!: ComputeBindingSig_frame)
    with v s1 s
    show "vout (mtx s) =
           (case ReserveScript sc of
              ReserveScript sc \<Rightarrow>
                [\<lparr>nValue = GetBlockSubsidy P h - GetBlockSubsidy P h sdiv 5 + f, scriptPubKey = sc\<rparr>]
            | _ \<Rightarrow> [])
           @ [\<lparr>nValue = GetBlockSubsidy P h sdiv 5,
                scriptPubKey = GetFoundersRewardScriptAtHeight P h\<rparr>]"
      by (simp add: ctx_free_def)
  qed
next
  case (SaplingMiner pa)
  from run [unfolded SaplingMiner] show ?thesis unfolding SaplingMiner
  proof (rule AddOutputs_SaplingMiner_Inr)
    fix v and s1 s4 :: cb_state
    assume sf: "SetFoundersRewardAndGetMinerValue P C h f (ctx_init s0) = (Inr v, s1)"
      and s: "s = ctx_free s4"
      and cb: "ComputeBindingSig P C h None
         (s1\<lparr>mtx := (mtx s1)\<lparr>valueBalanceSapling := valueBalanceSapling (mtx s1) - v,
             vShieldedOutput := vShieldedOutput (mtx s1) @
               [\<lparr>od_ovk = 0, od_note = \<lparr>note_address = pa, note_value = v,
                    note_zip212 = GetZip212Flag P h\<rparr>\<rparr>]\<rparr>\<rparr>) = (Inr (), s4)"
    from sf [unfolded SetFounders_founders [OF h]] fresh have
      s1: "vout (mtx s1) = [\<lparr>nValue = GetBlockSubsidy P h sdiv 5,
                  scriptPubKey = GetFoundersRewardScriptAtHeight P h\<rparr>]"
      by (auto simp: ctx_init_def)
    with ComputeBindingSig_frame [OF cb] s
    show "vout (mtx s) =
           (case SaplingMiner pa of
              ReserveScript sc \<Rightarrow>
                [\<lparr>nValue = GetBlockSubsidy P h - GetBlockSubsidy P h sdiv 5 + f, scriptPubKey = sc\<rparr>]
            | _ \<Rightarrow> [])
           @ [\<lparr>nValue = GetBlockSubsidy P h sdiv 5,
                scriptPubKey = GetFoundersRewardScriptAtHeight P h\<rparr>]"
      by (simp add: ctx_free_def)
  qed
next
  case (OrchardMiner to)
  from run [unfolded OrchardMiner] show ?thesis unfolding OrchardMiner
  proof (rule AddOutputs_OrchardMiner_Inr)
    fix v and s1 s2 :: cb_state
    assume sf: "SetFoundersRewardAndGetMinerValue P C h f (ctx_init s0) = (Inr v, s1)"
      and s: "s = ctx_free s2"
      and cb: "ComputeBindingSig P C h (Some [(0, to, v), (0, dummy_address C, 0)]) s1 = (Inr (), s2)"
    from sf [unfolded SetFounders_founders [OF h]] fresh have
      s1: "vout (mtx s1) = [\<lparr>nValue = GetBlockSubsidy P h sdiv 5,
                  scriptPubKey = GetFoundersRewardScriptAtHeight P h\<rparr>]"
      by (auto simp: ctx_init_def)
    with ComputeBindingSig_frame [OF cb] s
    show "vout (mtx s) =
           (case OrchardMiner to of
              ReserveScript sc \<Rightarrow>
                [\<lparr>nValue = GetBlockSubsidy P h - GetBlockSubsidy P h sdiv 5 + f, scriptPubKey = sc\<rparr>]
            | _ \<Rightarrow> [])
           @ [\<lparr>nValue = GetBlockSubsidy P h sdiv 5,
                scriptPubKey = GetFoundersRewardScriptAtHeight P h\<rparr>]"
      by (simp add: ctx_free_def)
  qed
qed

section \<open>Properties of the selection loop\<close>

lemma turnstile_Inl:
  "turnstile P monitoring tx s = Inl v \<Longrightarrow>
     v \<noteq> Added \<and> v \<noteq> SkipFree \<and> ZIP209Enabled P \<and> monitoring"
  by (auto simp: turnstile_def Let_def split: if_splits)

lemma turnstile_frame:
  "turnstile P monitoring tx s = Inr s' \<Longrightarrow>
     vecPriority s' = vecPriority s \<and> vOrphan s' = vOrphan s \<and> fSortedByFee s' = fSortedByFee s
     \<and> view s' = view s \<and> vtx s' = vtx s \<and> vTxFees s' = vTxFees s \<and> vTxSigOps s' = vTxSigOps s
     \<and> nBlockSize s' = nBlockSize s \<and> nBlockTx s' = nBlockTx s \<and> nBlockSigOps s' = nBlockSigOps s
     \<and> nFees s' = nFees s \<and> selection_log s' = selection_log s"
  by (auto simp: turnstile_def Let_def split: if_splits)

lemma add_to_block_fields [simp]:
  "view (add_to_block E height dependers tx hash nTxSize nTxSigOps nTxFees s)
     = UpdateCoins E tx (view s) height"
  "vtx (add_to_block E height dependers tx hash nTxSize nTxSigOps nTxFees s) = vtx s @ [tx]"
  "vTxFees (add_to_block E height dependers tx hash nTxSize nTxSigOps nTxFees s)
     = vTxFees s @ [nTxFees]"
  "vTxSigOps (add_to_block E height dependers tx hash nTxSize nTxSigOps nTxFees s)
     = vTxSigOps s @ [uint nTxSigOps]"
  "nBlockSize (add_to_block E height dependers tx hash nTxSize nTxSigOps nTxFees s)
     = nBlockSize s + ucast nTxSize"
  "nBlockTx (add_to_block E height dependers tx hash nTxSize nTxSigOps nTxFees s) = nBlockTx s + 1"
  "nBlockSigOps (add_to_block E height dependers tx hash nTxSize nTxSigOps nTxFees s)
     = nBlockSigOps s + nTxSigOps"
  "nFees (add_to_block E height dependers tx hash nTxSize nTxSigOps nTxFees s) = nFees s + nTxFees"
  "fSortedByFee (add_to_block E height dependers tx hash nTxSize nTxSigOps nTxFees s)
     = fSortedByFee s"
  "sproutValue (add_to_block E height dependers tx hash nTxSize nTxSigOps nTxFees s) = sproutValue s"
  "saplingValue (add_to_block E height dependers tx hash nTxSize nTxSigOps nTxFees s) = saplingValue s"
  "orchardValue (add_to_block E height dependers tx hash nTxSize nTxSigOps nTxFees s) = orchardValue s"
  "selection_log (add_to_block E height dependers tx hash nTxSize nTxSigOps nTxFees s)
     = selection_log s @ [(hash, Added)]"
  by (simp_all add: add_to_block_def Let_def split: option.split)

text \<open>The condition of the \<open>if\<close> that skips free transactions, for the entry \<open>front\<close>.\<close>

abbreviation free_tx_condition :: "'v miner_env \<Rightarrow> 'v selection \<Rightarrow> TxPriority \<Rightarrow> bool" where
  "free_tx_condition E s front \<equiv>
     fSortedByFee s
     \<and> fst (ApplyDeltas (mapDeltas E) (GetHash E (get3 front)) (0, 0)) \<le> 0
     \<and> snd (ApplyDeltas (mapDeltas E) (GetHash E (get3 front)) (0, 0)) \<le> 0
     \<and> get1 front < minRelayTxFee E \<and> get2 front < DEFAULT_FEE E
     \<and> nBlockSize s + ucast (GetSerializeSize E (get3 front)) \<ge> ucast (nBlockMinSize E)"

text \<open>
  The outcomes of the checks on a popped transaction: it is skipped, with a verdict, before
  or after the change of comparator, or it has passed every check and is added.
\<close>

lemma consider_tx_cases:
  fixes s :: "'v selection"
  obtains
    (skipped) v s1 where
      "consider_tx P E height dependers monitoring front s = skip (GetHash E (get3 front)) v s1"
      "v \<noteq> Added"
      "s1 = s \<or> s1 = switch_comparer E (get0 front) (GetSerializeSize E (get3 front)) s"
      "v = SkipFree \<longleftrightarrow>
         \<not> nBlockSize s + ucast (GetSerializeSize E (get3 front)) \<ge> ucast (nBlockMaxSize E)
         \<and> \<not> nBlockSigOps s + GetLegacySigOpCount E (get3 front) \<ge> MAX_BLOCK_SIGOPS E
         \<and> free_tx_condition E s front"
  | (added) s2 where
      "turnstile P monitoring (get3 front)
         (switch_comparer E (get0 front) (GetSerializeSize E (get3 front)) s) = Inr s2"
      "\<not> nBlockSize s + ucast (GetSerializeSize E (get3 front)) \<ge> ucast (nBlockMaxSize E)"
      "\<not> nBlockSigOps s + GetLegacySigOpCount E (get3 front) \<ge> MAX_BLOCK_SIGOPS E"
      "\<not> nBlockSigOps s + (GetLegacySigOpCount E (get3 front)
            + GetP2SHSigOpCount E (get3 front) (view s)) \<ge> MAX_BLOCK_SIGOPS E"
      "\<not> free_tx_condition E s front"
      "consider_tx P E height dependers monitoring front s =
         add_to_block E height dependers (get3 front) (GetHash E (get3 front))
           (GetSerializeSize E (get3 front))
           (GetLegacySigOpCount E (get3 front) + GetP2SHSigOpCount E (get3 front) (view s))
           (GetValueIn E (view s) (get3 front) - GetValueOut E (get3 front)) s2"
proof -
  let ?tx = "get3 front"
  let ?hash = "GetHash E ?tx"
  let ?size = "GetSerializeSize E ?tx"
  let ?s1 = "switch_comparer E (get0 front) ?size s"
  let ?c = "consider_tx P E height dependers monitoring front s"
  consider
      (size) "nBlockSize s + ucast ?size \<ge> ucast (nBlockMaxSize E)"
    | (legacy) "\<not> nBlockSize s + ucast ?size \<ge> ucast (nBlockMaxSize E)"
        "nBlockSigOps s + GetLegacySigOpCount E ?tx \<ge> MAX_BLOCK_SIGOPS E"
    | (rest) "\<not> nBlockSize s + ucast ?size \<ge> ucast (nBlockMaxSize E)"
        "\<not> nBlockSigOps s + GetLegacySigOpCount E ?tx \<ge> MAX_BLOCK_SIGOPS E"
    by blast
  then show thesis
  proof cases
    case size
    then have "?c = skip ?hash SkipMaxSize s" by (simp add: consider_tx_def Let_def)
    then show thesis using size by (intro skipped [of SkipMaxSize s]) simp_all
  next
    case legacy
    then have "?c = skip ?hash SkipLegacySigOps s" by (simp add: consider_tx_def Let_def)
    then show thesis using legacy by (intro skipped [of SkipLegacySigOps s]) simp_all
  next
    case rest
    let ?free = "fSortedByFee s \<and> fst (ApplyDeltas (mapDeltas E) ?hash (0, 0)) \<le> 0
        \<and> snd (ApplyDeltas (mapDeltas E) ?hash (0, 0)) \<le> 0
        \<and> get1 front < minRelayTxFee E \<and> get2 front < DEFAULT_FEE E
        \<and> nBlockSize s + ucast ?size \<ge> ucast (nBlockMinSize E)"
    show thesis
    proof (cases ?free)
      case True
      with rest have "?c = skip ?hash SkipFree s" by (simp add: consider_tx_def Let_def)
      then show thesis using rest True by (intro skipped [of SkipFree s]) simp_all
    next
      case nofree: False
      show thesis
      proof (cases "HaveInputs E (view s) ?tx")
        case False
        with rest nofree have "?c = skip ?hash SkipMissingInputs ?s1"
          by (auto simp: consider_tx_def Let_def)
        then show thesis using nofree by (intro skipped [of SkipMissingInputs ?s1]) simp_all
      next
        case inputs: True
        show thesis
        proof (cases "nBlockSigOps s + (GetLegacySigOpCount E ?tx + GetP2SHSigOpCount E ?tx (view s))
                        \<ge> MAX_BLOCK_SIGOPS E")
          case True
          with rest nofree inputs have "?c = skip ?hash SkipP2SHSigOps ?s1"
            by (auto simp: consider_tx_def Let_def)
          then show thesis using nofree by (intro skipped [of SkipP2SHSigOps ?s1]) simp_all
        next
          case p2sh: False
          show thesis
          proof (cases "ContextualCheckInputs E ?tx (view s) (CurrentEpochBranchId P height)")
            case False
            with rest nofree inputs p2sh have "?c = skip ?hash SkipContextualCheck ?s1"
              by (auto simp: consider_tx_def Let_def)
            then show thesis using nofree by (intro skipped [of SkipContextualCheck ?s1]) simp_all
          next
            case ctx: True
            show thesis
            proof (cases "turnstile P monitoring ?tx ?s1")
              case (Inl v)
              with rest nofree inputs p2sh ctx have "?c = skip ?hash v ?s1"
                by (auto simp: consider_tx_def Let_def)
              moreover from turnstile_Inl [OF Inl] have "v \<noteq> Added" "v \<noteq> SkipFree" by simp_all
              ultimately show thesis using nofree by (intro skipped [of v ?s1]) simp_all
            next
              case (Inr s2)
              with rest nofree inputs p2sh ctx have
                "?c = add_to_block E height dependers ?tx ?hash ?size
                   (GetLegacySigOpCount E ?tx + GetP2SHSigOpCount E ?tx (view s))
                   (GetValueIn E (view s) ?tx - GetValueOut E ?tx) s2"
                by (auto simp: consider_tx_def Let_def)
              with Inr rest p2sh nofree show thesis by (intro added [of s2]) simp_all
            qed
          qed
        qed
      qed
    qed
  qed
qed


lemma nBlockMaxSize_ge: "(1000 :: 64 word) \<le> ucast (nBlockMaxSize E)"
proof -
  have "(1000 :: 32 word) \<le> nBlockMaxSize E" by (simp add: nBlockMaxSize_def)
  then have "uint (1000 :: 32 word) \<le> uint (nBlockMaxSize E)" by (simp add: word_le_def)
  moreover have "uint (ucast (nBlockMaxSize E) :: 64 word) = uint (nBlockMaxSize E)"
    by (rule uint_up_ucast) (simp add: is_up)
  ultimately show ?thesis by (simp add: word_le_def)
qed

lemma fold_joinsplits:
  "fold (\<lambda>js v. v + vpub_old js - vpub_new js) xs v
     = v + sum_list (map vpub_old xs) - sum_list (map vpub_new xs)"
  by (induction xs arbitrary: v) simp_all

text \<open>The balances that the turnstile check commits, and the ones it refuses.\<close>

lemma turnstile_Inr:
  assumes "turnstile P monitoring tx s = Inr s'"
  shows "if ZIP209Enabled P \<and> monitoring
         then sproutValue s' = sproutValue s + sum_list (map vpub_old (vJoinSplit tx))
                                - sum_list (map vpub_new (vJoinSplit tx))
              \<and> saplingValue s' = saplingValue s - valueBalanceSapling tx
              \<and> orchardValue s' = orchardValue s - GetValueBalance (orchardBundle tx)
              \<and> 0 \<le> sproutValue s' \<and> 0 \<le> saplingValue s' \<and> 0 \<le> orchardValue s'
         else sproutValue s' = sproutValue s \<and> saplingValue s' = saplingValue s
              \<and> orchardValue s' = orchardValue s"
  using assms by (auto simp: turnstile_def Let_def fold_joinsplits split: if_splits)

lemma turnstile_negative:
  assumes "ZIP209Enabled P" and "monitoring"
    and "sproutValue s + sum_list (map vpub_old (vJoinSplit tx))
           - sum_list (map vpub_new (vJoinSplit tx)) < 0
         \<or> saplingValue s - valueBalanceSapling tx < 0
         \<or> orchardValue s - GetValueBalance (orchardBundle tx) < 0"
  shows "\<exists>v. turnstile P monitoring tx s = Inl v"
  using assms by (auto simp: turnstile_def Let_def fold_joinsplits)

lemma select_step_outcome:
  fixes s :: "'v selection"
  defines "front \<equiv> fst (pop_heap (TxPriorityCompare (fSortedByFee s)) (vecPriority s))"
  obtains
    (skipped) v where
      "v \<noteq> Added"
      "selection_log (select_step P E height dependers monitoring s)
         = selection_log s @ [(GetHash E (get3 front), v)]"
      "vtx (select_step P E height dependers monitoring s) = vtx s"
      "nBlockSize (select_step P E height dependers monitoring s) = nBlockSize s"
      "nBlockSigOps (select_step P E height dependers monitoring s) = nBlockSigOps s"
      "nFees (select_step P E height dependers monitoring s) = nFees s"
      "sproutValue (select_step P E height dependers monitoring s) = sproutValue s"
      "saplingValue (select_step P E height dependers monitoring s) = saplingValue s"
      "orchardValue (select_step P E height dependers monitoring s) = orchardValue s"
      "v = SkipFree \<longleftrightarrow>
         \<not> nBlockSize s + ucast (GetSerializeSize E (get3 front)) \<ge> ucast (nBlockMaxSize E)
         \<and> \<not> nBlockSigOps s + GetLegacySigOpCount E (get3 front) \<ge> MAX_BLOCK_SIGOPS E
         \<and> free_tx_condition E s front"
      "vTxSigOps (select_step P E height dependers monitoring s) = vTxSigOps s"
      "vTxFees (select_step P E height dependers monitoring s) = vTxFees s"
      "nBlockTx (select_step P E height dependers monitoring s) = nBlockTx s"
  | (added) s1 s2 where
      "turnstile P monitoring (get3 front) (s1 :: 'v selection) = Inr s2"
      "sproutValue s1 = sproutValue s" "saplingValue s1 = saplingValue s"
      "orchardValue s1 = orchardValue s"
      "\<not> nBlockSize s + ucast (GetSerializeSize E (get3 front)) \<ge> ucast (nBlockMaxSize E)"
      "\<not> nBlockSigOps s + GetLegacySigOpCount E (get3 front) \<ge> MAX_BLOCK_SIGOPS E"
      "\<not> nBlockSigOps s + (GetLegacySigOpCount E (get3 front)
            + GetP2SHSigOpCount E (get3 front) (view s)) \<ge> MAX_BLOCK_SIGOPS E"
      "\<not> free_tx_condition E s front"
      "selection_log (select_step P E height dependers monitoring s)
         = selection_log s @ [(GetHash E (get3 front), Added)]"
      "vtx (select_step P E height dependers monitoring s) = vtx s @ [get3 front]"
      "nBlockSize (select_step P E height dependers monitoring s)
         = nBlockSize s + ucast (GetSerializeSize E (get3 front))"
      "nBlockSigOps (select_step P E height dependers monitoring s)
         = nBlockSigOps s + (GetLegacySigOpCount E (get3 front)
            + GetP2SHSigOpCount E (get3 front) (view s))"
      "nFees (select_step P E height dependers monitoring s)
         = nFees s + (GetValueIn E (view s) (get3 front) - GetValueOut E (get3 front))"
      "sproutValue (select_step P E height dependers monitoring s) = sproutValue s2"
      "saplingValue (select_step P E height dependers monitoring s) = saplingValue s2"
      "orchardValue (select_step P E height dependers monitoring s) = orchardValue s2"
      "vTxSigOps (select_step P E height dependers monitoring s)
         = vTxSigOps s @ [uint (GetLegacySigOpCount E (get3 front)
                                 + GetP2SHSigOpCount E (get3 front) (view s))]"
      "vTxFees (select_step P E height dependers monitoring s)
         = vTxFees s @ [GetValueIn E (view s) (get3 front) - GetValueOut E (get3 front)]"
      "nBlockTx (select_step P E height dependers monitoring s) = nBlockTx s + 1"
proof -
  let ?sp = "s\<lparr>vecPriority := snd (pop_heap (TxPriorityCompare (fSortedByFee s)) (vecPriority s))\<rparr>"
  let ?s1 = "switch_comparer E (get0 front) (GetSerializeSize E (get3 front)) ?sp"
  have step: "select_step P E height dependers monitoring s
                = consider_tx P E height dependers monitoring front ?sp"
    by (simp add: select_step_def Let_def front_def)
  show thesis
  proof (rule consider_tx_cases [where P = P and E = E and height = height
        and dependers = dependers and monitoring = monitoring and front = front and s = ?sp])
    fix v s1
    assume c: "consider_tx P E height dependers monitoring front ?sp
                 = skip (GetHash E (get3 front)) v s1"
      and v: "v \<noteq> Added" and s1: "s1 = ?sp \<or> s1 = ?s1"
      and f: "v = SkipFree \<longleftrightarrow>
         \<not> nBlockSize ?sp + ucast (GetSerializeSize E (get3 front)) \<ge> ucast (nBlockMaxSize E)
         \<and> \<not> nBlockSigOps ?sp + GetLegacySigOpCount E (get3 front) \<ge> MAX_BLOCK_SIGOPS E
         \<and> free_tx_condition E ?sp front"
    from s1 have "selection_log s1 = selection_log s \<and> vtx s1 = vtx s
        \<and> nBlockSize s1 = nBlockSize s \<and> nBlockSigOps s1 = nBlockSigOps s \<and> nFees s1 = nFees s
        \<and> sproutValue s1 = sproutValue s \<and> saplingValue s1 = saplingValue s
        \<and> orchardValue s1 = orchardValue s \<and> vTxSigOps s1 = vTxSigOps s
        \<and> vTxFees s1 = vTxFees s \<and> nBlockTx s1 = nBlockTx s"
      by auto
    with c v f show thesis
      by (intro skipped [of v]) (simp_all add: step)
  next
    fix s2
    assume ts: "turnstile P monitoring (get3 front) ?s1 = Inr s2"
      and g: "\<not> nBlockSize ?sp + ucast (GetSerializeSize E (get3 front)) \<ge> ucast (nBlockMaxSize E)"
        "\<not> nBlockSigOps ?sp + GetLegacySigOpCount E (get3 front) \<ge> MAX_BLOCK_SIGOPS E"
        "\<not> nBlockSigOps ?sp + (GetLegacySigOpCount E (get3 front)
            + GetP2SHSigOpCount E (get3 front) (view ?sp)) \<ge> MAX_BLOCK_SIGOPS E"
        "\<not> free_tx_condition E ?sp front"
      and c: "consider_tx P E height dependers monitoring front ?sp =
         add_to_block E height dependers (get3 front) (GetHash E (get3 front))
           (GetSerializeSize E (get3 front))
           (GetLegacySigOpCount E (get3 front) + GetP2SHSigOpCount E (get3 front) (view ?sp))
           (GetValueIn E (view ?sp) (get3 front) - GetValueOut E (get3 front)) s2"
    from turnstile_frame [OF ts] have fr:
      "vtx s2 = vtx s" "nBlockSize s2 = nBlockSize s" "nBlockSigOps s2 = nBlockSigOps s"
      "nFees s2 = nFees s" "selection_log s2 = selection_log s"
      "vTxSigOps s2 = vTxSigOps s" "vTxFees s2 = vTxFees s" "nBlockTx s2 = nBlockTx s"
      by simp_all
    from g have g': "\<not> nBlockSize s + ucast (GetSerializeSize E (get3 front)) \<ge> ucast (nBlockMaxSize E)"
        "\<not> nBlockSigOps s + GetLegacySigOpCount E (get3 front) \<ge> MAX_BLOCK_SIGOPS E"
        "\<not> nBlockSigOps s + (GetLegacySigOpCount E (get3 front)
            + GetP2SHSigOpCount E (get3 front) (view s)) \<ge> MAX_BLOCK_SIGOPS E"
        "\<not> free_tx_condition E s front"
      by simp_all
    have b: "sproutValue ?s1 = sproutValue s" "saplingValue ?s1 = saplingValue s"
      "orchardValue ?s1 = orchardValue s"
      by simp_all
    show thesis
      using ts b g'
      by (intro added [where ?s1.0 = ?s1 and ?s2.0 = s2]) (simp_all add: step c fr)
  qed
qed

lemma select_iter_invariant:
  assumes step: "\<And>s. I s \<Longrightarrow> vecPriority s \<noteq> [] \<Longrightarrow> I (select_step P E height dependers monitoring s)"
    and init: "I s"
  shows "I (select_iter P E height dependers monitoring n s)"
  using init
proof (induction n arbitrary: s)
  case 0
  then show ?case by simp
next
  case (Suc n)
  show ?case
  proof (cases "vecPriority s = []")
    case True
    with Suc.prems show ?thesis by simp
  next
    case False
    with Suc.prems have "I (select_step P E height dependers monitoring s)" by (simp add: step)
    from Suc.IH [OF this] False show ?thesis by simp
  qed
qed

text \<open>The loop runs through as many iterations as there are entries remaining.\<close>

lemma select_loop_iter:
  "select_loop P E height dependers monitoring s
     = select_iter P E height dependers monitoring (remaining s) s"
proof (induction "remaining s" arbitrary: s)
  case 0
  then have "vecPriority s = []" and "remaining s = 0" by (simp_all add: remaining_def)
  then show ?case by (simp add: select_loop.simps)
next
  case (Suc n)
  show ?case
  proof (cases "vecPriority s = []")
    case True
    with Suc.hyps(2) [symmetric] show ?thesis by (simp add: select_loop.simps)
  next
    case False
    from select_step_remaining [OF False, of P E height dependers monitoring] Suc.hyps(2)
    have r: "remaining (select_step P E height dependers monitoring s) = n" by simp
    from Suc.hyps(1) [OF r [symmetric]] r False Suc.hyps(2) [symmetric]
    show ?thesis by (simp add: select_loop.simps [of P E height dependers monitoring s])
  qed
qed

lemma select_loop_queue_empty:
  "vecPriority (select_loop P E height dependers monitoring s) = []"
proof (induction "remaining s" arbitrary: s rule: less_induct)
  case less
  show ?case
  proof (cases "vecPriority s = []")
    case True
    then show ?thesis by (simp add: select_loop.simps)
  next
    case False
    from select_step_remaining [OF False, of P E height dependers monitoring]
    have "remaining (select_step P E height dependers monitoring s) < remaining s" by simp
    from less [OF this] False show ?thesis
      by (simp add: select_loop.simps [of P E height dependers monitoring s])
  qed
qed

lemma select_step_limits:
  assumes "nBlockSize s \<le> ucast (nBlockMaxSize E) \<and> vtx s \<noteq> []
           \<and> (nBlockSigOps s \<le> MAX_BLOCK_SIGOPS E \<or> (length (vtx s) = 1 \<and> nBlockSigOps s = 100))"
  shows "nBlockSize (select_step P E height dependers monitoring s) \<le> ucast (nBlockMaxSize E)
         \<and> vtx (select_step P E height dependers monitoring s) \<noteq> []
         \<and> (nBlockSigOps (select_step P E height dependers monitoring s) \<le> MAX_BLOCK_SIGOPS E
            \<or> (length (vtx (select_step P E height dependers monitoring s)) = 1
               \<and> nBlockSigOps (select_step P E height dependers monitoring s) = 100))"
proof (cases rule: select_step_outcome [where P = P and E = E and height = height
    and dependers = dependers and monitoring = monitoring and s = s])
  case (skipped v)
  with assms show ?thesis by simp
next
  case (added s1 s2)
  from added(5) have "nBlockSize (select_step P E height dependers monitoring s)
                        \<le> ucast (nBlockMaxSize E)"
    unfolding added(11) by (rule linorder_not_le [THEN iffD1, THEN less_imp_le])
  moreover from added(7) have "nBlockSigOps (select_step P E height dependers monitoring s)
                        \<le> MAX_BLOCK_SIGOPS E"
    unfolding added(12) by (rule linorder_not_le [THEN iffD1, THEN less_imp_le])
  ultimately show ?thesis by (simp add: added(10))
qed

lemma select_step_pools:
  assumes "ZIP209Enabled P" and "monitoring"
    and "vtx s \<noteq> [] \<and> (length (vtx s) = 1 \<or> (0 \<le> sproutValue s \<and> 0 \<le> saplingValue s \<and> 0 \<le> orchardValue s))"
  shows "vtx (select_step P E height dependers monitoring s) \<noteq> []
         \<and> (length (vtx (select_step P E height dependers monitoring s)) = 1
            \<or> (0 \<le> sproutValue (select_step P E height dependers monitoring s)
               \<and> 0 \<le> saplingValue (select_step P E height dependers monitoring s)
               \<and> 0 \<le> orchardValue (select_step P E height dependers monitoring s)))"
proof (cases rule: select_step_outcome [where P = P and E = E and height = height
    and dependers = dependers and monitoring = monitoring and s = s])
  case (skipped v)
  with assms show ?thesis by simp
next
  case (added s1 s2)
  from turnstile_Inr [OF added(1)] assms(1,2) added show ?thesis by simp
qed

lemma select_step_pools_nonneg:
  assumes "ZIP209Enabled P" and "monitoring"
    and "0 \<le> sproutValue s \<and> 0 \<le> saplingValue s \<and> 0 \<le> orchardValue s"
  shows "0 \<le> sproutValue (select_step P E height dependers monitoring s)
         \<and> 0 \<le> saplingValue (select_step P E height dependers monitoring s)
         \<and> 0 \<le> orchardValue (select_step P E height dependers monitoring s)"
proof (cases rule: select_step_outcome [where P = P and E = E and height = height
    and dependers = dependers and monitoring = monitoring and s = s])
  case (skipped v)
  with assms show ?thesis by simp
next
  case (added s1 s2)
  from turnstile_Inr [OF added(1)] assms(1,2) added show ?thesis by simp
qed


text \<open>
  What the counters count: the reserve for the coinbase and the sizes, signature
  operations and fees of the transactions that were added, entry by entry. The size never
  wraps, since it stays below a 32-bit limit.
\<close>

lemma size_no_wrap:
  fixes b :: "64 word" and m n :: "32 word"
  assumes "b \<le> ucast m"
  shows "unat (b + ucast n) = unat b + unat n"
proof -
  have "uint (ucast m :: 64 word) = uint m" "uint (ucast n :: 64 word) = uint n"
    by (rule uint_up_ucast, simp add: is_up)+
  then have um: "unat (ucast m :: 64 word) = unat m" and un: "unat (ucast n :: 64 word) = unat n"
    by (simp_all only: unat_eq_nat_uint)
  from assms have "unat b \<le> unat m" by (simp add: word_le_nat_alt um)
  moreover have "unat m < 2 ^ LENGTH(32)" "unat n < 2 ^ LENGTH(32)"
    by (rule unsigned_less)+
  ultimately have "unat b + unat (ucast n :: 64 word) < 2 ^ LENGTH(64)" by (simp add: un)
  then have "unat (b + ucast n) = unat b + unat (ucast n :: 64 word)"
    by (simp only: unat_add_lem)
  with un show ?thesis by simp
qed

lemma select_step_counts:
  fixes s :: "'v selection"
  assumes "vtx s \<noteq> [] \<and> length (vTxSigOps s) = length (vtx s) \<and> length (vTxFees s) = length (vtx s)
           \<and> nBlockSize s \<le> ucast (nBlockMaxSize E)
           \<and> unat (nBlockSize s)
               = 1000 + sum_list (map (\<lambda>tx. unat (GetSerializeSize E tx)) (tl (vtx s)))
           \<and> nBlockSigOps s = 100 + word_of_int (sum_list (tl (vTxSigOps s)))
           \<and> nFees s = sum_list (tl (vTxFees s))
           \<and> nBlockTx s + 1 = of_nat (length (vtx s))"
  shows "vtx (select_step P E height dependers monitoring s) \<noteq> []
         \<and> length (vTxSigOps (select_step P E height dependers monitoring s))
             = length (vtx (select_step P E height dependers monitoring s))
         \<and> length (vTxFees (select_step P E height dependers monitoring s))
             = length (vtx (select_step P E height dependers monitoring s))
         \<and> nBlockSize (select_step P E height dependers monitoring s) \<le> ucast (nBlockMaxSize E)
         \<and> unat (nBlockSize (select_step P E height dependers monitoring s))
             = 1000 + sum_list (map (\<lambda>tx. unat (GetSerializeSize E tx))
                                  (tl (vtx (select_step P E height dependers monitoring s))))
         \<and> nBlockSigOps (select_step P E height dependers monitoring s)
             = 100 + word_of_int (sum_list (tl (vTxSigOps (select_step P E height dependers monitoring s))))
         \<and> nFees (select_step P E height dependers monitoring s)
             = sum_list (tl (vTxFees (select_step P E height dependers monitoring s)))
         \<and> nBlockTx (select_step P E height dependers monitoring s) + 1
             = of_nat (length (vtx (select_step P E height dependers monitoring s)))"
proof (cases rule: select_step_outcome [where P = P and E = E and height = height
    and dependers = dependers and monitoring = monitoring and s = s])
  case (skipped v)
  with assms show ?thesis by simp
next
  case (added s1 s2)
  let ?s' = "select_step P E height dependers monitoring s"
  let ?tx = "get3 (fst (pop_heap (TxPriorityCompare (fSortedByFee s)) (vecPriority s)))"
  from assms have ne: "vtx s \<noteq> []" "vTxSigOps s \<noteq> []" "vTxFees s \<noteq> []" by auto
  from added(5) have le: "nBlockSize ?s' \<le> ucast (nBlockMaxSize E)"
    unfolding added(11) by (rule linorder_not_le [THEN iffD1, THEN less_imp_le])
  from assms have "nBlockSize s \<le> ucast (nBlockMaxSize E)" by simp
  from size_no_wrap [OF this, of "GetSerializeSize E ?tx"] assms ne
  have sz: "unat (nBlockSize ?s')
              = 1000 + sum_list (map (\<lambda>tx. unat (GetSerializeSize E tx)) (tl (vtx ?s')))"
    by (simp add: added(10,11))
  from assms ne have so: "nBlockSigOps ?s' = 100 + word_of_int (sum_list (tl (vTxSigOps ?s')))"
    by (simp add: added(12,17))
  from assms ne have fe: "nFees ?s' = sum_list (tl (vTxFees ?s'))"
    by (simp add: added(13,18))
  from assms ne have nt: "nBlockTx ?s' + 1 = of_nat (length (vtx ?s'))"
    by (simp add: added(10,19))
  from assms ne le sz so fe nt show ?thesis by (simp add: added(10,17,18))
qed

lemmas selection_defs = select_step_def consider_tx_def switch_comparer_def add_to_block_def
  turnstile_def skip_def pop_heap_def TxPriorityCompare_def get0_def get1_def get2_def get3_def
  ApplyDeltas_def nBlockMaxSize_def nBlockMinSize_def nBlockPrioritySize_def selection_start_def
  initial_pool_value_def monitoring_pool_balances_def GetValueBalance_def CTransaction_default_def

lemmas example_selection_defs = example_env_def example_tip_def example_queue_def
  example_start_def example_tx_def example_params_def

lemma example_first_iteration:
  "select_iter example_params example_env 25 (\<lambda>h. None) True (Suc 0) example_start = example_state1"
  by (simp add: selection_defs example_selection_defs example_state1_def Let_def)


lemma example_second_iteration:
  "select_step example_params example_env 25 (\<lambda>h. None) True example_state1 = example_state2"
  by (simp add: selection_defs example_selection_defs example_state1_def example_state2_def Let_def)

section \<open>Properties of the script encoding and of the commitment tree\<close>


lemma le_bytes_nonempty: "n \<noteq> 0 \<Longrightarrow> le_bytes n \<noteq> []"
  by (simp add: le_bytes.simps [of n])







lemma update_sapling_tree_concat:
  "update_sapling_tree H txs t = t @ concat (map (\<lambda>tx. map (cmu H) (vShieldedOutput tx)) txs)"
proof -
  have inner: "fold (\<lambda>odesc t'. t' @ [cmu H odesc]) ods t = t @ map (cmu H) ods" for ods t
    by (induction ods arbitrary: t) simp_all
  show ?thesis unfolding update_sapling_tree_def
    by (induction txs arbitrary: t) (simp_all add: inner)
qed


text \<open>The coinbase of a template that \<open>CreateNewBlock\<close> builds itself.\<close>

lemma select_step_vtx_nonempty:
  fixes s :: "'v selection"
  assumes "vtx s \<noteq> []"
  shows "vtx (select_step P E height dependers monitoring s) \<noteq> []"
proof (cases rule: select_step_outcome [where P = P and E = E and height = height
    and dependers = dependers and monitoring = monitoring and s = s])
  case (skipped v)
  with assms show ?thesis by simp
next
  case (added s1 s2)
  then show ?thesis by simp
qed

lemma run_selection_vtx_nonempty:
  fixes E :: "'v miner_env"
  shows "vtx (run_selection P E pindexPrev view0 scan next_cb_mtx) \<noteq> []"
proof -
  have "vtx (select_iter P E h d m n (selection_start P E pindexPrev view0 q orph)) \<noteq> []"
    for h d m n q orph
    by (rule select_iter_invariant [where I = "\<lambda>s :: 'v selection. vtx s \<noteq> []"])
      (simp_all add: select_step_vtx_nonempty selection_start_def)
  then show ?thesis by (simp add: run_selection_def Let_def select_loop_iter)
qed

lemma CreateNewBlock_coinbase:
  fixes E :: "'v miner_env"
  assumes "CreateNewBlock P C H E preferV4 pindexPrev view0 sapling_tree0 scan rand
             TestBlockValidity minerAddress None = Inr t"
  obtains cb c where
    "CreateCoinbaseTransaction P C preferV4 (nFees (run_selection P E pindexPrev view0 scan None))
       minerAddress (nHeight pindexPrev + 1) = (Inr cb, c)"
    "block_vtx t ! 0 = cb"
proof -
  let ?s = "run_selection P E pindexPrev view0 scan None"
  obtain r c where run: "CreateCoinbaseTransaction P C preferV4 (nFees ?s) minerAddress
                           (nHeight pindexPrev + 1) = (r, c)"
    by (cases "CreateCoinbaseTransaction P C preferV4 (nFees ?s) minerAddress (nHeight pindexPrev + 1)")
  from run_selection_vtx_nonempty [of P E pindexPrev view0 scan None]
  have ne: "0 < length (vtx ?s)" by simp
  from assms run obtain cb where r: "r = Inr cb" and t: "block_vtx t = (vtx ?s)[0 := cb]"
    unfolding CreateNewBlock_def Let_def
    by (cases r) (auto split: if_splits)
  from t ne have "block_vtx t ! 0 = cb" by simp
  with run r show thesis by (intro that [of cb c]) simp_all
qed


lemma select_loop_Nil:
  "vecPriority s = [] \<Longrightarrow> select_loop P E height dependers monitoring s = s"
  by (subst select_loop.simps) simp

lemma example_run_selection:
  "run_selection example_params example_env (example_tip_at h) 0 example_scan next_cb
     = selection_start example_params example_env (example_tip_at h) 0 [] []"
  by (simp add: run_selection_def example_scan_def select_loop_Nil selection_start_def Let_def)

lemma example_block_34:
  "\<exists>t. CreateNewBlock example_params example_crypto example_hashing example_env True
           (example_tip_at 34) 0 [40, 2] example_scan 0 (\<lambda>t. True) (SaplingMiner 9) None = Inr t
        \<and> length (block_vtx t) = 1"
  unfolding CreateNewBlock_def Let_def example_run_selection
  by (simp add: selection_start_def builder_defs example_defs example_tip_at_def example_tip_def
        example_hashing_def Let_def)

lemma example_block_4:
  "\<exists>t. CreateNewBlock example_params example_crypto example_hashing example_env True
           (example_tip_at 4) 0 [40, 2] example_scan 0 (\<lambda>t. True) (SaplingMiner 9) None = Inr t
        \<and> concat (map (\<lambda>tx. map (cmu example_hashing) (vShieldedOutput tx)) (block_vtx t)) = [800]"
  unfolding CreateNewBlock_def Let_def example_run_selection
  by (simp add: selection_start_def builder_defs example_defs example_tip_at_def example_tip_def
        example_hashing_def Let_def)

lemma example_blocks:
  "\<exists>t. CreateNewBlock example_params example_crypto example_hashing example_env True
           (example_tip_at 9) 0 [40, 2] example_scan 0 (\<lambda>t. True) (SaplingMiner 9) None = Inr t"
  "\<exists>t. CreateNewBlock example_params example_crypto example_hashing example_env True
           (example_tip_at 14) 0 [40, 2] example_scan 0 (\<lambda>t. True) (SaplingMiner 9) None = Inr t"
  unfolding CreateNewBlock_def Let_def example_run_selection
  by (simp_all add: selection_start_def builder_defs example_defs example_tip_at_def example_tip_def
        example_hashing_def Let_def)

section \<open>Claims about the coinbase transaction\<close>

text \<open>
  C7. Every execution path through the three builder variants is to free the Sapling
  proving context exactly once. The exits that the builder anticipates do so (lemma
  \<open>anticipated_exits_free_ctx\<close>), and the context is never freed twice (lemma
  \<open>AddOutputs_ctx_any\<close>). But the handler in \<open>ComputeBindingSig\<close> catches
  \<open>std::logic_error\<close> only: when the signature hash throws an exception of another type,
  each of the three variants leaves with the context initialised once and never freed,
  whereas a \<open>std::logic_error\<close> thrown at the same place frees it once.
\<close>

theorem proving_ctx_not_freed_on_other_exception:
  "CreateCoinbaseTransaction example_params leaking_crypto True 5 (ReserveScript [0x53]) 25
     = (Inl (other_exception ''std::bad_alloc''), 1, 0)
   \<and> CreateCoinbaseTransaction example_params leaking_crypto True 5 (SaplingMiner 9) 25
     = (Inl (other_exception ''std::bad_alloc''), 1, 0)
   \<and> CreateCoinbaseTransaction example_params leaking_crypto True 5 (OrchardMiner 9) 35
     = (Inl (other_exception ''std::bad_alloc''), 1, 0)
   \<and> CreateCoinbaseTransaction example_params logic_error_crypto True 5 (SaplingMiner 9) 25
     = (Inl logic_error, 1, 1)"
  by (simp add: builder_defs example_defs leaking_crypto_def logic_error_crypto_def)

text \<open>
  C1. For every height, fee total and miner address (transparent, Sapling or Orchard),
  \<open>CreateCoinbaseTransaction\<close> returns a transaction whenever the external calls of the
  builder succeed, and every transaction that it returns conserves value: the sum of its
  transparent outputs minus its shielded value balances (Sapling and Orchard, which the
  builder only decrements) is the block subsidy plus the fees, and the miner's own output is
  worth the subsidy minus the founders' reward or funding stream deductions plus the fees.
\<close>

theorem coinbase_conserves_value:
  "(proving_library_succeeds C \<longrightarrow>
      (\<exists>tx. CreateCoinbaseTransaction P C preferV4 fees minerAddress height = (Inr tx, 1, 1)))
   \<and> (\<forall>tx c. CreateCoinbaseTransaction P C preferV4 fees minerAddress height = (Inr tx, c) \<longrightarrow>
         coinbase_net_value tx = GetBlockSubsidy P height + fees
         \<and> miner_output_value minerAddress tx
             = Some (GetBlockSubsidy P height - deductions P height + fees))"
proof (intro conjI)
  show "proving_library_succeeds C \<longrightarrow>
      (\<exists>tx. CreateCoinbaseTransaction P C preferV4 fees minerAddress height = (Inr tx, 1, 1))"
  proof
  assume ok: "proving_library_succeeds C"
  from CreateCoinbaseTransaction_unfold [where P = P and h = height and a = minerAddress
      and ?preferV4.0 = preferV4 and C = C and fees = fees] obtain m3 where
    eq: "CreateCoinbaseTransaction P C preferV4 fees minerAddress height =
         (case AddOutputsToCoinbaseTxAndSign P C height fees minerAddress
                 \<lparr>mtx = m3, ctx_inits = 0, ctx_frees = 0\<rparr> of
            (Inl e, s) \<Rightarrow> (Inl e, ctx_inits s, ctx_frees s)
          | (Inr u, s) \<Rightarrow>
              (Inr ((mtx s)\<lparr>vin := (vin (mtx s))[0 := (vin (mtx s) ! 0)
                       \<lparr>scriptSig := push_opcode (push_int64 [] height) OP_0\<rparr>]\<rparr>),
               ctx_inits s, ctx_frees s))"
    by blast
  from AddOutputs_succeeds [OF ok, of P height fees minerAddress
      "\<lparr>mtx = m3, ctx_inits = 0, ctx_frees = 0\<rparr>"] obtain s where
    ao: "AddOutputsToCoinbaseTxAndSign P C height fees minerAddress
           \<lparr>mtx = m3, ctx_inits = 0, ctx_frees = 0\<rparr> = (Inr (), s)" ..
  from AddOutputs_ctx_any [OF ao] have "ctx_inits s = 1 \<and> ctx_frees s = 1" by simp
  with ao show "\<exists>tx. CreateCoinbaseTransaction P C preferV4 fees minerAddress height = (Inr tx, 1, 1)"
    unfolding eq by simp
  qed
next
  have "coinbase_net_value tx = GetBlockSubsidy P height + fees
         \<and> miner_output_value minerAddress tx
             = Some (GetBlockSubsidy P height - deductions P height + fees)"
    if run: "CreateCoinbaseTransaction P C preferV4 fees minerAddress height = (Inr tx, c)"
    for tx c
    using run
  proof (rule CreateCoinbaseTransaction_Inr)
    fix m3 u s
    assume ao: "AddOutputsToCoinbaseTxAndSign P C height fees minerAddress
                  \<lparr>mtx = m3, ctx_inits = 0, ctx_frees = 0\<rparr> = (Inr u, s)"
      and tx: "tx = (mtx s)\<lparr>vin := (vin (mtx s))[0 := (vin (mtx s) ! 0)
                        \<lparr>scriptSig := push_opcode (push_int64 [] height) OP_0\<rparr>]\<rparr>"
      and m3: "vout m3 = []" "valueBalanceSapling m3 = 0" "orchardBundle m3 = None"
    have "vout (mtx \<lparr>mtx = m3, ctx_inits = 0, ctx_frees = 0\<rparr>) = []"
      "valueBalanceSapling (mtx \<lparr>mtx = m3, ctx_inits = 0, ctx_frees = 0\<rparr>) = 0"
      "orchardBundle (mtx \<lparr>mtx = m3, ctx_inits = 0, ctx_frees = 0\<rparr>) = None"
      using m3 by simp_all
    from AddOutputs_value [OF ao this] have
      "coinbase_net_value (mtx s) = GetBlockSubsidy P height + fees
       \<and> miner_output_value minerAddress (mtx s)
           = Some (GetBlockSubsidy P height - deductions P height + fees)" .
    moreover have "coinbase_net_value tx = coinbase_net_value (mtx s)"
      by (simp add: tx coinbase_net_value_def transparent_value_out_def)
    moreover have "miner_output_value minerAddress tx = miner_output_value minerAddress (mtx s)"
      by (cases minerAddress) (simp_all add: tx)
    ultimately show ?thesis by simp
  qed
  then show "\<forall>tx c. CreateCoinbaseTransaction P C preferV4 fees minerAddress height = (Inr tx, c) \<longrightarrow>
         coinbase_net_value tx = GetBlockSubsidy P height + fees
         \<and> miner_output_value minerAddress tx
             = Some (GetBlockSubsidy P height - deductions P height + fees)"
    by blast
qed

theorem coinbase_conserves_value_witness:
  "proving_library_succeeds example_crypto
   \<and> (\<exists>tx. CreateCoinbaseTransaction example_params example_crypto True 5 (ReserveScript [0x53]) 25
              = (Inr tx, 1, 1)
        \<and> vout tx = [\<lparr>nValue = 855, scriptPubKey = [0x53]\<rparr>, \<lparr>nValue = 70, scriptPubKey = [0x51]\<rparr>]
        \<and> valueBalanceSapling tx = - 80 \<and> orchardBundle tx = None
        \<and> coinbase_net_value tx = 1005
        \<and> miner_output_value (ReserveScript [0x53]) tx = Some 855)
   \<and> (\<exists>tx. CreateCoinbaseTransaction example_params example_crypto True 5 (SaplingMiner 9) 25
              = (Inr tx, 1, 1)
        \<and> vout tx = [\<lparr>nValue = 70, scriptPubKey = [0x51]\<rparr>]
        \<and> valueBalanceSapling tx = - 935 \<and> orchardBundle tx = None
        \<and> coinbase_net_value tx = 1005
        \<and> miner_output_value (SaplingMiner 9) tx = Some 855)
   \<and> (\<exists>tx. CreateCoinbaseTransaction example_params example_crypto True 5 (OrchardMiner 9) 35
              = (Inr tx, 1, 1)
        \<and> vout tx = [\<lparr>nValue = 70, scriptPubKey = [0x51]\<rparr>]
        \<and> valueBalanceSapling tx = - 80
        \<and> GetValueBalance (orchardBundle tx) = - 855
        \<and> coinbase_net_value tx = 1005
        \<and> miner_output_value (OrchardMiner 9) tx = Some 855)"
proof -
  have ok: "proving_library_succeeds example_crypto"
    by (simp add: proving_library_succeeds_def example_crypto_def)
  have d: "GetBlockSubsidy example_params h - deductions example_params h + 5 = 855"
    if "20 \<le> h" for h
    using that by (simp add: example_params_def deductions_def)
  have sub: "GetBlockSubsidy example_params h + 5 = 1005" for h
    by (simp add: example_params_def)
  note inst = coinbase_conserves_value [where P = example_params and C = example_crypto
      and ?preferV4.0 = True and fees = 5]
  from inst [where minerAddress = "ReserveScript [0x53]" and height = 25, THEN conjunct1] ok
  obtain tx1 where r1: "CreateCoinbaseTransaction example_params example_crypto True 5
      (ReserveScript [0x53]) 25 = (Inr tx1, 1, 1)" by blast
  from inst [where minerAddress = "SaplingMiner 9" and height = 25, THEN conjunct1] ok
  obtain tx2 where r2: "CreateCoinbaseTransaction example_params example_crypto True 5
      (SaplingMiner 9) 25 = (Inr tx2, 1, 1)" by blast
  from inst [where minerAddress = "OrchardMiner 9" and height = 35, THEN conjunct1] ok
  obtain tx3 where r3: "CreateCoinbaseTransaction example_params example_crypto True 5
      (OrchardMiner 9) 35 = (Inr tx3, 1, 1)" by blast
  from inst [where minerAddress = "ReserveScript [0x53]" and height = 25, THEN conjunct2,
      rule_format, OF r1]
  have c1: "coinbase_net_value tx1 = 1005 \<and> miner_output_value (ReserveScript [0x53]) tx1 = Some 855"
    by (simp add: d sub)
  from inst [where minerAddress = "SaplingMiner 9" and height = 25, THEN conjunct2,
      rule_format, OF r2]
  have c2: "coinbase_net_value tx2 = 1005 \<and> miner_output_value (SaplingMiner 9) tx2 = Some 855"
    by (simp add: d sub)
  from inst [where minerAddress = "OrchardMiner 9" and height = 35, THEN conjunct2,
      rule_format, OF r3]
  have c3: "coinbase_net_value tx3 = 1005 \<and> miner_output_value (OrchardMiner 9) tx3 = Some 855"
    by (simp add: d sub)
  from r1 have v1: "vout tx1 = [\<lparr>nValue = 855, scriptPubKey = [0x53]\<rparr>, \<lparr>nValue = 70, scriptPubKey = [0x51]\<rparr>]
      \<and> valueBalanceSapling tx1 = - 80 \<and> orchardBundle tx1 = None"
    by (auto simp: builder_defs example_defs)
  from r2 have v2: "vout tx2 = [\<lparr>nValue = 70, scriptPubKey = [0x51]\<rparr>]
      \<and> valueBalanceSapling tx2 = - 935 \<and> orchardBundle tx2 = None"
    by (auto simp: builder_defs example_defs)
  from r3 have v3: "vout tx3 = [\<lparr>nValue = 70, scriptPubKey = [0x51]\<rparr>]
      \<and> valueBalanceSapling tx3 = - 80 \<and> GetValueBalance (orchardBundle tx3) = - 855"
    by (auto simp: builder_defs example_defs GetValueBalance_def)
  from ok r1 r2 r3 c1 c2 c3 v1 v2 v3 show ?thesis by simp
qed

text \<open>
  C5. The coinbase transaction that \<open>CreateCoinbaseTransaction\<close> returns has
  \<open>nExpiryHeight\<close> equal to the height when NU5 is active at that height and equal to 0
  otherwise (the field is a \<open>uint32_t\<close>: it holds the height as a 32-bit value, which
  is the height itself from 0 up to \<open>2^32 - 1\<close>), and it has exactly one input, whose
  previous outpoint is null.
\<close>

theorem coinbase_expiry_and_input:
  assumes run: "CreateCoinbaseTransaction P C preferV4 fees minerAddress height = (Inr tx, c)"
  shows "nExpiryHeight tx
           = (if NetworkUpgradeActive P height UPGRADE_NU5 then word_of_int height else 0)
         \<and> (0 \<le> height \<and> height < 2 ^ 32 \<longrightarrow>
              uint (nExpiryHeight tx)
                = (if NetworkUpgradeActive P height UPGRADE_NU5 then height else 0))
         \<and> length (vin tx) = 1 \<and> IsNull (prevout (vin tx ! 0))"
  using run
proof (rule CreateCoinbaseTransaction_Inr)
  fix m3 u s
  assume ao: "AddOutputsToCoinbaseTxAndSign P C height fees minerAddress
                \<lparr>mtx = m3, ctx_inits = 0, ctx_frees = 0\<rparr> = (Inr u, s)"
    and tx: "tx = (mtx s)\<lparr>vin := (vin (mtx s))[0 := (vin (mtx s) ! 0)
                      \<lparr>scriptSig := push_opcode (push_int64 [] height) OP_0\<rparr>]\<rparr>"
    and m3: "length (vin m3) = 1" "prevout (vin m3 ! 0) = COutPoint_Null"
      "nExpiryHeight m3 = (if NetworkUpgradeActive P height UPGRADE_NU5 then word_of_int height else 0)"
  from AddOutputs_frame [OF ao] have fr: "vin (mtx s) = vin m3" "nExpiryHeight (mtx s) = nExpiryHeight m3"
    by simp_all
  have e: "nExpiryHeight tx
             = (if NetworkUpgradeActive P height UPGRADE_NU5 then word_of_int height else 0)"
    by (simp add: tx fr m3)
  have "uint (word_of_int height :: 32 word) = height" if "0 \<le> height \<and> height < 2 ^ 32"
    using that by (simp add: uint_word_of_int)
  with e have u: "0 \<le> height \<and> height < 2 ^ 32 \<longrightarrow>
                    uint (nExpiryHeight tx)
                      = (if NetworkUpgradeActive P height UPGRADE_NU5 then height else 0)"
    by simp
  have "length (vin tx) = 1 \<and> IsNull (prevout (vin tx ! 0))"
    using m3 by (simp add: tx fr IsNull_def COutPoint_Null_def)
  with e u show ?thesis by simp
qed

theorem coinbase_expiry_and_input_witness:
  "(\<exists>tx c. CreateCoinbaseTransaction example_params example_crypto True 5 (ReserveScript [0x53]) 35
              = (Inr tx, c)
      \<and> uint (nExpiryHeight tx) = 35 \<and> length (vin tx) = 1 \<and> IsNull (prevout (vin tx ! 0)))
   \<and> (\<exists>tx c. CreateCoinbaseTransaction example_params example_crypto True 5 (ReserveScript [0x53]) 25
              = (Inr tx, c)
      \<and> uint (nExpiryHeight tx) = 0 \<and> length (vin tx) = 1 \<and> IsNull (prevout (vin tx ! 0)))"
proof -
  obtain tx c where run:
    "CreateCoinbaseTransaction example_params example_crypto True 5 (ReserveScript [0x53]) 35 = (Inr tx, c)"
    by (simp add: builder_defs example_defs)
  obtain tx' c' where run':
    "CreateCoinbaseTransaction example_params example_crypto True 5 (ReserveScript [0x53]) 25 = (Inr tx', c')"
    by (simp add: builder_defs example_defs)
  from coinbase_expiry_and_input [OF run] coinbase_expiry_and_input [OF run'] run run'
  show ?thesis by (simp add: example_defs)
qed

text \<open>
  C6. \<open>CreateNewBlock\<close> builds the coinbase for the height after the tip, and the height
  of a block index is never negative, so the height handed to the builder is positive (the
  branch is guarded by \<open>nHeight > 0\<close>; at a height that is not positive nothing would be
  deducted, lemma \<open>SetFounders_nonpositive_height\<close>). If Canopy is not active at that height and the
  height is at most the last founders' reward height, then
  \<open>SetFoundersRewardAndGetMinerValue\<close> appends one transparent output worth one fifth of
  the block subsidy (the quotient of the integer division) paying the founders' script of
  that height, changes nothing else, never throws, and returns the miner's value, the
  subsidy minus that fifth plus the fees. In the coinbase that \<open>CreateCoinbaseTransaction\<close>
  returns, and in the coinbase of the template that \<open>CreateNewBlock\<close> returns, the
  transparent outputs are the miner's output (for a transparent miner address) followed by
  that one founders' output, and the miner's own output is worth the subsidy minus the
  fifth plus the fees.
\<close>

theorem founders_reward_output:
  fixes E :: "'v miner_env"
  assumes tip: "0 \<le> nHeight pindexPrev"
    and canopy: "\<not> NetworkUpgradeActive P (nHeight pindexPrev + 1) UPGRADE_CANOPY"
    and last: "nHeight pindexPrev + 1 \<le> GetLastFoundersRewardBlockHeight P (nHeight pindexPrev + 1)"
  shows
    "(let height = nHeight pindexPrev + 1;
          subsidy = GetBlockSubsidy P height;
          founders = \<lparr>nValue = subsidy sdiv 5,
                      scriptPubKey = GetFoundersRewardScriptAtHeight P height\<rparr>;
          miner_outputs = (\<lambda>f. case minerAddress of
                             ReserveScript sc \<Rightarrow>
                               [\<lparr>nValue = subsidy - subsidy sdiv 5 + f, scriptPubKey = sc\<rparr>]
                           | _ \<Rightarrow> [])
      in SetFoundersRewardAndGetMinerValue P C height fees s
           = (Inr (subsidy - subsidy sdiv 5 + fees),
              s\<lparr>mtx := (mtx s)\<lparr>vout := vout (mtx s) @ [founders]\<rparr>\<rparr>)
         \<and> (\<forall>tx c. CreateCoinbaseTransaction P C preferV4 fees minerAddress height = (Inr tx, c) \<longrightarrow>
               vout tx = miner_outputs fees @ [founders]
               \<and> miner_output_value minerAddress tx = Some (subsidy - subsidy sdiv 5 + fees))
         \<and> (\<forall>t. CreateNewBlock P C H E preferV4 pindexPrev view0 sapling_tree0 scan rand
                    TestBlockValidity minerAddress None = Inr t \<longrightarrow>
               vout (block_vtx t ! 0)
                 = miner_outputs (nFees (run_selection P E pindexPrev view0 scan None)) @ [founders]
               \<and> miner_output_value minerAddress (block_vtx t ! 0)
                   = Some (subsidy - subsidy sdiv 5
                           + nFees (run_selection P E pindexPrev view0 scan None))))"
proof -
  let ?h = "nHeight pindexPrev + 1"
  let ?sub = "GetBlockSubsidy P ?h"
  let ?founders = "\<lparr>nValue = ?sub sdiv 5, scriptPubKey = GetFoundersRewardScriptAtHeight P ?h\<rparr>"
  let ?outs = "\<lambda>f. case minerAddress of
                      ReserveScript sc \<Rightarrow> [\<lparr>nValue = ?sub - ?sub sdiv 5 + f, scriptPubKey = sc\<rparr>]
                    | _ \<Rightarrow> []"
  from tip have pos: "0 < ?h" by simp
  from pos canopy last have ded: "deductions P ?h = ?sub sdiv 5"
    by (simp add: deductions_def)
  have a: "SetFoundersRewardAndGetMinerValue P C ?h fees s
           = (Inr (?sub - ?sub sdiv 5 + fees),
              s\<lparr>mtx := (mtx s)\<lparr>vout := vout (mtx s) @ [?founders]\<rparr>\<rparr>)"
    by (rule SetFounders_founders [OF pos canopy last])
  have b: "vout tx = ?outs f @ [?founders]
           \<and> miner_output_value minerAddress tx = Some (?sub - ?sub sdiv 5 + f)"
    if run: "CreateCoinbaseTransaction P C preferV4 f minerAddress ?h = (Inr tx, c)" for f tx c
    using run
  proof (rule CreateCoinbaseTransaction_Inr)
    fix m3 u and s' :: cb_state
    assume ao: "AddOutputsToCoinbaseTxAndSign P C ?h f minerAddress
                  \<lparr>mtx = m3, ctx_inits = 0, ctx_frees = 0\<rparr> = (Inr u, s')"
      and tx: "tx = (mtx s')\<lparr>vin := (vin (mtx s'))[0 := (vin (mtx s') ! 0)
                        \<lparr>scriptSig := push_opcode (push_int64 [] ?h) OP_0\<rparr>]\<rparr>"
      and m3: "vout m3 = []" "valueBalanceSapling m3 = 0" "orchardBundle m3 = None"
    have fresh: "vout (mtx \<lparr>mtx = m3, ctx_inits = 0, ctx_frees = 0\<rparr>) = []"
      "valueBalanceSapling (mtx \<lparr>mtx = m3, ctx_inits = 0, ctx_frees = 0\<rparr>) = 0"
      "orchardBundle (mtx \<lparr>mtx = m3, ctx_inits = 0, ctx_frees = 0\<rparr>) = None"
      using m3 by simp_all
    from AddOutputs_founders_vout [OF ao fresh(1) pos canopy last]
    have v: "vout tx = ?outs f @ [?founders]" by (simp add: tx)
    from AddOutputs_value [OF ao fresh] ded
    have "miner_output_value minerAddress (mtx s') = Some (?sub - ?sub sdiv 5 + f)" by simp
    moreover have "miner_output_value minerAddress tx = miner_output_value minerAddress (mtx s')"
      by (cases minerAddress) (simp_all add: tx)
    ultimately show ?thesis using v by simp
  qed
  have c: "vout (block_vtx t ! 0)
             = ?outs (nFees (run_selection P E pindexPrev view0 scan None)) @ [?founders]
           \<and> miner_output_value minerAddress (block_vtx t ! 0)
               = Some (?sub - ?sub sdiv 5 + nFees (run_selection P E pindexPrev view0 scan None))"
    if blk: "CreateNewBlock P C H E preferV4 pindexPrev view0 sapling_tree0 scan rand
               TestBlockValidity minerAddress None = Inr t" for t
    using blk
  proof (rule CreateNewBlock_coinbase)
    fix cb c
    assume "CreateCoinbaseTransaction P C preferV4 (nFees (run_selection P E pindexPrev view0 scan None))
              minerAddress (nHeight pindexPrev + 1) = (Inr cb, c)"
      and "block_vtx t ! 0 = cb"
    with b [of "nFees (run_selection P E pindexPrev view0 scan None)" cb c] show ?thesis by simp
  qed
  from a b c show ?thesis unfolding Let_def by blast
qed

theorem founders_reward_output_witness:
  "0 \<le> nHeight (example_tip_at 14)
   \<and> \<not> NetworkUpgradeActive example_params 15 UPGRADE_CANOPY
   \<and> 15 \<le> GetLastFoundersRewardBlockHeight example_params 15
   \<and> SetFoundersRewardAndGetMinerValue example_params example_crypto 15 5
        \<lparr>mtx = CreateNewContextualCMutableTransaction example_params 15 True,
         ctx_inits = 1, ctx_frees = 0\<rparr>
      = (Inr 805,
         \<lparr>mtx = (CreateNewContextualCMutableTransaction example_params 15 True)
                  \<lparr>vout := [\<lparr>nValue = 200, scriptPubKey = [0x52]\<rparr>]\<rparr>,
          ctx_inits = 1, ctx_frees = 0\<rparr>)
   \<and> (\<exists>tx c. CreateCoinbaseTransaction example_params example_crypto True 5 (ReserveScript [0x53]) 15
                = (Inr tx, c)
         \<and> vout tx = [\<lparr>nValue = 805, scriptPubKey = [0x53]\<rparr>, \<lparr>nValue = 200, scriptPubKey = [0x52]\<rparr>]
         \<and> miner_output_value (ReserveScript [0x53]) tx = Some 805)
   \<and> (\<exists>t. CreateNewBlock example_params example_crypto example_hashing example_env True
              (example_tip_at 14) 0 [40, 2] example_scan 0 (\<lambda>t. True) (SaplingMiner 9) None = Inr t
         \<and> vout (block_vtx t ! 0) = [\<lparr>nValue = 200, scriptPubKey = [0x52]\<rparr>]
         \<and> miner_output_value (SaplingMiner 9) (block_vtx t ! 0) = Some 800)"
proof -
  have h: "0 \<le> nHeight (example_tip_at 14)"
    "\<not> NetworkUpgradeActive example_params (nHeight (example_tip_at 14) + 1) UPGRADE_CANOPY"
    "nHeight (example_tip_at 14) + 1
       \<le> GetLastFoundersRewardBlockHeight example_params (nHeight (example_tip_at 14) + 1)"
    by (simp_all add: example_defs example_tip_at_def)
  have nh: "nHeight (example_tip_at 14) + 1 = 15" by (simp add: example_tip_at_def)
  have e: "GetBlockSubsidy example_params 15 = 1000"
    "GetFoundersRewardScriptAtHeight example_params 15 = [0x52]"
    "\<not> NetworkUpgradeActive example_params 15 UPGRADE_CANOPY"
    "15 \<le> GetLastFoundersRewardBlockHeight example_params 15"
    by (simp_all add: example_defs)
  have f: "nFees (run_selection example_params example_env (example_tip_at 14) 0 example_scan None) = 0"
    by (simp add: example_run_selection selection_start_def)
  obtain tx c where run:
    "CreateCoinbaseTransaction example_params example_crypto True 5 (ReserveScript [0x53]) 15 = (Inr tx, c)"
    by (simp add: builder_defs example_defs)
  from example_blocks(2) obtain t where blk:
    "CreateNewBlock example_params example_crypto example_hashing example_env True
       (example_tip_at 14) 0 [40, 2] example_scan 0 (\<lambda>t. True) (SaplingMiner 9) None = Inr t" ..
  from founders_reward_output [OF h, where C = example_crypto and fees = 5 and ?preferV4.0 = True
      and minerAddress = "ReserveScript [0x53]" and E = example_env
      and s = "\<lparr>mtx = CreateNewContextualCMutableTransaction example_params 15 True,
                ctx_inits = 1, ctx_frees = 0\<rparr>"] run
  have a: "SetFoundersRewardAndGetMinerValue example_params example_crypto 15 5
        \<lparr>mtx = CreateNewContextualCMutableTransaction example_params 15 True,
         ctx_inits = 1, ctx_frees = 0\<rparr>
      = (Inr 805,
         \<lparr>mtx = (CreateNewContextualCMutableTransaction example_params 15 True)
                  \<lparr>vout := [\<lparr>nValue = 200, scriptPubKey = [0x52]\<rparr>]\<rparr>,
          ctx_inits = 1, ctx_frees = 0\<rparr>)"
    and b: "vout tx = [\<lparr>nValue = 805, scriptPubKey = [0x53]\<rparr>, \<lparr>nValue = 200, scriptPubKey = [0x52]\<rparr>]
         \<and> miner_output_value (ReserveScript [0x53]) tx = Some 805"
    by (simp_all add: nh e Let_def CreateNewContextualCMutableTransaction_def)
  from founders_reward_output [OF h, where C = example_crypto and ?preferV4.0 = True
      and minerAddress = "SaplingMiner 9" and E = example_env and H = example_hashing
      and ?view0.0 = 0 and ?sapling_tree0.0 = "[40, 2]" and scan = example_scan and rand = 0
      and TestBlockValidity = "\<lambda>t. True"] blk
  have c: "vout (block_vtx t ! 0) = [\<lparr>nValue = 200, scriptPubKey = [0x52]\<rparr>]
         \<and> miner_output_value (SaplingMiner 9) (block_vtx t ! 0) = Some 800"
    by (simp add: nh e f Let_def)
  from h(1) e(3,4) a b c run blk show ?thesis by blast
qed

section \<open>Claims about the selection of transactions\<close>

text \<open>
  C2. The selection starts with block size 1000, sigops 100 and no fees. A popped
  transaction is skipped (nothing is added and the counters stay) whenever the running size
  plus its size reaches \<open>nBlockMaxSize\<close>, or the running sigops plus its legacy sigops
  reach \<open>MAX_BLOCK_SIGOPS\<close>, or the running sigops plus its legacy and P2SH sigops do (the
  sums are those of the machine: 64-bit for sizes, 32-bit for sigops). Every iteration
  either leaves the block and the counters as they are, or appends the popped transaction
  and adds its size to the counted size and its legacy and P2SH sigops to the counted
  sigops, the new counts being below the limits. Hence in every state that the loop passes
  through, and in the state it ends in, the counted size is 1000 plus the sizes of the
  transactions added (without wrapping) and is at most \<open>nBlockMaxSize\<close>, and the counted
  sigops are 100 plus the sigops recorded for the transactions added (as a 32-bit sum) and
  are at most \<open>MAX_BLOCK_SIGOPS\<close> once a transaction has been accepted (and from the start
  when that limit is at least 100).
\<close>

theorem selection_respects_limits:
  fixes E :: "'v miner_env"
  shows
    "nBlockSize (selection_start P E pindexPrev view0 q0 o0) = 1000
     \<and> nBlockSigOps (selection_start P E pindexPrev view0 q0 o0) = 100
     \<and> nFees (selection_start P E pindexPrev view0 q0 o0) = 0
     \<and> (vecPriority s \<noteq> [] \<longrightarrow>
         (let tx = get3 (fst (pop_heap (TxPriorityCompare (fSortedByFee s)) (vecPriority s)))
          in nBlockSize s + ucast (GetSerializeSize E tx) \<ge> ucast (nBlockMaxSize E)
             \<or> nBlockSigOps s + GetLegacySigOpCount E tx \<ge> MAX_BLOCK_SIGOPS E
             \<or> nBlockSigOps s + GetLegacySigOpCount E tx + GetP2SHSigOpCount E tx (view s)
                  \<ge> MAX_BLOCK_SIGOPS E) \<longrightarrow>
         vtx (select_step P E height dependers monitoring s) = vtx s
         \<and> nBlockSize (select_step P E height dependers monitoring s) = nBlockSize s
         \<and> nBlockSigOps (select_step P E height dependers monitoring s) = nBlockSigOps s
         \<and> nFees (select_step P E height dependers monitoring s) = nFees s)
     \<and> (vecPriority s \<noteq> [] \<longrightarrow>
         (let tx = get3 (fst (pop_heap (TxPriorityCompare (fSortedByFee s)) (vecPriority s)));
              nTxSigOps = GetLegacySigOpCount E tx + GetP2SHSigOpCount E tx (view s);
              s' = select_step P E height dependers monitoring s
          in (vtx s' = vtx s @ [tx]
              \<and> nBlockSize s' = nBlockSize s + ucast (GetSerializeSize E tx)
              \<and> nBlockSigOps s' = nBlockSigOps s + nTxSigOps
              \<and> vTxSigOps s' = vTxSigOps s @ [uint nTxSigOps]
              \<and> nBlockSize s' < ucast (nBlockMaxSize E)
              \<and> nBlockSigOps s' < MAX_BLOCK_SIGOPS E)
             \<or> (vtx s' = vtx s \<and> nBlockSize s' = nBlockSize s
                 \<and> nBlockSigOps s' = nBlockSigOps s \<and> vTxSigOps s' = vTxSigOps s)))
     \<and> (let s' = select_iter P E height dependers monitoring n
                    (selection_start P E pindexPrev view0 q0 o0)
         in nBlockSize s' \<le> ucast (nBlockMaxSize E)
            \<and> (1 < length (vtx s') \<or> 100 \<le> MAX_BLOCK_SIGOPS E \<longrightarrow>
                 nBlockSigOps s' \<le> MAX_BLOCK_SIGOPS E)
            \<and> unat (nBlockSize s')
                = 1000 + sum_list (map (\<lambda>tx. unat (GetSerializeSize E tx)) (tl (vtx s')))
            \<and> nBlockSigOps s' = 100 + word_of_int (sum_list (tl (vTxSigOps s')))
            \<and> length (vTxSigOps s') = length (vtx s'))
     \<and> (let s' = select_loop P E height dependers monitoring
                    (selection_start P E pindexPrev view0 q0 o0)
         in nBlockSize s' \<le> ucast (nBlockMaxSize E)
            \<and> (1 < length (vtx s') \<or> 100 \<le> MAX_BLOCK_SIGOPS E \<longrightarrow>
                 nBlockSigOps s' \<le> MAX_BLOCK_SIGOPS E)
            \<and> unat (nBlockSize s')
                = 1000 + sum_list (map (\<lambda>tx. unat (GetSerializeSize E tx)) (tl (vtx s')))
            \<and> nBlockSigOps s' = 100 + word_of_int (sum_list (tl (vTxSigOps s')))
            \<and> length (vTxSigOps s') = length (vtx s'))"
proof -
  let ?start = "selection_start P E pindexPrev view0 q0 o0"
  let ?I = "\<lambda>s :: 'v selection. nBlockSize s \<le> ucast (nBlockMaxSize E) \<and> vtx s \<noteq> []
           \<and> (nBlockSigOps s \<le> MAX_BLOCK_SIGOPS E \<or> (length (vtx s) = 1 \<and> nBlockSigOps s = 100))"
  let ?J = "\<lambda>s :: 'v selection.
           vtx s \<noteq> [] \<and> length (vTxSigOps s) = length (vtx s) \<and> length (vTxFees s) = length (vtx s)
           \<and> nBlockSize s \<le> ucast (nBlockMaxSize E)
           \<and> unat (nBlockSize s)
               = 1000 + sum_list (map (\<lambda>tx. unat (GetSerializeSize E tx)) (tl (vtx s)))
           \<and> nBlockSigOps s = 100 + word_of_int (sum_list (tl (vTxSigOps s)))
           \<and> nFees s = sum_list (tl (vTxFees s))
           \<and> nBlockTx s + 1 = of_nat (length (vtx s))"
  have start: "nBlockSize ?start = 1000 \<and> nBlockSigOps ?start = 100 \<and> nFees ?start = 0"
    by (simp add: selection_start_def)
  have I0: "?I ?start"
    using nBlockMaxSize_ge [of E] by (simp add: selection_start_def)
  have J0: "?J ?start"
    using nBlockMaxSize_ge [of E] by (simp add: selection_start_def)
  have iter: "?I (select_iter P E height dependers monitoring k ?start)" for k
    by (rule select_iter_invariant [where I = ?I, OF _ I0]) (rule select_step_limits)
  have iterJ: "?J (select_iter P E height dependers monitoring k ?start)" for k
    by (rule select_iter_invariant [where I = ?J, OF _ J0]) (rule select_step_counts)
  have concl: "nBlockSize s' \<le> ucast (nBlockMaxSize E)
            \<and> (1 < length (vtx s') \<or> 100 \<le> MAX_BLOCK_SIGOPS E \<longrightarrow>
                 nBlockSigOps s' \<le> MAX_BLOCK_SIGOPS E)
            \<and> unat (nBlockSize s')
                = 1000 + sum_list (map (\<lambda>tx. unat (GetSerializeSize E tx)) (tl (vtx s')))
            \<and> nBlockSigOps s' = 100 + word_of_int (sum_list (tl (vTxSigOps s')))
            \<and> length (vTxSigOps s') = length (vtx s')"
    if "?I s'" and "?J s'" for s' :: "'v selection"
    using that by auto
  have skip: "vtx (select_step P E height dependers monitoring s) = vtx s
         \<and> nBlockSize (select_step P E height dependers monitoring s) = nBlockSize s
         \<and> nBlockSigOps (select_step P E height dependers monitoring s) = nBlockSigOps s
         \<and> nFees (select_step P E height dependers monitoring s) = nFees s"
    if "let tx = get3 (fst (pop_heap (TxPriorityCompare (fSortedByFee s)) (vecPriority s)))
          in nBlockSize s + ucast (GetSerializeSize E tx) \<ge> ucast (nBlockMaxSize E)
             \<or> nBlockSigOps s + GetLegacySigOpCount E tx \<ge> MAX_BLOCK_SIGOPS E
             \<or> nBlockSigOps s + GetLegacySigOpCount E tx + GetP2SHSigOpCount E tx (view s)
                  \<ge> MAX_BLOCK_SIGOPS E"
  proof (cases rule: select_step_outcome [where P = P and E = E and height = height
      and dependers = dependers and monitoring = monitoring and s = s])
    case (skipped v)
    then show ?thesis by simp
  next
    case (added s1 s2)
    from added(5,6,7) that show ?thesis by (simp add: Let_def add.assoc)
  qed
  have step: "let tx = get3 (fst (pop_heap (TxPriorityCompare (fSortedByFee s)) (vecPriority s)));
              nTxSigOps = GetLegacySigOpCount E tx + GetP2SHSigOpCount E tx (view s);
              s' = select_step P E height dependers monitoring s
          in (vtx s' = vtx s @ [tx]
              \<and> nBlockSize s' = nBlockSize s + ucast (GetSerializeSize E tx)
              \<and> nBlockSigOps s' = nBlockSigOps s + nTxSigOps
              \<and> vTxSigOps s' = vTxSigOps s @ [uint nTxSigOps]
              \<and> nBlockSize s' < ucast (nBlockMaxSize E)
              \<and> nBlockSigOps s' < MAX_BLOCK_SIGOPS E)
             \<or> (vtx s' = vtx s \<and> nBlockSize s' = nBlockSize s
                 \<and> nBlockSigOps s' = nBlockSigOps s \<and> vTxSigOps s' = vTxSigOps s)"
  proof (cases rule: select_step_outcome [where P = P and E = E and height = height
      and dependers = dependers and monitoring = monitoring and s = s])
    case (skipped v)
    then show ?thesis by (simp add: Let_def)
  next
    case (added s1 s2)
    from added(5) have "nBlockSize (select_step P E height dependers monitoring s)
                          < ucast (nBlockMaxSize E)"
      unfolding added(11) by (rule linorder_not_le [THEN iffD1])
    moreover from added(7) have "nBlockSigOps (select_step P E height dependers monitoring s)
                          < MAX_BLOCK_SIGOPS E"
      unfolding added(12) by (rule linorder_not_le [THEN iffD1])
    ultimately show ?thesis using added(10,11,12,17) by (simp add: Let_def)
  qed
  have c4: "vecPriority s \<noteq> [] \<longrightarrow>
         (let tx = get3 (fst (pop_heap (TxPriorityCompare (fSortedByFee s)) (vecPriority s)))
          in nBlockSize s + ucast (GetSerializeSize E tx) \<ge> ucast (nBlockMaxSize E)
             \<or> nBlockSigOps s + GetLegacySigOpCount E tx \<ge> MAX_BLOCK_SIGOPS E
             \<or> nBlockSigOps s + GetLegacySigOpCount E tx + GetP2SHSigOpCount E tx (view s)
                  \<ge> MAX_BLOCK_SIGOPS E) \<longrightarrow>
         vtx (select_step P E height dependers monitoring s) = vtx s
         \<and> nBlockSize (select_step P E height dependers monitoring s) = nBlockSize s
         \<and> nBlockSigOps (select_step P E height dependers monitoring s) = nBlockSigOps s
         \<and> nFees (select_step P E height dependers monitoring s) = nFees s"
    using skip by blast
  have c5: "vecPriority s \<noteq> [] \<longrightarrow>
         (let tx = get3 (fst (pop_heap (TxPriorityCompare (fSortedByFee s)) (vecPriority s)));
              nTxSigOps = GetLegacySigOpCount E tx + GetP2SHSigOpCount E tx (view s);
              s' = select_step P E height dependers monitoring s
          in (vtx s' = vtx s @ [tx]
              \<and> nBlockSize s' = nBlockSize s + ucast (GetSerializeSize E tx)
              \<and> nBlockSigOps s' = nBlockSigOps s + nTxSigOps
              \<and> vTxSigOps s' = vTxSigOps s @ [uint nTxSigOps]
              \<and> nBlockSize s' < ucast (nBlockMaxSize E)
              \<and> nBlockSigOps s' < MAX_BLOCK_SIGOPS E)
             \<or> (vtx s' = vtx s \<and> nBlockSize s' = nBlockSize s
                 \<and> nBlockSigOps s' = nBlockSigOps s \<and> vTxSigOps s' = vTxSigOps s))"
    using step by (rule impI)
  have c6: "let s' = select_iter P E height dependers monitoring n ?start
         in nBlockSize s' \<le> ucast (nBlockMaxSize E)
            \<and> (1 < length (vtx s') \<or> 100 \<le> MAX_BLOCK_SIGOPS E \<longrightarrow>
                 nBlockSigOps s' \<le> MAX_BLOCK_SIGOPS E)
            \<and> unat (nBlockSize s')
                = 1000 + sum_list (map (\<lambda>tx. unat (GetSerializeSize E tx)) (tl (vtx s')))
            \<and> nBlockSigOps s' = 100 + word_of_int (sum_list (tl (vTxSigOps s')))
            \<and> length (vTxSigOps s') = length (vtx s')"
    unfolding Let_def by (rule concl [OF iter [of n] iterJ [of n]])
  have c7: "let s' = select_loop P E height dependers monitoring ?start
         in nBlockSize s' \<le> ucast (nBlockMaxSize E)
            \<and> (1 < length (vtx s') \<or> 100 \<le> MAX_BLOCK_SIGOPS E \<longrightarrow>
                 nBlockSigOps s' \<le> MAX_BLOCK_SIGOPS E)
            \<and> unat (nBlockSize s')
                = 1000 + sum_list (map (\<lambda>tx. unat (GetSerializeSize E tx)) (tl (vtx s')))
            \<and> nBlockSigOps s' = 100 + word_of_int (sum_list (tl (vTxSigOps s')))
            \<and> length (vTxSigOps s') = length (vtx s')"
    unfolding Let_def select_loop_iter
    by (rule concl [OF iter [of "remaining ?start"] iterJ [of "remaining ?start"]])
  from start c4 c5 c6 c7 show ?thesis by (elim conjE, intro conjI) assumption+
qed


theorem selection_respects_limits_witness:
  "vecPriority example_state1 \<noteq> []
   \<and> get3 (fst (pop_heap (TxPriorityCompare (fSortedByFee example_state1))
                  (vecPriority example_state1))) = example_tx 2 0
   \<and> nBlockSize example_state1 + ucast (GetSerializeSize example_env (example_tx 2 0))
        \<ge> ucast (nBlockMaxSize example_env)
   \<and> vtx (select_step example_params example_env 25 (\<lambda>h. None) True example_state1)
        = vtx example_state1
   \<and> 1 < length (vtx (select_iter example_params example_env 25 (\<lambda>h. None) True (Suc 0) example_start))
   \<and> nBlockSize (select_iter example_params example_env 25 (\<lambda>h. None) True (Suc 0) example_start)
        \<le> ucast (nBlockMaxSize example_env)
   \<and> nBlockSigOps (select_iter example_params example_env 25 (\<lambda>h. None) True (Suc 0) example_start)
        \<le> MAX_BLOCK_SIGOPS example_env
   \<and> vecPriority example_start \<noteq> []
   \<and> get3 (fst (pop_heap (TxPriorityCompare (fSortedByFee example_start))
                  (vecPriority example_start))) = example_tx 1 (- 2)
   \<and> vtx (select_step example_params example_env 25 (\<lambda>h. None) True example_start)
        = vtx example_start @ [example_tx 1 (- 2)]
   \<and> nBlockSize (select_step example_params example_env 25 (\<lambda>h. None) True example_start)
        = 1000 + 250
   \<and> nBlockSigOps (select_step example_params example_env 25 (\<lambda>h. None) True example_start)
        = 100 + 3
   \<and> tl (vtx (select_iter example_params example_env 25 (\<lambda>h. None) True (Suc 0) example_start))
        = [example_tx 1 (- 2)]
   \<and> unat (nBlockSize (select_iter example_params example_env 25 (\<lambda>h. None) True (Suc 0) example_start))
        = 1250
   \<and> nBlockSigOps (select_iter example_params example_env 25 (\<lambda>h. None) True (Suc 0) example_start)
        = 103"
proof -
  have front: "get3 (fst (pop_heap (TxPriorityCompare (fSortedByFee example_state1))
                  (vecPriority example_state1))) = example_tx 2 0"
    by (simp add: example_state1_def pop_heap_def TxPriorityCompare_def get0_def get1_def get2_def
          get3_def example_tx_def CTransaction_default_def Let_def)
  have gate: "nBlockSize example_state1 + ucast (GetSerializeSize example_env (example_tx 2 0))
        \<ge> ucast (nBlockMaxSize example_env)"
    by (simp add: example_state1_def example_env_def example_tx_def nBlockMaxSize_def
          CTransaction_default_def)
  have ne: "vecPriority example_state1 \<noteq> []" by (simp add: example_state1_def)
  have len: "1 < length (vtx (select_iter example_params example_env 25 (\<lambda>h. None) True (Suc 0)
                                example_start))"
    unfolding example_first_iteration by (simp add: example_state1_def)
  have tl1: "tl (vtx (select_iter example_params example_env 25 (\<lambda>h. None) True (Suc 0) example_start))
        = [example_tx 1 (- 2)]"
    "tl (vTxSigOps (select_iter example_params example_env 25 (\<lambda>h. None) True (Suc 0) example_start))
        = [3]"
    unfolding example_first_iteration by (simp_all add: example_state1_def)
  have sz: "unat (GetSerializeSize example_env (example_tx 1 (- 2))) = 250"
    by (simp add: example_env_def example_tx_def CTransaction_default_def)
  note at_state1 = selection_respects_limits [where P = example_params and E = example_env
      and pindexPrev = example_tip and ?view0.0 = 0 and ?q0.0 = example_queue and ?o0.0 = "[]"
      and s = example_state1 and height = 25 and dependers = "\<lambda>h. None" and monitoring = True
      and n = "Suc 0"]
  from at_state1 [THEN conjunct2, THEN conjunct2, THEN conjunct2, THEN conjunct1] front gate ne
  have a1: "vtx (select_step example_params example_env 25 (\<lambda>h. None) True example_state1)
        = vtx example_state1"
    by (simp add: Let_def)
  note at_iter = at_state1 [THEN conjunct2, THEN conjunct2, THEN conjunct2, THEN conjunct2,
        THEN conjunct2, THEN conjunct1, folded example_start_def]
  from at_iter len
  have a2: "nBlockSize (select_iter example_params example_env 25 (\<lambda>h. None) True (Suc 0) example_start)
        \<le> ucast (nBlockMaxSize example_env)
   \<and> nBlockSigOps (select_iter example_params example_env 25 (\<lambda>h. None) True (Suc 0) example_start)
        \<le> MAX_BLOCK_SIGOPS example_env"
    unfolding Let_def by blast
  from at_iter tl1 sz
  have a3: "unat (nBlockSize (select_iter example_params example_env 25 (\<lambda>h. None) True (Suc 0) example_start))
        = 1250
   \<and> nBlockSigOps (select_iter example_params example_env 25 (\<lambda>h. None) True (Suc 0) example_start)
        = 103"
    by (simp add: Let_def del: select_iter.simps)
  have ne0: "vecPriority example_start \<noteq> []"
    by (simp add: example_start_def selection_start_def example_queue_def)
  have front0: "get3 (fst (pop_heap (TxPriorityCompare (fSortedByFee example_start))
                  (vecPriority example_start))) = example_tx 1 (- 2)"
    by (simp add: selection_defs example_selection_defs Let_def)
  have st: "select_step example_params example_env 25 (\<lambda>h. None) True example_start = example_state1"
    using example_first_iteration ne0 by simp
  have vs: "vtx example_state1 \<noteq> vtx example_start"
    "vtx example_start = [CTransaction_default]"
    "nBlockSize example_start = 1000" "nBlockSigOps example_start = 100"
    "ucast (GetSerializeSize example_env (example_tx 1 (- 2))) = (250 :: 64 word)"
    "GetLegacySigOpCount example_env (example_tx 1 (- 2))
       + GetP2SHSigOpCount example_env (example_tx 1 (- 2)) (view example_start) = 3"
    by (simp_all add: example_state1_def example_start_def selection_start_def example_env_def
          example_tx_def CTransaction_default_def)
  note at_start = selection_respects_limits [where P = example_params and E = example_env
      and pindexPrev = example_tip and ?view0.0 = 0 and ?q0.0 = example_queue and ?o0.0 = "[]"
      and s = example_start and height = 25 and dependers = "\<lambda>h. None" and monitoring = True
      and n = 0]
  from at_start [THEN conjunct2, THEN conjunct2, THEN conjunct2, THEN conjunct2, THEN conjunct1]
    ne0 front0 vs
  have b: "vtx (select_step example_params example_env 25 (\<lambda>h. None) True example_start)
        = vtx example_start @ [example_tx 1 (- 2)]
   \<and> nBlockSize (select_step example_params example_env 25 (\<lambda>h. None) True example_start)
        = 1000 + 250
   \<and> nBlockSigOps (select_step example_params example_env 25 (\<lambda>h. None) True example_start)
        = 100 + 3"
    by (simp add: Let_def st)
  from a1 a2 a3 b front gate ne len ne0 front0 tl1(1) show ?thesis by blast
qed

text \<open>
  C3. When ZIP209 is enabled and the previous tip carries all three pool totals, the
  selection monitors the pools and starts from those totals. An iteration either adds the
  popped transaction and moves the Sprout, Sapling and Orchard balances by
  \<open>+ vpub_old - vpub_new\<close> (summed over its joinsplits), \<open>- valueBalanceSapling\<close> and
  \<open>- valueBalance\<close> of its Orchard bundle, all three results being non-negative, or it
  skips the transaction and leaves the three balances as they were; a transaction that would
  make a pool negative is skipped. Hence the balances are non-negative after every
  accepted transaction, and throughout when the totals of the tip are non-negative.
\<close>

theorem turnstile_keeps_pools_nonnegative:
  fixes E :: "'v miner_env"
  assumes zip: "ZIP209Enabled P"
    and tip: "nChainSproutValue pindexPrev = Some sprout0
              \<and> nChainSaplingValue pindexPrev = Some sapling0
              \<and> nChainOrchardValue pindexPrev = Some orchard0"
  shows
    "monitoring_pool_balances P pindexPrev
     \<and> sproutValue (selection_start P E pindexPrev view0 q0 o0) = sprout0
     \<and> saplingValue (selection_start P E pindexPrev view0 q0 o0) = sapling0
     \<and> orchardValue (selection_start P E pindexPrev view0 q0 o0) = orchard0
     \<and> (vecPriority s \<noteq> [] \<longrightarrow>
         (let tx = get3 (fst (pop_heap (TxPriorityCompare (fSortedByFee s)) (vecPriority s)));
              s' = select_step P E height dependers (monitoring_pool_balances P pindexPrev) s;
              sprout' = sproutValue s + sum_list (map vpub_old (vJoinSplit tx))
                          - sum_list (map vpub_new (vJoinSplit tx));
              sapling' = saplingValue s - valueBalanceSapling tx;
              orchard' = orchardValue s - GetValueBalance (orchardBundle tx)
          in ((vtx s' = vtx s @ [tx] \<and> sproutValue s' = sprout' \<and> saplingValue s' = sapling'
                \<and> orchardValue s' = orchard' \<and> 0 \<le> sprout' \<and> 0 \<le> sapling' \<and> 0 \<le> orchard')
              \<or> (vtx s' = vtx s \<and> sproutValue s' = sproutValue s
                  \<and> saplingValue s' = saplingValue s \<and> orchardValue s' = orchardValue s))
             \<and> (sprout' < 0 \<or> sapling' < 0 \<or> orchard' < 0 \<longrightarrow>
                  vtx s' = vtx s \<and> sproutValue s' = sproutValue s
                  \<and> saplingValue s' = saplingValue s \<and> orchardValue s' = orchardValue s)))
     \<and> (let s' = select_iter P E height dependers (monitoring_pool_balances P pindexPrev) n
                    (selection_start P E pindexPrev view0 q0 o0)
         in 1 < length (vtx s') \<or> (0 \<le> sprout0 \<and> 0 \<le> sapling0 \<and> 0 \<le> orchard0) \<longrightarrow>
              0 \<le> sproutValue s' \<and> 0 \<le> saplingValue s' \<and> 0 \<le> orchardValue s')
     \<and> (let s' = select_loop P E height dependers (monitoring_pool_balances P pindexPrev)
                    (selection_start P E pindexPrev view0 q0 o0)
         in 1 < length (vtx s') \<or> (0 \<le> sprout0 \<and> 0 \<le> sapling0 \<and> 0 \<le> orchard0) \<longrightarrow>
              0 \<le> sproutValue s' \<and> 0 \<le> saplingValue s' \<and> 0 \<le> orchardValue s')"
proof -
  let ?start = "selection_start P E pindexPrev view0 q0 o0"
  let ?m = "monitoring_pool_balances P pindexPrev"
  let ?K = "\<lambda>s :: 'v selection. vtx s \<noteq> []
      \<and> (length (vtx s) = 1 \<or> (0 \<le> sproutValue s \<and> 0 \<le> saplingValue s \<and> 0 \<le> orchardValue s))"
  let ?N = "\<lambda>s :: 'v selection. 0 \<le> sproutValue s \<and> 0 \<le> saplingValue s \<and> 0 \<le> orchardValue s"
  have m: ?m using zip tip by (simp add: monitoring_pool_balances_def)
  have start: "sproutValue ?start = sprout0 \<and> saplingValue ?start = sapling0
               \<and> orchardValue ?start = orchard0"
    using zip tip by (simp add: selection_start_def initial_pool_value_def)
  have K0: "?K ?start" by (simp add: selection_start_def)
  have K: "?K (select_iter P E height dependers ?m k ?start)" for k
    by (rule select_iter_invariant [where I = ?K, OF _ K0]) (rule select_step_pools [OF zip m])
  have N: "?N (select_iter P E height dependers ?m k ?start)"
    if "0 \<le> sprout0 \<and> 0 \<le> sapling0 \<and> 0 \<le> orchard0" for k
  proof (rule select_iter_invariant [where I = ?N])
    show "?N ?start" using that start by simp
  qed (rule select_step_pools_nonneg [OF zip m])
  have concl: "1 < length (vtx s') \<or> (0 \<le> sprout0 \<and> 0 \<le> sapling0 \<and> 0 \<le> orchard0) \<longrightarrow>
              0 \<le> sproutValue s' \<and> 0 \<le> saplingValue s' \<and> 0 \<le> orchardValue s'"
    if "s' = select_iter P E height dependers ?m k ?start" for k and s' :: "'v selection"
    using K [of k] N [of k] that by auto
  have step: "let tx = get3 (fst (pop_heap (TxPriorityCompare (fSortedByFee s)) (vecPriority s)));
              s' = select_step P E height dependers ?m s;
              sprout' = sproutValue s + sum_list (map vpub_old (vJoinSplit tx))
                          - sum_list (map vpub_new (vJoinSplit tx));
              sapling' = saplingValue s - valueBalanceSapling tx;
              orchard' = orchardValue s - GetValueBalance (orchardBundle tx)
          in ((vtx s' = vtx s @ [tx] \<and> sproutValue s' = sprout' \<and> saplingValue s' = sapling'
                \<and> orchardValue s' = orchard' \<and> 0 \<le> sprout' \<and> 0 \<le> sapling' \<and> 0 \<le> orchard')
              \<or> (vtx s' = vtx s \<and> sproutValue s' = sproutValue s
                  \<and> saplingValue s' = saplingValue s \<and> orchardValue s' = orchardValue s))
             \<and> (sprout' < 0 \<or> sapling' < 0 \<or> orchard' < 0 \<longrightarrow>
                  vtx s' = vtx s \<and> sproutValue s' = sproutValue s
                  \<and> saplingValue s' = saplingValue s \<and> orchardValue s' = orchardValue s)"
  proof (cases rule: select_step_outcome [where P = P and E = E and height = height
      and dependers = dependers and monitoring = ?m and s = s])
    case (skipped v)
    then show ?thesis by (simp add: Let_def)
  next
    case (added s1 s2)
    from turnstile_Inr [OF added(1)] zip m added(2-4) added(10) added(14-16)
    show ?thesis by (simp add: Let_def)
  qed
  have loop: "select_loop P E height dependers ?m ?start
                = select_iter P E height dependers ?m (remaining ?start) ?start"
    by (rule select_loop_iter)
  from m start step concl [OF refl, of n] concl [OF loop]
  show ?thesis by (simp add: Let_def)
qed


theorem turnstile_keeps_pools_nonnegative_witness:
  "ZIP209Enabled example_params
   \<and> nChainSproutValue example_tip = Some 0 \<and> nChainSaplingValue example_tip = Some 3
   \<and> nChainOrchardValue example_tip = Some 0
   \<and> vecPriority example_state2 \<noteq> []
   \<and> get3 (fst (pop_heap (TxPriorityCompare (fSortedByFee example_state2))
                  (vecPriority example_state2))) = example_tx 4 9
   \<and> saplingValue example_state2 - valueBalanceSapling (example_tx 4 9) < 0
   \<and> vtx (select_step example_params example_env 25 (\<lambda>h. None)
             (monitoring_pool_balances example_params example_tip) example_state2)
        = vtx example_state2
   \<and> saplingValue (select_step example_params example_env 25 (\<lambda>h. None)
             (monitoring_pool_balances example_params example_tip) example_state2) = 5
   \<and> 1 < length (vtx (select_iter example_params example_env 25 (\<lambda>h. None)
             (monitoring_pool_balances example_params example_tip) (Suc 0) example_start))
   \<and> 0 \<le> saplingValue (select_iter example_params example_env 25 (\<lambda>h. None)
             (monitoring_pool_balances example_params example_tip) (Suc 0) example_start)"
proof -
  have zip: "ZIP209Enabled example_params" by (simp add: example_params_def)
  have tip: "nChainSproutValue example_tip = Some 0 \<and> nChainSaplingValue example_tip = Some 3
             \<and> nChainOrchardValue example_tip = Some 0"
    by (simp add: example_tip_def)
  have m: "monitoring_pool_balances example_params example_tip = True"
    by (simp add: monitoring_pool_balances_def example_tip_def)
  have front: "get3 (fst (pop_heap (TxPriorityCompare (fSortedByFee example_state2))
                  (vecPriority example_state2))) = example_tx 4 9"
    by (simp add: example_state2_def example_state1_def pop_heap_def TxPriorityCompare_def
          get0_def get1_def get2_def get3_def example_tx_def CTransaction_default_def Let_def)
  have neg: "saplingValue example_state2 - valueBalanceSapling (example_tx 4 9) < 0"
    "saplingValue example_state2 = 5"
    by (simp_all add: example_state2_def example_state1_def example_tx_def)
  have ne: "vecPriority example_state2 \<noteq> []" by (simp add: example_state2_def)
  have len: "1 < length (vtx (select_iter example_params example_env 25 (\<lambda>h. None) True (Suc 0)
                                example_start))"
    unfolding example_first_iteration by (simp add: example_state1_def)
  from turnstile_keeps_pools_nonnegative [OF zip tip, where E = example_env
      and ?view0.0 = 0 and ?q0.0 = example_queue and ?o0.0 = "[]"
      and s = example_state2 and height = 25 and dependers = "\<lambda>h. None" and n = "Suc 0"]
    front neg ne len zip tip
  show ?thesis by (simp add: Let_def example_start_def m)
qed



section \<open>Claims about the header and the extra nonce\<close>




text \<open>
  C4. In a template that \<open>CreateNewBlock\<close> returns, \<open>hashBlockCommitments\<close> is given by
  the first matching case at the height of the block: under NU5, the block commitments
  hash derived from the chain history root (read for the branch id of the previous block's
  height) and the auth data Merkle root of the template's transactions; else, at the
  activation height of Heartwood, zero; else, under Heartwood, the chain history root;
  otherwise the root of the Sapling tree after appending, transaction by transaction, every
  output commitment of the template's transactions to the tree of the tip.
\<close>

theorem block_commitments_cases:
  fixes E :: "'v miner_env"
  assumes run: "CreateNewBlock P C H E preferV4 pindexPrev view0 sapling_tree0 scan rand
                  TestBlockValidity minerAddr next_cb_mtx = Inr t"
  shows
    "(let height = nHeight pindexPrev + 1;
          history = GetHistoryRoot E (view (run_selection P E pindexPrev view0 scan next_cb_mtx))
                      (CurrentEpochBranchId P (nHeight pindexPrev))
      in (NetworkUpgradeActive P height UPGRADE_NU5 \<longrightarrow>
            hashBlockCommitments t
              = DeriveBlockCommitmentsHash H history (BuildAuthDataMerkleTree H (block_vtx t)))
         \<and> (\<not> NetworkUpgradeActive P height UPGRADE_NU5
              \<and> IsActivationHeight P height UPGRADE_HEARTWOOD \<longrightarrow>
            hashBlockCommitments t = 0)
         \<and> (\<not> NetworkUpgradeActive P height UPGRADE_NU5
              \<and> \<not> IsActivationHeight P height UPGRADE_HEARTWOOD
              \<and> NetworkUpgradeActive P height UPGRADE_HEARTWOOD \<longrightarrow>
            hashBlockCommitments t = history)
         \<and> (\<not> NetworkUpgradeActive P height UPGRADE_NU5
              \<and> \<not> IsActivationHeight P height UPGRADE_HEARTWOOD
              \<and> \<not> NetworkUpgradeActive P height UPGRADE_HEARTWOOD \<longrightarrow>
            hashBlockCommitments t
              = sapling_root H (sapling_tree0
                  @ concat (map (\<lambda>tx. map (cmu H) (vShieldedOutput tx)) (block_vtx t)))))"
  using run unfolding CreateNewBlock_def Let_def
  by (auto split: sum.splits if_splits simp: update_sapling_tree_concat)

theorem block_commitments_cases_witness:
  "(\<exists>t. CreateNewBlock example_params example_crypto example_hashing example_env True
           (example_tip_at 34) 0 [40, 2] example_scan 0 (\<lambda>t. True) (SaplingMiner 9) None = Inr t
        \<and> NetworkUpgradeActive example_params 35 UPGRADE_NU5
        \<and> hashBlockCommitments t = 771001)
   \<and> (\<exists>t. CreateNewBlock example_params example_crypto example_hashing example_env True
           (example_tip_at 9) 0 [40, 2] example_scan 0 (\<lambda>t. True) (SaplingMiner 9) None = Inr t
        \<and> \<not> NetworkUpgradeActive example_params 10 UPGRADE_NU5
        \<and> IsActivationHeight example_params 10 UPGRADE_HEARTWOOD
        \<and> hashBlockCommitments t = 0)
   \<and> (\<exists>t. CreateNewBlock example_params example_crypto example_hashing example_env True
           (example_tip_at 14) 0 [40, 2] example_scan 0 (\<lambda>t. True) (SaplingMiner 9) None = Inr t
        \<and> \<not> NetworkUpgradeActive example_params 15 UPGRADE_NU5
        \<and> \<not> IsActivationHeight example_params 15 UPGRADE_HEARTWOOD
        \<and> NetworkUpgradeActive example_params 15 UPGRADE_HEARTWOOD
        \<and> hashBlockCommitments t = 77)
   \<and> (\<exists>t. CreateNewBlock example_params example_crypto example_hashing example_env True
           (example_tip_at 4) 0 [40, 2] example_scan 0 (\<lambda>t. True) (SaplingMiner 9) None = Inr t
        \<and> \<not> NetworkUpgradeActive example_params 5 UPGRADE_NU5
        \<and> \<not> IsActivationHeight example_params 5 UPGRADE_HEARTWOOD
        \<and> \<not> NetworkUpgradeActive example_params 5 UPGRADE_HEARTWOOD
        \<and> concat (map (\<lambda>tx. map (cmu example_hashing) (vShieldedOutput tx)) (block_vtx t)) = [800]
        \<and> hashBlockCommitments t = 842)"
proof -
  have nh: "nHeight (example_tip_at h) = h" for h
    by (simp add: example_tip_at_def)
  have rs: "view (run_selection example_params example_env (example_tip_at h) 0 example_scan None) = 0"
    for h
    by (simp add: example_run_selection selection_start_def)
  from example_block_34 obtain t1 where t1: "CreateNewBlock example_params example_crypto example_hashing
      example_env True (example_tip_at 34) 0 [40, 2] example_scan 0 (\<lambda>t. True) (SaplingMiner 9) None = Inr t1"
    "length (block_vtx t1) = 1" by (elim exE conjE) (rule that, assumption+)
  from example_blocks(1) obtain t2 where t2: "CreateNewBlock example_params example_crypto example_hashing
      example_env True (example_tip_at 9) 0 [40, 2] example_scan 0 (\<lambda>t. True) (SaplingMiner 9) None = Inr t2"
    by (elim exE conjE) (rule that, assumption+)
  from example_blocks(2) obtain t3 where t3: "CreateNewBlock example_params example_crypto example_hashing
      example_env True (example_tip_at 14) 0 [40, 2] example_scan 0 (\<lambda>t. True) (SaplingMiner 9) None = Inr t3"
    by (elim exE conjE) (rule that, assumption+)
  from example_block_4 obtain t4 where t4: "CreateNewBlock example_params example_crypto example_hashing
      example_env True (example_tip_at 4) 0 [40, 2] example_scan 0 (\<lambda>t. True) (SaplingMiner 9) None = Inr t4"
    "concat (map (\<lambda>tx. map (cmu example_hashing) (vShieldedOutput tx)) (block_vtx t4)) = [800]" by (elim exE conjE) (rule that, assumption+)
  have p: "NetworkUpgradeActive example_params 35 UPGRADE_NU5"
    "\<not> NetworkUpgradeActive example_params 10 UPGRADE_NU5"
    "IsActivationHeight example_params 10 UPGRADE_HEARTWOOD"
    "\<not> NetworkUpgradeActive example_params 15 UPGRADE_NU5"
    "\<not> IsActivationHeight example_params 15 UPGRADE_HEARTWOOD"
    "NetworkUpgradeActive example_params 15 UPGRADE_HEARTWOOD"
    "\<not> NetworkUpgradeActive example_params 5 UPGRADE_NU5"
    "\<not> IsActivationHeight example_params 5 UPGRADE_HEARTWOOD"
    "\<not> NetworkUpgradeActive example_params 5 UPGRADE_HEARTWOOD"
    by (simp_all add: example_params_def)
  have q: "GetHistoryRoot example_env v b = 77"
    "CurrentEpochBranchId example_params 34 = 3"
    "DeriveBlockCommitmentsHash example_hashing 77 (BuildAuthDataMerkleTree example_hashing (block_vtx t1))
       = 771001"
    "sapling_root example_hashing ([40, 2] @ [800]) = 842" for v b
    using t1(2) by (simp_all add: example_env_def example_params_def example_hashing_def)
  have c1: "hashBlockCommitments t1 = 771001"
    using block_commitments_cases [OF t1(1)] p(1) q(3) by (simp add: nh rs q(1) Let_def)
  have c2: "hashBlockCommitments t2 = 0"
    using block_commitments_cases [OF t2] p(2,3) by (simp add: nh Let_def)
  have c3: "hashBlockCommitments t3 = 77"
    using block_commitments_cases [OF t3] p(4,5,6) by (simp add: nh q(1) Let_def)
  have c4: "hashBlockCommitments t4 = 842"
    using block_commitments_cases [OF t4(1)] p(7,8,9) q(4) by (simp add: nh t4(2) Let_def)
  show ?thesis
  proof (intro conjI)
    show "\<exists>t. CreateNewBlock example_params example_crypto example_hashing example_env True
           (example_tip_at 34) 0 [40, 2] example_scan 0 (\<lambda>t. True) (SaplingMiner 9) None = Inr t
        \<and> NetworkUpgradeActive example_params 35 UPGRADE_NU5
        \<and> hashBlockCommitments t = 771001"
      using t1(1) p(1) c1 by (intro exI [of _ t1] conjI)
    show "\<exists>t. CreateNewBlock example_params example_crypto example_hashing example_env True
           (example_tip_at 9) 0 [40, 2] example_scan 0 (\<lambda>t. True) (SaplingMiner 9) None = Inr t
        \<and> \<not> NetworkUpgradeActive example_params 10 UPGRADE_NU5
        \<and> IsActivationHeight example_params 10 UPGRADE_HEARTWOOD
        \<and> hashBlockCommitments t = 0"
      using t2 p(2,3) c2 by (intro exI [of _ t2] conjI)
    show "\<exists>t. CreateNewBlock example_params example_crypto example_hashing example_env True
           (example_tip_at 14) 0 [40, 2] example_scan 0 (\<lambda>t. True) (SaplingMiner 9) None = Inr t
        \<and> \<not> NetworkUpgradeActive example_params 15 UPGRADE_NU5
        \<and> \<not> IsActivationHeight example_params 15 UPGRADE_HEARTWOOD
        \<and> NetworkUpgradeActive example_params 15 UPGRADE_HEARTWOOD
        \<and> hashBlockCommitments t = 77"
      using t3 p(4,5,6) c3 by (intro exI [of _ t3] conjI)
    show "\<exists>t. CreateNewBlock example_params example_crypto example_hashing example_env True
           (example_tip_at 4) 0 [40, 2] example_scan 0 (\<lambda>t. True) (SaplingMiner 9) None = Inr t
        \<and> \<not> NetworkUpgradeActive example_params 5 UPGRADE_NU5
        \<and> \<not> IsActivationHeight example_params 5 UPGRADE_HEARTWOOD
        \<and> \<not> NetworkUpgradeActive example_params 5 UPGRADE_HEARTWOOD
        \<and> concat (map (\<lambda>tx. map (cmu example_hashing) (vShieldedOutput tx)) (block_vtx t)) = [800]
        \<and> hashBlockCommitments t = 842"
      using t4 p(7,8,9) c4 by (intro exI [of _ t4] conjI)
  qed
qed

section \<open>Extraction of the miner address\<close>

text \<open>
  C10. \<open>ExtractMinerAddress\<close> is a total case analysis returning an optional miner address:
  a key id gives the P2PKH reserve script, a Sapling address gives itself, a Unified
  Address gives a miner address exactly when its preferred recipient is an Orchard address,
  a Sapling address or a key id (and then the corresponding miner address), and a script
  id, a Sprout address, and a Unified Address with a script-id preferred recipient or with
  none give nothing.
\<close>

theorem ExtractMinerAddress_cases:
  "ExtractMinerAddress preferred (PayKeyID k) = Some (ReserveScript (p2pkh_script k))
   \<and> ExtractMinerAddress preferred (PaySapling pa) = Some (SaplingMiner pa)
   \<and> ExtractMinerAddress preferred (PayScriptID sid) = None
   \<and> ExtractMinerAddress preferred (PaySprout sp) = None
   \<and> (ExtractMinerAddress preferred (PayUnified ua) \<noteq> None \<longleftrightarrow>
        (\<exists>a. preferred ua = Some (RecipientOrchard a))
        \<or> (\<exists>a. preferred ua = Some (RecipientSapling a))
        \<or> (\<exists>k'. preferred ua = Some (RecipientKeyID k')))
   \<and> (preferred uo = Some (RecipientOrchard oa) \<longrightarrow>
        ExtractMinerAddress preferred (PayUnified uo) = Some (OrchardMiner oa))
   \<and> (preferred us = Some (RecipientSapling sa) \<longrightarrow>
        ExtractMinerAddress preferred (PayUnified us) = Some (SaplingMiner sa))
   \<and> (preferred uk = Some (RecipientKeyID k2) \<longrightarrow>
        ExtractMinerAddress preferred (PayUnified uk) = Some (ReserveScript (p2pkh_script k2)))
   \<and> (preferred up = Some (RecipientScriptID s2) \<longrightarrow>
        ExtractMinerAddress preferred (PayUnified up) = None)
   \<and> (preferred un = None \<longrightarrow> ExtractMinerAddress preferred (PayUnified un) = None)"
  by (auto simp: ExtractMinerAddress_keyID_def p2pkh_script_def push_opcode_def push_data_def
           split: option.splits RecipientAddress.splits)

theorem ExtractMinerAddress_cases_witness:
  "example_preferred 0 = Some (RecipientOrchard 7)
   \<and> ExtractMinerAddress example_preferred (PayUnified 0) = Some (OrchardMiner 7)
   \<and> example_preferred 1 = Some (RecipientSapling 8)
   \<and> ExtractMinerAddress example_preferred (PayUnified 1) = Some (SaplingMiner 8)
   \<and> example_preferred 2 = Some (RecipientKeyID [1, 2, 3])
   \<and> ExtractMinerAddress example_preferred (PayUnified 2)
       = Some (ReserveScript [0x76, 0xa9, 3, 1, 2, 3, 0x88, 0xac])
   \<and> example_preferred 3 = Some (RecipientScriptID [4, 5])
   \<and> ExtractMinerAddress example_preferred (PayUnified 3) = None
   \<and> example_preferred 4 = None
   \<and> ExtractMinerAddress example_preferred (PayUnified 4) = None"
  using ExtractMinerAddress_cases [of example_preferred "[]" 0 "[]" 0 0 0 7 1 8 2 "[1, 2, 3]" 3 "[4, 5]" 4]
  by (simp add: example_preferred_def p2pkh_script_def push_data_def OP_DUP_def OP_HASH160_def
        OP_EQUALVERIFY_def OP_CHECKSIG_def OP_PUSHDATA1_def)

end
